(* ===== verification/Prelude.thy ===== *)
theory Prelude
  imports Complex_Main "HOL-Library.Word"
begin

text \<open>
  The shared layer of the development: the JavaScript values, strings, numbers and buffers the
  source uses, and the effect monad all stateful components are written in.

  Strings are lists of characters with code points below 256 (the range of HTTP header values, hex
  strings, addresses and environment variables of this program); buffers are lists of 8-bit words.
  An \<^verbatim>\<open>async\<close> function is a function from the state of its component to an outcome and the
  new state. An exception does not undo the effects that came before it, so the new state is there
  for both outcomes.
\<close>

named_theorems effect_simps \<open>evaluation of effectful code at a state\<close>
named_theorems effect_intros \<open>effects that stay within a preorder of states\<close>

section \<open>Effects: state and exceptions\<close>

datatype js_error =
    JsError string \<comment> \<open>\<^verbatim>\<open>new Error(message)\<close>\<close>
  | JsTypeError string \<comment> \<open>a \<^verbatim>\<open>TypeError\<close> of the language\<close>
  | Rejected string \<comment> \<open>a rejected promise of a library or of a remote service\<close>
  | HttpError "string option" string \<comment> \<open>a failed HTTP call: \<^verbatim>\<open>response.data.detail\<close> and \<^verbatim>\<open>message\<close>\<close>

type_synonym ('s, 'a) jsm = "'s \<Rightarrow> (js_error + 'a) \<times> 's"

definition ret_m :: "'a \<Rightarrow> ('s, 'a) jsm" where
  "ret_m a = (\<lambda>s. (Inr a, s))"

definition throw_m :: "js_error \<Rightarrow> ('s, 'a) jsm" where
  "throw_m e = (\<lambda>s. (Inl e, s))"

definition bind_m :: "('s, 'a) jsm \<Rightarrow> ('a \<Rightarrow> ('s, 'b) jsm) \<Rightarrow> ('s, 'b) jsm" where
  "bind_m m f = (\<lambda>s. case m s of (Inl e, t) \<Rightarrow> (Inl e, t) | (Inr a, t) \<Rightarrow> f a t)"

definition try_m :: "('s, 'a) jsm \<Rightarrow> (js_error \<Rightarrow> ('s, 'a) jsm) \<Rightarrow> ('s, 'a) jsm" where
  "try_m m h = (\<lambda>s. case m s of (Inl e, t) \<Rightarrow> h e t | (Inr a, t) \<Rightarrow> (Inr a, t))"

definition finally_m :: "('s, 'a) jsm \<Rightarrow> ('s, unit) jsm \<Rightarrow> ('s, 'a) jsm" where
  "finally_m m f = (\<lambda>s. case m s of (r, t) \<Rightarrow>
     (case f t of (Inl e, u) \<Rightarrow> (Inl e, u) | (Inr _, u) \<Rightarrow> (r, u)))"

definition gets_m :: "('s \<Rightarrow> 'a) \<Rightarrow> ('s, 'a) jsm" where
  "gets_m f = (\<lambda>s. (Inr (f s), s))"

definition modify_m :: "('s \<Rightarrow> 's) \<Rightarrow> ('s, unit) jsm" where
  "modify_m f = (\<lambda>s. (Inr (), f s))"

definition lift_m :: "js_error + 'a \<Rightarrow> ('s, 'a) jsm" where
  "lift_m r = (\<lambda>s. (r, s))"

text \<open>A \<^verbatim>\<open>for .. of\<close> loop whose body counts: the first exception ends it.\<close>

fun sum_m :: "('l \<Rightarrow> ('s, nat) jsm) \<Rightarrow> 'l list \<Rightarrow> ('s, nat) jsm" where
  "sum_m f [] = ret_m 0"
| "sum_m f (x # xs) = bind_m (f x) (\<lambda>k. bind_m (sum_m f xs) (\<lambda>n. ret_m (k + n)))"

lemma ret_m_app [effect_simps]: "ret_m a s = (Inr a, s)"
  by (simp add: ret_m_def)

lemma throw_m_app [effect_simps]: "throw_m e s = (Inl e, s)"
  by (simp add: throw_m_def)

lemma bind_m_app [effect_simps]:
  "bind_m m f s = (case m s of (Inl e, t) \<Rightarrow> (Inl e, t) | (Inr a, t) \<Rightarrow> f a t)"
  by (simp add: bind_m_def)

lemma try_m_app [effect_simps]:
  "try_m m h s = (case m s of (Inl e, t) \<Rightarrow> h e t | (Inr a, t) \<Rightarrow> (Inr a, t))"
  by (simp add: try_m_def)

lemma finally_m_app [effect_simps]:
  "finally_m m f s = (case m s of (r, t) \<Rightarrow>
     (case f t of (Inl e, u) \<Rightarrow> (Inl e, u) | (Inr _, u) \<Rightarrow> (r, u)))"
  by (simp add: finally_m_def)

lemma gets_m_app [effect_simps]: "gets_m f s = (Inr (f s), s)"
  by (simp add: gets_m_def)

lemma modify_m_app [effect_simps]: "modify_m f s = (Inr (), f s)"
  by (simp add: modify_m_def)

lemma lift_m_app [effect_simps]: "lift_m r s = (r, s)"
  by (simp add: lift_m_def)

lemma bind_m_Inr: "bind_m m f s = (Inr b, u) \<longleftrightarrow> (\<exists>a t. m s = (Inr a, t) \<and> f a t = (Inr b, u))"
  by (auto simp: bind_m_def split: prod.splits sum.splits)

lemma bind_m_Inl: "bind_m m f s = (Inl e, u) \<longleftrightarrow>
    m s = (Inl e, u) \<or> (\<exists>a t. m s = (Inr a, t) \<and> f a t = (Inl e, u))"
  by (auto simp: bind_m_def split: prod.splits sum.splits)

lemma bind_m_assoc: "bind_m (bind_m m f) g = bind_m m (\<lambda>a. bind_m (f a) g)"
  by (rule ext) (simp add: bind_m_def split: prod.split sum.split)

fun error_message :: "js_error \<Rightarrow> string" where
  "error_message (JsError m) = m"
| "error_message (JsTypeError m) = m"
| "error_message (Rejected m) = m"
| "error_message (HttpError d m) = m"

section \<open>Results without effects\<close>

definition bind_r :: "'e + 'a \<Rightarrow> ('a \<Rightarrow> 'e + 'b) \<Rightarrow> 'e + 'b" where
  "bind_r r f = (case r of Inl e \<Rightarrow> Inl e | Inr a \<Rightarrow> f a)"

lemma bind_r_simps [simp]: "bind_r (Inl e) f = Inl e" "bind_r (Inr a) f = f a"
  by (simp_all add: bind_r_def)

lemma bind_r_Inr: "bind_r r f = Inr b \<longleftrightarrow> (\<exists>a. r = Inr a \<and> f a = Inr b)"
  by (cases r) auto

section \<open>Frames and invariants of effects\<close>

text \<open>An effect stays within a relation when every run, failing or not, ends in a related state.\<close>

definition stays :: "('s \<Rightarrow> 's \<Rightarrow> bool) \<Rightarrow> ('s, 'a) jsm \<Rightarrow> bool" where
  "stays R m \<longleftrightarrow> (\<forall>s. R s (snd (m s)))"

lemma staysI: "(\<And>s. R s (snd (m s))) \<Longrightarrow> stays R m"
  by (simp add: stays_def)

lemma staysD: "stays R m \<Longrightarrow> R s (snd (m s))"
  by (simp add: stays_def)

lemma staysE: "stays R m \<Longrightarrow> m s = (r, t) \<Longrightarrow> R s t"
  by (metis staysD snd_conv)

text \<open>
  The contract of a preorder of states (a frame condition, a monotone store, an invariant read as
  an implication): sequencing, catching and cleaning up never leave it.
\<close>

locale effect_order =
  fixes R :: "'s \<Rightarrow> 's \<Rightarrow> bool"
  assumes R_refl: "R s s"
    and R_trans: "R s t \<Longrightarrow> R t u \<Longrightarrow> R s u"
begin

lemma stays_ret: "stays R (ret_m a)"
  by (simp add: stays_def ret_m_def R_refl)

lemma stays_throw: "stays R (throw_m e)"
  by (simp add: stays_def throw_m_def R_refl)

lemma stays_gets: "stays R (gets_m f)"
  by (simp add: stays_def gets_m_def R_refl)

lemma stays_lift: "stays R (lift_m r)"
  by (simp add: stays_def lift_m_def R_refl)

lemma stays_bind:
  assumes m: "stays R m" and f: "\<And>a. stays R (f a)"
  shows "stays R (bind_m m f)"
proof (rule staysI)
  fix s
  show "R s (snd (bind_m m f s))"
    using staysD [OF m, of s] staysD [OF f] R_trans
    by (auto simp: bind_m_def split: prod.splits sum.splits)
qed

lemma stays_try:
  assumes m: "stays R m" and h: "\<And>e. stays R (h e)"
  shows "stays R (try_m m h)"
proof (rule staysI)
  fix s
  show "R s (snd (try_m m h s))"
    using staysD [OF m, of s] staysD [OF h] R_trans
    by (auto simp: try_m_def split: prod.splits sum.splits)
qed

lemma stays_finally:
  assumes m: "stays R m" and f: "stays R f"
  shows "stays R (finally_m m f)"
proof (rule staysI)
  fix s
  obtain r t where mt: "m s = (r, t)" by fastforce
  obtain q u where fu: "f t = (q, u)" by fastforce
  have "R s u" using staysE [OF m mt] staysE [OF f fu] R_trans by blast
  then show "R s (snd (finally_m m f s))"
    using mt fu by (auto simp: finally_m_def split: sum.splits)
qed

lemma stays_if: "stays R m \<Longrightarrow> stays R n \<Longrightarrow> stays R (if b then m else n)"
  by simp

lemma stays_sum: "(\<And>l. stays R (f l)) \<Longrightarrow> stays R (sum_m f ls)"
  by (induction ls) (auto intro!: stays_ret stays_bind)

lemmas stays_rules = stays_ret stays_throw stays_gets stays_lift stays_bind stays_try
  stays_finally stays_if

end

interpretation kept: effect_order "\<lambda>s t. P s \<longrightarrow> P t" for P
  by unfold_locales auto

interpretation same: effect_order "\<lambda>s t. f s = f t" for f
  by unfold_locales auto

section \<open>Encodings\<close>

text \<open>An encoding that a decoder undoes identifies its input, and so does a comparison of codes.\<close>

locale codec =
  fixes enc :: "'a \<Rightarrow> 'b" and decode :: "'b \<Rightarrow> 'a option" and valid :: "'a \<Rightarrow> bool"
  assumes decode_enc: "valid x \<Longrightarrow> decode (enc x) = Some x"
begin

lemma enc_inject: "valid x \<Longrightarrow> valid y \<Longrightarrow> enc x = enc y \<longleftrightarrow> x = y"
  by (metis decode_enc option.inject)

end

end
