(* ===== verification/Js_Values.thy ===== *)
theory Js_Values
  imports Prelude
begin

text \<open>
  The parts of the JavaScript standard library that the source calls: numbers and their radix
  printing and parsing, string case, padding, trimming and splitting, JSON values and whether
  \<^verbatim>\<open>JSON.stringify\<close> accepts them, and Node buffers with their hex encoding.
\<close>

section \<open>Numbers and values\<close>

text \<open>Every finite double is a rational; comparisons with NaN are false.\<close>

datatype js_num = Fin rat | PosInf | NegInf | NaN

definition js_int :: "int \<Rightarrow> js_num" where
  "js_int n = Fin (of_int n)"

fun num_less :: "js_num \<Rightarrow> js_num \<Rightarrow> bool" where
  "num_less (Fin a) (Fin b) = (a < b)"
| "num_less (Fin a) PosInf = True"
| "num_less NegInf (Fin b) = True"
| "num_less NegInf PosInf = True"
| "num_less a b = False"

fun num_le :: "js_num \<Rightarrow> js_num \<Rightarrow> bool" where
  "num_le NaN b = False"
| "num_le a NaN = False"
| "num_le a b = (num_less a b \<or> a = b)"

text \<open>\<^verbatim>\<open>Number.isInteger\<close>.\<close>

fun is_integer :: "js_num \<Rightarrow> bool" where
  "is_integer (Fin q) = (snd (quotient_of q) = 1)"
| "is_integer _ = False"

datatype js_value =
    JUndefined
  | JNull
  | JBool bool
  | JNumber js_num
  | JBigInt int
  | JString string
  | JArray "js_value list"
  | JObject "(string \<times> js_value) list"

text \<open>\<^verbatim>\<open>JSON.stringify\<close> throws on a BigInt wherever it occurs, and on nothing else here.\<close>

fun json_ok :: "js_value \<Rightarrow> bool" where
  "json_ok (JBigInt n) = False"
| "json_ok (JArray xs) = list_all json_ok xs"
| "json_ok (JObject kvs) = list_all (\<lambda>kv. json_ok (snd kv)) kvs"
| "json_ok _ = True"

text \<open>Property access \<^verbatim>\<open>o.k\<close> on a plain object.\<close>

fun field :: "js_value \<Rightarrow> string \<Rightarrow> js_value" where
  "field (JObject kvs) k = (case map_of kvs k of None \<Rightarrow> JUndefined | Some v \<Rightarrow> v)"
| "field _ k = JUndefined"

section \<open>Radix printing and parsing\<close>

definition digit_char :: "nat \<Rightarrow> char" where
  "digit_char d = ''0123456789abcdef'' ! d"

definition digit_val :: "char \<Rightarrow> nat option" where
  "digit_val c = (let n = of_char c :: nat in
     if 48 \<le> n \<and> n \<le> 57 then Some (n - 48)
     else if 97 \<le> n \<and> n \<le> 102 then Some (n - 87)
     else if 65 \<le> n \<and> n \<le> 70 then Some (n - 55)
     else None)"

fun to_base :: "nat \<Rightarrow> nat \<Rightarrow> string" where
  "to_base b n = (if n < b \<or> b < 2 then [digit_char (n mod 16)]
     else to_base b (n div b) @ [digit_char (n mod b)])"

declare to_base.simps [simp del]

fun of_base_acc :: "nat \<Rightarrow> nat \<Rightarrow> string \<Rightarrow> nat option" where
  "of_base_acc b acc [] = Some acc"
| "of_base_acc b acc (c # cs) = (case digit_val c of None \<Rightarrow> None
     | Some d \<Rightarrow> if d < b then of_base_acc b (acc * b + d) cs else None)"

definition of_base :: "nat \<Rightarrow> string \<Rightarrow> nat option" where
  "of_base b cs = (if cs = [] then None else of_base_acc b 0 cs)"

text \<open>\<^verbatim>\<open>BigInt.prototype.toString\<close> in base 10 and in base 16.\<close>

definition dec :: "int \<Rightarrow> string" where
  "dec n = (if n < 0 then CHR ''-'' # to_base 10 (nat (- n)) else to_base 10 (nat n))"

definition hex :: "int \<Rightarrow> string" where
  "hex n = (if n < 0 then CHR ''-'' # to_base 16 (nat (- n)) else to_base 16 (nat n))"

definition parse_dec :: "string \<Rightarrow> int option" where
  "parse_dec cs = (case cs of [] \<Rightarrow> None
     | c # ds \<Rightarrow> if c = CHR ''-'' then map_option (\<lambda>n. - int n) (of_base 10 ds)
               else map_option int (of_base 10 cs))"

definition padStart :: "nat \<Rightarrow> char \<Rightarrow> string \<Rightarrow> string" where
  "padStart n c cs = replicate (n - length cs) c @ cs"

lemma digit_val_char: "d < 16 \<Longrightarrow> digit_val (digit_char d) = Some d"
proof -
  assume "d < 16"
  then have "d \<in> set [0..<16]" by simp
  moreover have "\<forall>d \<in> set [0..<16]. digit_val (digit_char d) = Some d"
    by (simp add: upt_conv_Cons digit_val_def digit_char_def)
  ultimately show ?thesis by blast
qed

lemma digit_char_not_minus: "d < 16 \<Longrightarrow> digit_char d \<noteq> CHR ''-''"
  using digit_val_char [of d] by (auto simp: digit_val_def)

lemma of_base_acc_append:
  "of_base_acc b acc (xs @ ys) =
     (case of_base_acc b acc xs of None \<Rightarrow> None | Some a \<Rightarrow> of_base_acc b a ys)"
  by (induction xs arbitrary: acc) (auto split: option.splits)

lemma to_base_not_Nil [simp]: "to_base b n \<noteq> []"
  by (subst to_base.simps) simp

lemma of_base_acc_to_base:
  assumes "2 \<le> b" "b \<le> 16"
  shows "of_base_acc b 0 (to_base b n) = Some n"
proof (induction n rule: less_induct)
  case (less n)
  show ?case
  proof (cases "n < b")
    case True
    with assms show ?thesis by (subst to_base.simps) (simp add: digit_val_char)
  next
    case False
    with assms have "n div b < n" by simp
    then have "of_base_acc b 0 (to_base b (n div b)) = Some (n div b)" by (rule less.IH)
    moreover have "n mod b < b" using assms by simp
    moreover have "n mod b < 16" using \<open>n mod b < b\<close> assms by linarith
    ultimately show ?thesis using False assms
      by (subst to_base.simps) (simp add: of_base_acc_append digit_val_char)
  qed
qed

lemma of_base_to_base: "2 \<le> b \<Longrightarrow> b \<le> 16 \<Longrightarrow> of_base b (to_base b n) = Some n"
  by (simp add: of_base_def of_base_acc_to_base)

lemma to_base_hd: "2 \<le> b \<Longrightarrow> b \<le> 16 \<Longrightarrow> to_base b n = c # cs \<Longrightarrow> c \<noteq> CHR ''-''"
  using of_base_acc_to_base [of b n] by (auto simp: digit_val_def split: if_splits)

text \<open>Decimal printing is read back by the database's conversion of text to a number.\<close>

lemma parse_dec_dec [simp]: "parse_dec (dec n) = Some n"
proof (cases "n < 0")
  case True
  then show ?thesis by (simp add: dec_def parse_dec_def of_base_to_base)
next
  case False
  obtain c cs where eq: "to_base 10 (nat n) = c # cs" by (cases "to_base 10 (nat n)") auto
  with to_base_hd [of 10 "nat n" c cs] of_base_to_base [of 10 "nat n"] False show ?thesis
    by (simp add: dec_def parse_dec_def)
qed

lemma dec_inject [simp]: "dec m = dec n \<longleftrightarrow> m = n"
  by (metis option.inject parse_dec_dec)

lemma of_base_acc_chars: "of_base_acc b acc cs = Some k \<Longrightarrow> c \<in> set cs \<Longrightarrow> digit_val c \<noteq> None"
  by (induction cs arbitrary: acc) (auto split: option.splits if_splits)

lemma dec_chars: "c \<in> set (dec n) \<Longrightarrow> digit_val c \<noteq> None \<or> c = CHR ''-''"
  using of_base_acc_chars [OF of_base_acc_to_base [of 10 "nat n"], of c]
    of_base_acc_chars [OF of_base_acc_to_base [of 10 "nat (- n)"], of c]
  by (auto simp: dec_def split: if_splits)

lemma of_base_acc_zeros: "of_base_acc b 0 (replicate k (CHR ''0'') @ cs) = of_base_acc b 0 cs" if "0 < b"
  using that by (induction k) (auto simp: digit_val_def)

lemma of_base_padStart:
  "2 \<le> b \<Longrightarrow> b \<le> 16 \<Longrightarrow> of_base b (padStart k (CHR ''0'') (to_base b n)) = Some n"
  by (simp add: of_base_def padStart_def of_base_acc_zeros of_base_acc_to_base)

section \<open>Strings\<close>

definition lower_char :: "char \<Rightarrow> char" where
  "lower_char c = (let n = of_char c :: nat in
     if (65 \<le> n \<and> n \<le> 90) \<or> (192 \<le> n \<and> n \<le> 222 \<and> n \<noteq> 215) then char_of (n + 32) else c)"

definition toLowerCase :: "string \<Rightarrow> string" where
  "toLowerCase cs = map lower_char cs"

lemma lower_char_idem [simp]: "lower_char (lower_char c) = lower_char c"
  by (simp add: lower_char_def Let_def)

lemma toLowerCase_idem [simp]: "toLowerCase (toLowerCase s) = toLowerCase s"
  by (simp add: toLowerCase_def)

lemma length_toLowerCase [simp]: "length (toLowerCase s) = length s"
  by (simp add: toLowerCase_def)

definition is_space :: "char \<Rightarrow> bool" where
  "is_space c = (let n = of_char c :: nat in (9 \<le> n \<and> n \<le> 13) \<or> n = 32 \<or> n = 160)"

definition trim :: "string \<Rightarrow> string" where
  "trim cs = rev (dropWhile is_space (rev (dropWhile is_space cs)))"

text \<open>\<^verbatim>\<open>s.split(c)\<close> for a one-character separator: never empty.\<close>

fun split_on :: "char \<Rightarrow> string \<Rightarrow> string list" where
  "split_on c [] = [[]]"
| "split_on c (x # xs) = (if x = c then [] # split_on c xs
     else (case split_on c xs of [] \<Rightarrow> [[x]] | y # ys \<Rightarrow> (x # y) # ys))"

lemma split_on_not_Nil [simp]: "split_on c s \<noteq> []"
  by (induction s) (auto split: list.splits)

text \<open>\<^verbatim>\<open>parseInt(s, 10)\<close>: leading space, a sign, then the longest run of digits; NaN without one.\<close>

definition is_digit :: "char \<Rightarrow> bool" where
  "is_digit c = (let n = of_char c :: nat in 48 \<le> n \<and> n \<le> 57)"

definition digits_value :: "string \<Rightarrow> int" where
  "digits_value ds = int (foldl (\<lambda>a c. a * 10 + (of_char c - 48)) 0 ds)"

definition parse_unsigned :: "string \<Rightarrow> int option" where
  "parse_unsigned cs = (let ds = takeWhile is_digit cs in
     if ds = [] then None else Some (digits_value ds))"

definition parseInt10 :: "string \<Rightarrow> int option" where
  "parseInt10 s = (case dropWhile is_space s of
       [] \<Rightarrow> None
     | c # cs \<Rightarrow> if c = CHR ''-'' then map_option uminus (parse_unsigned cs)
               else if c = CHR ''+'' then parse_unsigned cs
               else parse_unsigned (c # cs))"

section \<open>Buffers\<close>

type_synonym byte = "8 word"
type_synonym buffer = "byte list"

definition byte_hex :: "byte \<Rightarrow> string" where
  "byte_hex b = [digit_char (unat b div 16), digit_char (unat b mod 16)]"

text \<open>\<^verbatim>\<open>buf.toString('hex')\<close>.\<close>

definition to_hex :: "buffer \<Rightarrow> string" where
  "to_hex bs = concat (map byte_hex bs)"

text \<open>\<^verbatim>\<open>Buffer.from(s, 'hex')\<close>: decoding stops at the first pair that is not two hex digits.\<close>

fun from_hex :: "string \<Rightarrow> buffer" where
  "from_hex (a # b # cs) = (case (digit_val a, digit_val b) of
       (Some x, Some y) \<Rightarrow> word_of_nat (16 * x + y) # from_hex cs
     | _ \<Rightarrow> [])"
| "from_hex _ = []"

lemma to_hex_simps [simp]:
  "to_hex [] = []"
  "to_hex (b # bs) = digit_char (unat b div 16) # digit_char (unat b mod 16) # to_hex bs"
  by (simp_all add: to_hex_def byte_hex_def)

lemma unat_byte_less: "unat (b :: byte) < 256"
  using unsigned_less [of b, where ?'a = nat] by simp

lemma from_hex_to_hex [simp]: "from_hex (to_hex bs) = bs"
proof (induction bs)
  case Nil
  then show ?case by simp
next
  case (Cons b bs)
  have "unat b div 16 < 16" using unat_byte_less [of b] by simp
  with Cons show ?case by (simp add: digit_val_char)
qed

lemma length_to_hex [simp]: "length (to_hex bs) = 2 * length bs"
  by (induction bs) auto

text \<open>The big-endian value of a buffer, and \<^verbatim>\<open>BigInt('0x' + buf.toString('hex'))\<close>.\<close>

definition be_nat :: "buffer \<Rightarrow> nat" where
  "be_nat bs = foldl (\<lambda>a b. a * 256 + unat b) 0 bs"

lemma foldl_be_acc:
  "foldl (\<lambda>a (b::byte). a * 256 + unat b) acc bs = acc * 256 ^ length bs + be_nat bs"
proof (induction bs arbitrary: acc)
  case Nil
  then show ?case by (simp add: be_nat_def)
next
  case (Cons b bs)
  show ?case
    using Cons.IH [of "acc * 256 + unat b"] Cons.IH [of "unat b"]
    by (simp add: be_nat_def algebra_simps)
qed

lemma be_nat_Nil [simp]: "be_nat [] = 0"
  by (simp add: be_nat_def)

lemma be_nat_Cons: "be_nat (b # bs) = unat b * 256 ^ length bs + be_nat bs"
  using foldl_be_acc [of "unat b" bs] by (simp add: be_nat_def)

lemma be_nat_append: "be_nat (xs @ ys) = be_nat xs * 256 ^ length ys + be_nat ys"
  using foldl_be_acc [of "be_nat xs" ys] by (simp add: be_nat_def)

lemma be_nat_zeros [simp]: "be_nat (replicate k 0) = 0"
  by (induction k) (auto simp: be_nat_Cons)

lemma be_nat_bound: "be_nat bs < 256 ^ length bs"
proof (induction bs)
  case Nil
  then show ?case by simp
next
  case (Cons b bs)
  have "unat b + 1 \<le> 256" using unat_byte_less [of b] by simp
  then have "(unat b + 1) * 256 ^ length bs \<le> 256 * 256 ^ length bs" by (rule mult_le_mono1)
  then have "unat b * 256 ^ length bs + 256 ^ length bs \<le> 256 * 256 ^ length bs"
    by (simp only: add_mult_distrib mult_1)
  with Cons.IH have "unat b * 256 ^ length bs + be_nat bs < 256 * 256 ^ length bs" by linarith
  then show ?case by (simp only: be_nat_Cons length_Cons power_Suc)
qed

lemma of_base_acc_to_hex: "of_base_acc 16 acc (to_hex bs) = Some (acc * 256 ^ length bs + be_nat bs)"
proof (induction bs arbitrary: acc)
  case Nil
  then show ?case by simp
next
  case (Cons b bs)
  have "unat b div 16 < 16" using unat_byte_less [of b] by simp
  moreover have "(acc * 16 + unat b div 16) * 16 + unat b mod 16 = acc * 256 + unat b" by simp
  ultimately show ?case using Cons.IH [of "acc * 256 + unat b"]
    by (simp add: digit_val_char be_nat_Cons algebra_simps)
qed

end
