(* ===== verification/Zod_Env.thy ===== *)
theory Zod_Env
  imports Js_Values "HOL-Library.Monad_Syntax"
begin

text \<open>
  Validation of \<^verbatim>\<open>process.env\<close> as the indexer's and the oracle service's \<^verbatim>\<open>envSchema\<close> ask for
  it. The zod library is a parameter: which strings its \<^verbatim>\<open>url()\<close> check accepts and which number
  its \<^verbatim>\<open>coerce\<close> makes of a string. The regular expressions, length bounds, integer and sign
  checks, defaults and optional fields of the schemas are written out here.
\<close>

type_synonym environment = "string \<rightharpoonup> string"

record zod =
  isUrl :: "string \<Rightarrow> bool"
  coerceNumber :: "string \<Rightarrow> js_num"

definition guard :: "bool \<Rightarrow> unit option" where
  "guard b = (if b then Some () else None)"

lemma guard_simps [simp]: "guard b = Some u \<longleftrightarrow> b" "guard b = None \<longleftrightarrow> \<not> b"
  by (simp_all add: guard_def)

text \<open>\<^verbatim>\<open>/^0x[a-fA-F0-9]{n}$/\<close>\<close>

definition hex_string :: "nat \<Rightarrow> string \<Rightarrow> bool" where
  "hex_string n s \<longleftrightarrow> length s = n + 2 \<and> take 2 s = ''0x'' \<and>
     list_all (\<lambda>c. digit_val c \<noteq> None) (drop 2 s)"

definition url_field :: "zod \<Rightarrow> string option \<Rightarrow> string option" where
  "url_field z v = do { s \<leftarrow> v; _ \<leftarrow> guard (isUrl z s); Some s }"

definition min_field :: "nat \<Rightarrow> string option \<Rightarrow> string option" where
  "min_field n v = do { s \<leftarrow> v; _ \<leftarrow> guard (n \<le> length s); Some s }"

definition hex_field :: "nat \<Rightarrow> string option \<Rightarrow> string option" where
  "hex_field n v = do { s \<leftarrow> v; _ \<leftarrow> guard (hex_string n s); Some s }"

definition optional :: "(string option \<Rightarrow> 'a option) \<Rightarrow> string option \<Rightarrow> 'a option option" where
  "optional p v = (case v of None \<Rightarrow> Some None | Some s \<Rightarrow> map_option Some (p (Some s)))"

text \<open>\<^verbatim>\<open>z.coerce.number().int()\<close> with a lower bound: the coerced integer.\<close>

definition int_field :: "zod \<Rightarrow> int \<Rightarrow> string option \<Rightarrow> int option" where
  "int_field z lo v = do {
     s \<leftarrow> v;
     _ \<leftarrow> guard (is_integer (coerceNumber z s));
     n \<leftarrow> (case coerceNumber z s of Fin q \<Rightarrow> Some (floor q) | _ \<Rightarrow> None);
     _ \<leftarrow> guard (lo \<le> n);
     Some n }"

definition positive_int :: "zod \<Rightarrow> string option \<Rightarrow> int option" where
  "positive_int z v = int_field z 1 v"

definition nonnegative_int :: "zod \<Rightarrow> string option \<Rightarrow> int option" where
  "nonnegative_int z v = int_field z 0 v"

definition with_default :: "(string option \<Rightarrow> int option) \<Rightarrow> int \<Rightarrow> string option \<Rightarrow> int option" where
  "with_default p d v = (case v of None \<Rightarrow> Some d | Some s \<Rightarrow> p (Some s))"

named_theorems field_intros \<open>what a validated field satisfies\<close>

lemma url_fieldD [field_intros]: "url_field z v = Some s \<Longrightarrow> isUrl z s"
  by (auto simp: url_field_def bind_eq_Some_conv)

lemma min_fieldD [field_intros]: "min_field n v = Some s \<Longrightarrow> n \<le> length s"
  by (auto simp: min_field_def bind_eq_Some_conv)

lemma hex_fieldD [field_intros]: "hex_field n v = Some s \<Longrightarrow> hex_string n s"
  by (auto simp: hex_field_def bind_eq_Some_conv)

lemma int_fieldD: "int_field z lo v = Some n \<Longrightarrow> lo \<le> n"
  by (auto simp: int_field_def bind_eq_Some_conv)

lemma positive_intD [field_intros]: "positive_int z v = Some n \<Longrightarrow> 0 < n"
  by (auto simp: positive_int_def dest: int_fieldD)

lemma nonnegative_intD [field_intros]: "nonnegative_int z v = Some n \<Longrightarrow> 0 \<le> n"
  by (auto simp: nonnegative_int_def dest: int_fieldD)

lemma with_default_positive [field_intros]:
  "with_default (positive_int z) d v = Some n \<Longrightarrow> 0 < d \<Longrightarrow> 0 < n"
  by (auto simp: with_default_def split: option.splits dest: positive_intD)

lemma with_default_nonnegative [field_intros]:
  "with_default (nonnegative_int z) d v = Some n \<Longrightarrow> 0 \<le> d \<Longrightarrow> 0 \<le> n"
  by (auto simp: with_default_def split: option.splits dest: nonnegative_intD)

lemma optional_min [field_intros]:
  "optional (min_field n) v = Some (Some s) \<Longrightarrow> n \<le> length s"
  by (auto simp: optional_def split: option.splits dest: min_fieldD)

lemma optional_url [field_intros]:
  "optional (url_field z) v = Some (Some s) \<Longrightarrow> isUrl z s"
  by (auto simp: optional_def split: option.splits dest: url_fieldD)

named_theorems field_sources \<open>a validated string is the variable's value\<close>

lemma string_field_source [field_sources]:
  "url_field z v = Some s \<Longrightarrow> v = Some s" "min_field n v = Some s \<Longrightarrow> v = Some s"
  "hex_field n v = Some s \<Longrightarrow> v = Some s"
  by (auto simp: url_field_def min_field_def hex_field_def bind_eq_Some_conv)

lemma optional_source [field_sources]:
  "optional (url_field z) v = Some x \<Longrightarrow> v = x" "optional (min_field n) v = Some x \<Longrightarrow> v = x"
  "optional (hex_field n) v = Some x \<Longrightarrow> v = x"
  by (auto simp: optional_def split: option.splits dest: string_field_source)

lemma with_default_source [field_sources]: "with_default p d v = Some n \<Longrightarrow> v = None \<longrightarrow> n = d"
  by (auto simp: with_default_def)

lemma hex_string_length: "hex_string n s \<Longrightarrow> length s = n + 2"
  by (simp add: hex_string_def)

end
