(* ===== verification/Indexer_Config.thy ===== *)
theory Indexer_Config
  imports Zod_Env
begin

text \<open>
  \<^verbatim>\<open>src/indexer/src/config.js\<close>: the schema of the environment and \<^verbatim>\<open>loadConfig\<close>. The two exits of
  the process are the two failures.
\<close>

record indexer_env =
  RPC_URL :: string
  CHAIN_ID :: int
  DATABASE_URL :: string
  CLAIM_REGISTRY_ADDRESS :: string
  INSURANCE_POLICY_ADDRESS :: string
  POLL_INTERVAL_MS :: int
  BLOCK_RANGE_CHUNK_SIZE :: int
  BACKEND_URL :: "string option"
  BACKEND_WEBHOOK_API_KEY :: "string option"
  CLAIM_REGISTRY_DEPLOY_BLOCK :: int
  INSURANCE_POLICY_DEPLOY_BLOCK :: int
  REORG_SAFETY_BLOCKS :: int

definition envSchema :: "zod \<Rightarrow> environment \<Rightarrow> indexer_env option" where
  "envSchema z env = do {
     rpc \<leftarrow> url_field z (env ''RPC_URL'');
     chain \<leftarrow> positive_int z (env ''CHAIN_ID'');
     dbu \<leftarrow> min_field 1 (env ''DATABASE_URL'');
     reg \<leftarrow> hex_field 40 (env ''CLAIM_REGISTRY_ADDRESS'');
     pol \<leftarrow> hex_field 40 (env ''INSURANCE_POLICY_ADDRESS'');
     poll \<leftarrow> with_default (positive_int z) 3000 (env ''POLL_INTERVAL_MS'');
     chunk \<leftarrow> with_default (positive_int z) 2000 (env ''BLOCK_RANGE_CHUNK_SIZE'');
     back \<leftarrow> optional (url_field z) (env ''BACKEND_URL'');
     key \<leftarrow> optional (min_field 16) (env ''BACKEND_WEBHOOK_API_KEY'');
     regDeploy \<leftarrow> with_default (nonnegative_int z) 0 (env ''CLAIM_REGISTRY_DEPLOY_BLOCK'');
     polDeploy \<leftarrow> with_default (nonnegative_int z) 0 (env ''INSURANCE_POLICY_DEPLOY_BLOCK'');
     reorg \<leftarrow> with_default (nonnegative_int z) 2 (env ''REORG_SAFETY_BLOCKS'');
     Some \<lparr>RPC_URL = rpc, CHAIN_ID = chain, DATABASE_URL = dbu, CLAIM_REGISTRY_ADDRESS = reg,
       INSURANCE_POLICY_ADDRESS = pol, POLL_INTERVAL_MS = poll, BLOCK_RANGE_CHUNK_SIZE = chunk,
       BACKEND_URL = back, BACKEND_WEBHOOK_API_KEY = key, CLAIM_REGISTRY_DEPLOY_BLOCK = regDeploy,
       INSURANCE_POLICY_DEPLOY_BLOCK = polDeploy, REORG_SAFETY_BLOCKS = reorg\<rparr> }"

record indexer_config =
  rpcUrl :: string
  chainId :: int
  databaseUrl :: string
  claimRegistryAddress :: string
  insurancePolicyAddress :: string
  pollIntervalMs :: int
  blockRangeChunkSize :: int
  backendUrl :: "string option"
  backendWebhookApiKey :: "string option"
  claimRegistryDeployBlock :: int
  insurancePolicyDeployBlock :: int
  reorgSafetyBlocks :: int

datatype indexer_exit = InvalidConfiguration | WebhookKeyMissing

definition indexer_loadConfig :: "zod \<Rightarrow> environment \<Rightarrow> indexer_exit + indexer_config" where
  "indexer_loadConfig z process_env = (case envSchema z process_env of
       None \<Rightarrow> Inl InvalidConfiguration
     | Some env \<Rightarrow>
         if BACKEND_URL env \<noteq> None \<and> BACKEND_WEBHOOK_API_KEY env = None then Inl WebhookKeyMissing
         else Inr \<lparr>rpcUrl = RPC_URL env, chainId = CHAIN_ID env, databaseUrl = DATABASE_URL env,
           claimRegistryAddress = CLAIM_REGISTRY_ADDRESS env,
           insurancePolicyAddress = INSURANCE_POLICY_ADDRESS env,
           pollIntervalMs = POLL_INTERVAL_MS env,
           blockRangeChunkSize = BLOCK_RANGE_CHUNK_SIZE env,
           backendUrl = BACKEND_URL env, backendWebhookApiKey = BACKEND_WEBHOOK_API_KEY env,
           claimRegistryDeployBlock = CLAIM_REGISTRY_DEPLOY_BLOCK env,
           insurancePolicyDeployBlock = INSURANCE_POLICY_DEPLOY_BLOCK env,
           reorgSafetyBlocks = REORG_SAFETY_BLOCKS env\<rparr>)"

text \<open>What every later component may rely on.\<close>

definition config_ok :: "indexer_config \<Rightarrow> bool" where
  "config_ok c \<longleftrightarrow> 0 < chainId c \<and> 0 < pollIntervalMs c \<and> 0 < blockRangeChunkSize c \<and>
     0 \<le> claimRegistryDeployBlock c \<and> 0 \<le> insurancePolicyDeployBlock c \<and>
     0 \<le> reorgSafetyBlocks c \<and>
     hex_string 40 (claimRegistryAddress c) \<and> hex_string 40 (insurancePolicyAddress c) \<and>
     (backendUrl c \<noteq> None \<longrightarrow> (\<exists>k. backendWebhookApiKey c = Some k \<and> 16 \<le> length k))"

lemma indexer_config_sound:
  assumes "indexer_loadConfig z env = Inr c"
  shows "config_ok c"
  using assms
  by (auto simp: indexer_loadConfig_def envSchema_def config_ok_def bind_eq_Some_conv
      split: option.splits if_splits intro: field_intros)

lemma envSchema_fields:
  assumes "envSchema z env = Some e"
  shows "url_field z (env ''RPC_URL'') = Some (RPC_URL e)"
    and "min_field 1 (env ''DATABASE_URL'') = Some (DATABASE_URL e)"
    and "hex_field 40 (env ''CLAIM_REGISTRY_ADDRESS'') = Some (CLAIM_REGISTRY_ADDRESS e)"
    and "hex_field 40 (env ''INSURANCE_POLICY_ADDRESS'') = Some (INSURANCE_POLICY_ADDRESS e)"
    and "with_default (positive_int z) 2000 (env ''BLOCK_RANGE_CHUNK_SIZE'') = Some (BLOCK_RANGE_CHUNK_SIZE e)"
    and "optional (url_field z) (env ''BACKEND_URL'') = Some (BACKEND_URL e)"
    and "optional (min_field 16) (env ''BACKEND_WEBHOOK_API_KEY'') = Some (BACKEND_WEBHOOK_API_KEY e)"
    and "with_default (nonnegative_int z) 2 (env ''REORG_SAFETY_BLOCKS'') = Some (REORG_SAFETY_BLOCKS e)"
  using assms by (auto simp: envSchema_def bind_eq_Some_conv)

lemma indexer_config_source:
  assumes "indexer_loadConfig z env = Inr c"
  shows "env ''RPC_URL'' = Some (rpcUrl c) \<and> env ''DATABASE_URL'' = Some (databaseUrl c) \<and>
    env ''CLAIM_REGISTRY_ADDRESS'' = Some (claimRegistryAddress c) \<and>
    env ''INSURANCE_POLICY_ADDRESS'' = Some (insurancePolicyAddress c) \<and>
    env ''BACKEND_URL'' = backendUrl c \<and> env ''BACKEND_WEBHOOK_API_KEY'' = backendWebhookApiKey c \<and>
    (env ''BLOCK_RANGE_CHUNK_SIZE'' = None \<longrightarrow> blockRangeChunkSize c = 2000) \<and>
    (env ''REORG_SAFETY_BLOCKS'' = None \<longrightarrow> reorgSafetyBlocks c = 2)"
proof -
  from assms obtain e where e: "envSchema z env = Some e"
    and c: "rpcUrl c = RPC_URL e" "databaseUrl c = DATABASE_URL e"
      "claimRegistryAddress c = CLAIM_REGISTRY_ADDRESS e"
      "insurancePolicyAddress c = INSURANCE_POLICY_ADDRESS e"
      "blockRangeChunkSize c = BLOCK_RANGE_CHUNK_SIZE e" "backendUrl c = BACKEND_URL e"
      "backendWebhookApiKey c = BACKEND_WEBHOOK_API_KEY e" "reorgSafetyBlocks c = REORG_SAFETY_BLOCKS e"
    by (auto simp: indexer_loadConfig_def split: option.splits if_splits)
  show ?thesis unfolding c
    by (intro conjI; rule field_sources, rule envSchema_fields [OF e])
qed

end
