(* ===== verification/Indexer_Db.thy ===== *)
theory Indexer_Db
  imports Indexer_Config
begin

text \<open>
  The indexer's tables (\<^verbatim>\<open>src/indexer/sql/schema.sql\<close>), its connection pool
  (\<^verbatim>\<open>src/indexer/src/db.js\<close>) and the checkpoint queries (\<^verbatim>\<open>src/indexer/src/checkpoint.js\<close>).

  PostgreSQL and the driver are parameters: the fate of each statement (it ran, it never ran, it
  ran and the reply was lost), the server's clock and its \<^verbatim>\<open>to_timestamp\<close>. The meaning of the
  statements in the source is written out: a statement is atomic and each is its own transaction.
\<close>

section \<open>Tables\<close>

record event_row =
  ev_name :: string
  ev_contract_address :: string
  ev_tx_hash :: string
  ev_log_index :: int
  ev_block_number :: int
  ev_data :: js_value
  ev_processed_at :: int

record claim_row =
  cl_policy_id :: int
  cl_claimant_address :: string
  cl_merkle_root :: string
  cl_amount :: int
  cl_status :: string
  cl_submitted_tx_hash :: string
  cl_submitted_block :: int
  cl_last_status_tx_hash :: "string option"
  cl_payout_tx_hash :: "string option"
  cl_updated_at :: int

record policy_row =
  po_holder_address :: string
  po_coverage_amount :: int
  po_valid_from :: int
  po_valid_until :: int
  po_revoked :: bool
  po_registered_tx_hash :: string
  po_updated_at :: int

record db =
  indexer_checkpoints :: "string \<rightharpoonup> int"
  onchain_events :: "event_row list"
  onchain_claims :: "int \<rightharpoonup> claim_row"
  onchain_policies :: "int \<rightharpoonup> policy_row"

definition empty_db :: db where
  "empty_db = \<lparr>indexer_checkpoints = Map.empty, onchain_events = [], onchain_claims = Map.empty,
     onchain_policies = Map.empty\<rparr>"

text \<open>The key of the UNIQUE constraint on \<^verbatim>\<open>onchain_events\<close>.\<close>

definition event_key :: "event_row \<Rightarrow> string \<times> int" where
  "event_key r = (ev_tx_hash r, ev_log_index r)"

definition seen :: "db \<Rightarrow> string \<times> int \<Rightarrow> bool" where
  "seen d k \<longleftrightarrow> k \<in> set (map event_key (onchain_events d))"

section \<open>The process and its environment\<close>

datatype query_fate = Ran | NeverRan | ReplyLost

datatype fetch_result = FetchRejects string | Response int "string option"

datatype console_line = ConsoleWarn string | ConsoleError string | ConsoleLog string

record webhook_post =
  post_url :: string
  post_key :: "string option"
  post_body :: js_value

record rpc_log =
  transactionHash :: string
  log_index :: int
  blockNumber :: int
  topics :: "string list"
  log_data :: string

record world =
  database :: db
  pool_open :: bool
  posts :: "webhook_post list"
  warnedNoBackend :: bool
  console :: "console_line list"
  queries :: nat
  fetches :: nat
  rpcs :: nat
  log_requests :: "(string \<times> int \<times> int) list"

record services =
  config :: indexer_config
  query_fates :: "nat \<Rightarrow> query_fate"
  clock :: "nat \<Rightarrow> int"
  to_timestamp :: "string \<Rightarrow> int option"
  fetch :: "nat \<Rightarrow> fetch_result"
  getBlockNumber :: "nat \<Rightarrow> js_error + int"
  getLogs :: "nat \<Rightarrow> string \<Rightarrow> int \<Rightarrow> int \<Rightarrow> js_error + rpc_log list"

definition put_line :: "console_line \<Rightarrow> (world, unit) jsm" where
  "put_line l = modify_m (\<lambda>w. w\<lparr>console := console w @ [l]\<rparr>)"

section \<open>The pool\<close>

definition getPool :: "(world, unit) jsm" where
  "getPool = modify_m (\<lambda>w. if \<not> pool_open w then w\<lparr>pool_open := True\<rparr> else w)"

definition closePool :: "(world, unit) jsm" where
  "closePool = modify_m (\<lambda>w. if pool_open w then w\<lparr>pool_open := False\<rparr> else w)"

type_synonym 'a statement = "int \<Rightarrow> db \<Rightarrow> js_error + 'a \<times> db"

text \<open>
  One \<^verbatim>\<open>pool.query\<close>. The driver serialises object parameters with \<^verbatim>\<open>JSON.stringify\<close> before it
  sends anything, so an object with a BigInt in it never reaches the server.
\<close>

definition pool_query :: "services \<Rightarrow> js_value list \<Rightarrow> 'a statement \<Rightarrow> (world, 'a) jsm" where
  "pool_query S objs stmt = (\<lambda>w.
     let n = queries w; w1 = w\<lparr>queries := Suc n\<rparr> in
     if \<not> list_all json_ok objs
       then (Inl (JsTypeError ''Do not know how to serialize a BigInt''), w1)
     else case query_fates S n of
         NeverRan \<Rightarrow> (Inl (Rejected ''query''), w1)
       | fate \<Rightarrow> (case stmt (clock S n) (database w1) of
             Inl e \<Rightarrow> (Inl e, w1)
           | Inr (a, d) \<Rightarrow> (if fate = ReplyLost then Inl (Rejected ''query'') else Inr a,
                          w1\<lparr>database := d\<rparr>)))"

text \<open>Text bound to a BIGINT or INTEGER column.\<close>

definition int8 :: "int \<Rightarrow> bool" where
  "int8 n \<longleftrightarrow> - (2 ^ 63) \<le> n \<and> n < 2 ^ 63"

definition int4 :: "int \<Rightarrow> bool" where
  "int4 n \<longleftrightarrow> - (2 ^ 31) \<le> n \<and> n < 2 ^ 31"

definition bigint_param :: "string \<Rightarrow> js_error + int" where
  "bigint_param s = (case parse_dec s of
       None \<Rightarrow> Inl (Rejected ''invalid input syntax for type bigint'')
     | Some n \<Rightarrow> if int8 n then Inr n else Inl (Rejected ''out of range for type bigint''))"

definition numeric_param :: "string \<Rightarrow> js_error + int" where
  "numeric_param s = (case parse_dec s of
       None \<Rightarrow> Inl (Rejected ''invalid input syntax for type numeric'')
     | Some n \<Rightarrow> Inr n)"

definition timestamp_param :: "services \<Rightarrow> string \<Rightarrow> js_error + int" where
  "timestamp_param S s = (case to_timestamp S s of
       None \<Rightarrow> Inl (Rejected ''timestamp out of range'') | Some t \<Rightarrow> Inr t)"

lemma bigint_param_dec [simp]:
  "bigint_param (dec n) = (if int8 n then Inr n else Inl (Rejected ''out of range for type bigint''))"
  by (simp add: bigint_param_def)

lemma numeric_param_dec [simp]: "numeric_param (dec n) = Inr n"
  by (simp add: numeric_param_def)

text \<open>
  \<^verbatim>\<open>ensureSchema\<close> runs the file of \<^verbatim>\<open>CREATE TABLE IF NOT EXISTS\<close> statements; the tables of the
  model always exist, so on them it changes nothing.
\<close>

definition create_tables :: "unit statement" where
  "create_tables now d = Inr ((), d)"

definition ensureSchema :: "services \<Rightarrow> (world, unit) jsm" where
  "ensureSchema S = bind_m getPool (\<lambda>_. pool_query S [] create_tables)"

section \<open>Checkpoints\<close>

definition select_checkpoint :: "string \<Rightarrow> int option statement" where
  "select_checkpoint a now d = Inr (indexer_checkpoints d a, d)"

definition upsert_checkpoint :: "string \<Rightarrow> int \<Rightarrow> unit statement" where
  "upsert_checkpoint a n now d =
     (if int8 n then Inr ((), d\<lparr>indexer_checkpoints := (indexer_checkpoints d)(a \<mapsto> n)\<rparr>)
      else Inl (Rejected ''out of range for type bigint''))"

definition getLastProcessedBlock :: "services \<Rightarrow> string \<Rightarrow> (world, int option) jsm" where
  "getLastProcessedBlock S contractAddress =
     bind_m getPool (\<lambda>_. pool_query S [] (select_checkpoint (toLowerCase contractAddress)))"

definition setLastProcessedBlock :: "services \<Rightarrow> string \<Rightarrow> int \<Rightarrow> (world, unit) jsm" where
  "setLastProcessedBlock S contractAddress n =
     bind_m getPool (\<lambda>_. pool_query S [] (upsert_checkpoint (toLowerCase contractAddress) n))"

section \<open>What a query may do\<close>

lemma pool_query_cases:
  assumes "pool_query S objs stmt w = (r, w')"
  obtains (unchanged) e where "r = Inl e" "database w' = database w"
  | (ran) a where "list_all json_ok objs"
      "stmt (clock S (queries w)) (database w) = Inr (a, database w')"
      "r = Inr a \<or> r = Inl (Rejected ''query'')"
  using assms
  by (auto simp: pool_query_def Let_def split: if_splits query_fate.splits sum.splits)

lemma pool_query_frame:
  assumes "pool_query S objs stmt w = (r, w')"
  shows "w' = w\<lparr>queries := Suc (queries w), database := database w'\<rparr>"
  using assms
  by (auto simp: pool_query_def Let_def split: if_splits query_fate.splits sum.splits)

lemma pool_query_fields:
  assumes "pool_query S objs stmt w = (r, w')"
  shows "posts w' = posts w" "console w' = console w" "fetches w' = fetches w" "rpcs w' = rpcs w"
    "log_requests w' = log_requests w" "warnedNoBackend w' = warnedNoBackend w"
    "pool_open w' = pool_open w" "queries w' = Suc (queries w)"
  by (subst pool_query_frame [OF assms]; simp)+

lemma pool_query_Inr:
  assumes "pool_query S objs stmt w = (Inr a, w')"
  shows "stmt (clock S (queries w)) (database w) = Inr (a, database w')"
    and "list_all json_ok objs"
  using assms by (cases rule: pool_query_cases; auto)+

lemma pool_query_ran:
  assumes "query_fates S (queries w) = Ran" "list_all json_ok objs"
    "stmt (clock S (queries w)) (database w) = Inr (a, d)"
  shows "pool_query S objs stmt w = (Inr a, w\<lparr>queries := Suc (queries w), database := d\<rparr>)"
  using assms by (simp add: pool_query_def Let_def)

lemma pool_query_unserialisable:
  "\<not> list_all json_ok objs \<Longrightarrow> pool_query S objs stmt w =
     (Inl (JsTypeError ''Do not know how to serialize a BigInt''), w\<lparr>queries := Suc (queries w)\<rparr>)"
  by (simp add: pool_query_def Let_def)

lemma pool_query_never:
  "query_fates S (queries w) = NeverRan \<Longrightarrow> list_all json_ok objs \<Longrightarrow>
     pool_query S objs stmt w = (Inl (Rejected ''query''), w\<lparr>queries := Suc (queries w)\<rparr>)"
  by (simp add: pool_query_def Let_def)

lemma getPool_app: "getPool w = (Inr (), w\<lparr>pool_open := True\<rparr>)"
  by (cases w) (simp add: getPool_def modify_m_app)

lemma getPool_then: "bind_m getPool (\<lambda>_. m) w = m (w\<lparr>pool_open := True\<rparr>)"
  by (simp add: bind_m_app getPool_app)

text \<open>
  A preorder of databases gives a preorder of processes: only queries change the database, so an
  effect stays within it as soon as its statements do.
\<close>

locale db_order =
  fixes D :: "db \<Rightarrow> db \<Rightarrow> bool"
  assumes D_refl: "D d d"
    and D_trans: "D d e \<Longrightarrow> D e f \<Longrightarrow> D d f"
begin

lemma stays_query:
  assumes "\<And>now d a e. stmt now d = Inr (a, e) \<Longrightarrow> D d e"
  shows "stays (\<lambda>w w'. D (database w) (database w')) (pool_query S objs stmt)"
proof (rule staysI)
  fix w
  obtain r w' where q: "pool_query S objs stmt w = (r, w')" by fastforce
  from q have "D (database w) (database w')"
    by (cases rule: pool_query_cases) (auto simp: D_refl dest: assms)
  with q show "D (database w) (database (snd (pool_query S objs stmt w)))" by simp
qed

lemma stays_getPool: "stays (\<lambda>w w'. D (database w) (database w')) getPool"
  by (simp add: stays_def getPool_app D_refl)

lemma stays_put_line: "stays (\<lambda>w w'. D (database w) (database w')) (put_line l)"
  by (simp add: stays_def put_line_def modify_m_app D_refl)

end

sublocale db_order \<subseteq> world: effect_order "\<lambda>w w'. D (database w) (database w')"
  by unfold_locales (auto intro: D_refl D_trans)

interpretation kept_db: db_order "\<lambda>d d'. P d \<longrightarrow> P d'" for P
  by unfold_locales auto

interpretation same_db: db_order "\<lambda>d d'. f d = f d'" for f
  by unfold_locales auto

text \<open>
  The checkpoint table as an interface: what the scanner reads back is what it last wrote for that
  contract, in whatever case the address is spelled, and no other contract's row moves.
\<close>

locale checkpoint_table =
  fixes rd :: "'d \<Rightarrow> string \<Rightarrow> int option"
    and wr :: "string \<Rightarrow> int \<Rightarrow> 'd \<Rightarrow> 'd"
  assumes rd_wr: "toLowerCase a = toLowerCase b \<Longrightarrow> rd (wr a n d) b = Some n"
    and rd_other: "toLowerCase a \<noteq> toLowerCase b \<Longrightarrow> rd (wr a n d) b = rd d b"
begin

lemma last_write_wins: "rd (wr a n (wr a m d)) a = Some n"
  by (simp add: rd_wr)

end

definition checkpoint_of :: "db \<Rightarrow> string \<Rightarrow> int option" where
  "checkpoint_of d a = indexer_checkpoints d (toLowerCase a)"

definition with_checkpoint :: "string \<Rightarrow> int \<Rightarrow> db \<Rightarrow> db" where
  "with_checkpoint a n d =
     d\<lparr>indexer_checkpoints := (indexer_checkpoints d)(toLowerCase a \<mapsto> n)\<rparr>"

interpretation checkpoints: checkpoint_table checkpoint_of with_checkpoint
  by unfold_locales (auto simp: checkpoint_of_def with_checkpoint_def)

lemma getLastProcessedBlock_Inr:
  assumes "getLastProcessedBlock S a w = (Inr c, w')"
  shows "c = checkpoint_of (database w) a" and "database w' = database w"
  using assms
  by (auto simp: getLastProcessedBlock_def getPool_then select_checkpoint_def checkpoint_of_def
      dest!: pool_query_Inr(1))

lemma getLastProcessedBlock_database:
  "getLastProcessedBlock S a w = (r, w') \<Longrightarrow> database w' = database w"
  by (auto simp: getLastProcessedBlock_def getPool_then select_checkpoint_def
      elim!: pool_query_cases)

lemma setLastProcessedBlock_Inr:
  assumes "setLastProcessedBlock S a n w = (Inr u, w')"
  shows "database w' = with_checkpoint a n (database w)"
  using assms
  by (auto simp: setLastProcessedBlock_def getPool_then upsert_checkpoint_def with_checkpoint_def
      split: if_splits dest!: pool_query_Inr(1))

lemma setLastProcessedBlock_database:
  assumes "setLastProcessedBlock S a n w = (r, w')"
  shows "database w' = database w \<or> database w' = with_checkpoint a n (database w)"
  using assms
  by (auto simp: setLastProcessedBlock_def getPool_then upsert_checkpoint_def with_checkpoint_def
      split: if_splits elim!: pool_query_cases)

end
