(* ===== verification/Indexer_Events.thy ===== *)
theory Indexer_Events
  imports Indexer_Db
begin

text \<open>
  \<^verbatim>\<open>src/indexer/src/backendClient.js\<close>, \<^verbatim>\<open>src/indexer/src/rpcClient.js\<close> (the status names and the
  event ABI) and \<^verbatim>\<open>src/indexer/src/eventHandlers.js\<close>: the webhook and the five handlers.
\<close>

section \<open>Events of the two contracts, as ethers decodes them\<close>

text \<open>
  Integers decode to BigInts. Whether the \<^verbatim>\<open>uint8\<close> status is a Number or a BigInt is left open:
  it is the library's choice, and the handler is sensitive to it.
\<close>

datatype status_value = StatusNumber int | StatusBigInt int

datatype chain_event =
    ClaimSubmitted (claimId: int) (policyId: int) (claimant: string) (merkleRoot: string)
      (amount: int) (timestamp: int)
  | ClaimStatusChanged (claimId: int) (status: status_value)
  | ClaimPayout (claimId: int) (payout_to: string) (amount: int) (token: string)
  | PolicyRegistered (policyId: int) (holder: string) (validFrom: int) (validUntil: int)
      (coverageAmount: int) (metadataHash: string)
  | PolicyRevoked (policyId: int)
  | OtherEvent (event_name: string)

definition CLAIM_STATUS_NAMES :: "string list" where
  "CLAIM_STATUS_NAMES = [''submitted'', ''under_review'', ''approved'', ''paid'', ''rejected'']"

fun status_int :: "status_value \<Rightarrow> int" where
  "status_int (StatusNumber n) = n"
| "status_int (StatusBigInt n) = n"

fun status_json :: "status_value \<Rightarrow> js_value" where
  "status_json (StatusNumber n) = JNumber (js_int n)"
| "status_json (StatusBigInt n) = JBigInt n"

definition status_name :: "status_value \<Rightarrow> string" where
  "status_name v = (let n = status_int v in
     if 0 \<le> n \<and> n < int (length CLAIM_STATUS_NAMES) then CLAIM_STATUS_NAMES ! nat n
     else ''unknown('' @ dec n @ '')'')"

section \<open>The webhook\<close>

definition response_ok :: "int \<Rightarrow> bool" where
  "response_ok c \<longleftrightarrow> 200 \<le> c \<and> c \<le> 299"

definition reportClaimEvent :: "services \<Rightarrow> js_value \<Rightarrow> (world, unit) jsm" where
  "reportClaimEvent S event = (\<lambda>w. case backendUrl (config S) of
       None \<Rightarrow>
         if \<not> warnedNoBackend w
         then (Inr (), w\<lparr>console := console w @ [ConsoleWarn
                 ''[backendClient] BACKEND_URL not set - skipping backend notification.''],
               warnedNoBackend := True\<rparr>)
         else (Inr (), w)
     | Some url \<Rightarrow>
         let w1 = w\<lparr>posts := posts w @ [\<lparr>post_url = url @ ''/internal/onchain-events'',
                      post_key = backendWebhookApiKey (config S), post_body = event\<rparr>],
                    fetches := Suc (fetches w)\<rparr>
         in case fetch S (fetches w) of
              FetchRejects m \<Rightarrow> (Inl (Rejected m), w1)
            | Response c body \<Rightarrow>
                if response_ok c then (Inr (), w1)
                else (Inr (), w1\<lparr>console := console w1 @ [ConsoleError
                       (''[backendClient] webhook failed ('' @ dec c @ ''): '' @
                        (case body of None \<Rightarrow> [] | Some t \<Rightarrow> t))]\<rparr>))"

definition claim_report :: "string \<Rightarrow> string \<Rightarrow> string \<Rightarrow> string \<Rightarrow> string \<Rightarrow> js_value" where
  "claim_report eventName onchainClaimId mroot txHash st = JObject
     [(''eventName'', JString eventName), (''onchainClaimId'', JString onchainClaimId),
      (''merkleRoot'', JString mroot), (''txHash'', JString txHash), (''status'', JString st)]"

section \<open>Statements of the handlers\<close>

text \<open>INSERT INTO onchain_events .. ON CONFLICT (tx_hash, log_index) DO NOTHING: the row count.\<close>

definition insert_event ::
  "string \<Rightarrow> string \<Rightarrow> string \<Rightarrow> int \<Rightarrow> int \<Rightarrow> js_value \<Rightarrow> nat statement" where
  "insert_event name addr tx ix blk data now d =
     (if \<not> int4 ix then Inl (Rejected ''out of range for type integer'')
      else if \<not> int8 blk then Inl (Rejected ''out of range for type bigint'')
      else if seen d (tx, ix) then Inr (0, d)
      else Inr (1, d\<lparr>onchain_events := onchain_events d @
             [\<lparr>ev_name = name, ev_contract_address = addr, ev_tx_hash = tx, ev_log_index = ix,
               ev_block_number = blk, ev_data = data, ev_processed_at = now\<rparr>]\<rparr>))"

text \<open>INSERT INTO onchain_claims .. ON CONFLICT (onchain_claim_id) DO NOTHING.\<close>

definition insert_claim ::
  "string \<Rightarrow> string \<Rightarrow> string \<Rightarrow> string \<Rightarrow> string \<Rightarrow> string \<Rightarrow> int \<Rightarrow> unit statement" where
  "insert_claim cid pid addr mroot amt tx blk now d =
     bind_r (bigint_param cid) (\<lambda>c. bind_r (bigint_param pid) (\<lambda>p. bind_r (numeric_param amt) (\<lambda>a.
       if \<not> int8 blk then Inl (Rejected ''out of range for type bigint'')
       else Inr ((), if onchain_claims d c \<noteq> None then d
         else d\<lparr>onchain_claims := (onchain_claims d)(c \<mapsto>
                \<lparr>cl_policy_id = p, cl_claimant_address = addr, cl_merkle_root = mroot,
                 cl_amount = a, cl_status = ''submitted'', cl_submitted_tx_hash = tx,
                 cl_submitted_block = blk, cl_last_status_tx_hash = None,
                 cl_payout_tx_hash = None, cl_updated_at = now\<rparr>)\<rparr>))))"

text \<open>UPDATE onchain_claims SET .. WHERE onchain_claim_id = $1 RETURNING merkle_root.\<close>

definition update_claim :: "string \<Rightarrow> (int \<Rightarrow> claim_row \<Rightarrow> claim_row) \<Rightarrow> string list statement" where
  "update_claim cid f now d = bind_r (bigint_param cid) (\<lambda>c. case onchain_claims d c of
       None \<Rightarrow> Inr ([], d)
     | Some r \<Rightarrow> Inr ([cl_merkle_root (f now r)],
                    d\<lparr>onchain_claims := (onchain_claims d)(c \<mapsto> f now r)\<rparr>))"

definition set_status :: "string \<Rightarrow> string \<Rightarrow> int \<Rightarrow> claim_row \<Rightarrow> claim_row" where
  "set_status st tx now r =
     r\<lparr>cl_status := st, cl_last_status_tx_hash := Some tx, cl_updated_at := now\<rparr>"

definition set_paid :: "string \<Rightarrow> int \<Rightarrow> claim_row \<Rightarrow> claim_row" where
  "set_paid tx now r = r\<lparr>cl_status := ''paid'', cl_payout_tx_hash := Some tx, cl_updated_at := now\<rparr>"

definition insert_policy ::
  "services \<Rightarrow> string \<Rightarrow> string \<Rightarrow> string \<Rightarrow> string \<Rightarrow> string \<Rightarrow> string \<Rightarrow> unit statement" where
  "insert_policy S pid addr cov vfrom vuntil tx now d =
     bind_r (bigint_param pid) (\<lambda>p. bind_r (numeric_param cov) (\<lambda>c.
     bind_r (timestamp_param S vfrom) (\<lambda>f. bind_r (timestamp_param S vuntil) (\<lambda>u.
       Inr ((), if onchain_policies d p \<noteq> None then d
         else d\<lparr>onchain_policies := (onchain_policies d)(p \<mapsto>
                \<lparr>po_holder_address = addr, po_coverage_amount = c, po_valid_from = f,
                 po_valid_until = u, po_revoked = False, po_registered_tx_hash = tx,
                 po_updated_at = now\<rparr>)\<rparr>)))))"

definition revoke_policy :: "string \<Rightarrow> unit statement" where
  "revoke_policy pid now d = bind_r (bigint_param pid) (\<lambda>p. case onchain_policies d p of
       None \<Rightarrow> Inr ((), d)
     | Some r \<Rightarrow> Inr ((), d\<lparr>onchain_policies := (onchain_policies d)(p \<mapsto>
                    r\<lparr>po_revoked := True, po_updated_at := now\<rparr>)\<rparr>))"

section \<open>The handlers\<close>

definition persistRawEventOnce ::
  "services \<Rightarrow> rpc_log \<Rightarrow> string \<Rightarrow> string \<Rightarrow> js_value \<Rightarrow> (world, bool) jsm" where
  "persistRawEventOnce S lg eventName contractAddress data =
     bind_m getPool (\<lambda>_.
     bind_m (pool_query S [data] (insert_event eventName (toLowerCase contractAddress)
              (transactionHash lg) (log_index lg) (blockNumber lg) data))
       (\<lambda>rowCount. ret_m (rowCount > 0)))"

definition handleClaimSubmitted ::
  "services \<Rightarrow> rpc_log \<Rightarrow> int \<Rightarrow> int \<Rightarrow> string \<Rightarrow> string \<Rightarrow> int \<Rightarrow> int \<Rightarrow> string \<Rightarrow> (world, unit) jsm" where
  "handleClaimSubmitted S lg cid pid who mroot amt ts contractAddress =
     (let data = JObject [(''claimId'', JString (dec cid)), (''policyId'', JString (dec pid)),
        (''claimant'', JString who), (''merkleRoot'', JString mroot),
        (''amount'', JString (dec amt)), (''timestamp'', JString (dec ts))] in
      bind_m (persistRawEventOnce S lg ''ClaimSubmitted'' contractAddress data) (\<lambda>isNew.
      if \<not> isNew then ret_m () else
      bind_m getPool (\<lambda>_.
      bind_m (pool_query S [] (insert_claim (dec cid) (dec pid) (toLowerCase who) mroot (dec amt)
               (transactionHash lg) (blockNumber lg))) (\<lambda>_.
      reportClaimEvent S (claim_report ''ClaimSubmitted'' (dec cid) mroot (transactionHash lg)
        ''submitted'')))))"

definition handleClaimStatusChanged ::
  "services \<Rightarrow> rpc_log \<Rightarrow> int \<Rightarrow> status_value \<Rightarrow> string \<Rightarrow> (world, unit) jsm" where
  "handleClaimStatusChanged S lg cid st contractAddress =
     (let statusName = status_name st;
          data = JObject [(''claimId'', JString (dec cid)), (''status'', status_json st),
            (''statusName'', JString statusName)] in
      bind_m (persistRawEventOnce S lg ''ClaimStatusChanged'' contractAddress data) (\<lambda>isNew.
      if \<not> isNew then ret_m () else
      bind_m getPool (\<lambda>_.
      bind_m (pool_query S [] (update_claim (dec cid) (set_status statusName (transactionHash lg))))
      (\<lambda>rows. case rows of
          [] \<Rightarrow> put_line (ConsoleWarn
                 (''[eventHandlers] ClaimStatusChanged for unknown claimId '' @ dec cid))
        | mroot # _ \<Rightarrow> reportClaimEvent S (claim_report ''ClaimStatusChanged'' (dec cid) mroot
                       (transactionHash lg) statusName)))))"

definition handleClaimPayout ::
  "services \<Rightarrow> rpc_log \<Rightarrow> int \<Rightarrow> string \<Rightarrow> int \<Rightarrow> string \<Rightarrow> string \<Rightarrow> (world, unit) jsm" where
  "handleClaimPayout S lg cid dest amt tok contractAddress =
     (let data = JObject [(''claimId'', JString (dec cid)), (''to'', JString dest),
            (''amount'', JString (dec amt)), (''token'', JString tok)] in
      bind_m (persistRawEventOnce S lg ''ClaimPayout'' contractAddress data) (\<lambda>isNew.
      if \<not> isNew then ret_m () else
      bind_m getPool (\<lambda>_.
      bind_m (pool_query S [] (update_claim (dec cid) (set_paid (transactionHash lg))))
      (\<lambda>rows. case rows of
          [] \<Rightarrow> ret_m ()
        | mroot # _ \<Rightarrow> reportClaimEvent S (claim_report ''ClaimPayout'' (dec cid) mroot
                       (transactionHash lg) ''paid'')))))"

definition handlePolicyRegistered ::
  "services \<Rightarrow> rpc_log \<Rightarrow> int \<Rightarrow> string \<Rightarrow> int \<Rightarrow> int \<Rightarrow> int \<Rightarrow> string \<Rightarrow> (world, unit) jsm" where
  "handlePolicyRegistered S lg pid who vfrom vuntil cov contractAddress =
     (let data = JObject [(''policyId'', JString (dec pid)), (''holder'', JString who),
            (''validFrom'', JString (dec vfrom)), (''validUntil'', JString (dec vuntil)),
            (''coverageAmount'', JString (dec cov))] in
      bind_m (persistRawEventOnce S lg ''PolicyRegistered'' contractAddress data) (\<lambda>isNew.
      if \<not> isNew then ret_m () else
      bind_m getPool (\<lambda>_.
      pool_query S [] (insert_policy S (dec pid) (toLowerCase who) (dec cov) (dec vfrom) (dec vuntil)
        (transactionHash lg)))))"

definition handlePolicyRevoked :: "services \<Rightarrow> rpc_log \<Rightarrow> int \<Rightarrow> string \<Rightarrow> (world, unit) jsm" where
  "handlePolicyRevoked S lg pid contractAddress =
     (let data = JObject [(''policyId'', JString (dec pid))] in
      bind_m (persistRawEventOnce S lg ''PolicyRevoked'' contractAddress data) (\<lambda>isNew.
      if \<not> isNew then ret_m () else
      bind_m getPool (\<lambda>_. pool_query S [] (revoke_policy (dec pid)))))"

section \<open>What the raw-event guard does\<close>

definition log_key :: "rpc_log \<Rightarrow> string \<times> int" where
  "log_key lg = (transactionHash lg, log_index lg)"

lemma reportClaimEvent_database [simp]: "database (snd (reportClaimEvent S ev w)) = database w"
  by (auto simp: reportClaimEvent_def Let_def split: option.split fetch_result.split)

lemma persist_cases:
  assumes "persistRawEventOnce S lg nm a data w = (r, w')"
  obtains (failed) e where "r = Inl e" "database w' = database w"
  | (stored) row where "\<not> seen (database w) (log_key lg)" "event_key row = log_key lg"
      "ev_name row = nm" "ev_tx_hash row = transactionHash lg" "ev_data row = data"
      "database w' = (database w)\<lparr>onchain_events := onchain_events (database w) @ [row]\<rparr>"
      "r = Inr True \<or> (\<exists>e. r = Inl e)" "json_ok data"
      "ev_contract_address row = toLowerCase a" "ev_block_number row = blockNumber lg"
  | (duplicate) "seen (database w) (log_key lg)" "database w' = database w" "r = Inr False"
      "json_ok data"
proof -
  from assms obtain q where
    q: "pool_query S [data] (insert_event nm (toLowerCase a) (transactionHash lg) (log_index lg)
          (blockNumber lg) data) (w\<lparr>pool_open := True\<rparr>) = (q, w')"
    and r: "r = (case q of Inl e \<Rightarrow> Inl e | Inr n \<Rightarrow> Inr (n > 0))"
    by (auto simp: persistRawEventOnce_def getPool_app bind_m_app ret_m_app
        split: prod.splits sum.splits)
  from q show thesis
  proof (cases rule: pool_query_cases)
    case (unchanged e)
    then show thesis using r by (intro failed) auto
  next
    case (ran n)
    let ?row = "\<lparr>ev_name = nm, ev_contract_address = toLowerCase a,
      ev_tx_hash = transactionHash lg, ev_log_index = log_index lg, ev_block_number = blockNumber lg,
      ev_data = data, ev_processed_at = clock S (queries w)\<rparr>"
    show thesis
    proof (cases "seen (database w) (log_key lg)")
      case True
      with ran(2) have "n = 0" "database w' = database w"
        by (auto simp: insert_event_def log_key_def split: if_splits)
      with True r ran(1,3) show thesis by (auto intro: failed duplicate)
    next
      case False
      with ran(2) have new: "n = 1" "database w' =
          (database w)\<lparr>onchain_events := onchain_events (database w) @ [?row]\<rparr>"
        by (auto simp: insert_event_def log_key_def split: if_splits)
      show thesis
        by (rule stored [of ?row]) (use False new r ran(1,3) in \<open>auto simp: event_key_def log_key_def\<close>)
    qed
  qed
qed

lemma persist_first_ran:
  assumes "query_fates S (queries w) = Ran" and "\<not> seen (database w) (log_key lg)"
    and "int4 (log_index lg)" and "int8 (blockNumber lg)" and "json_ok data"
  shows "\<exists>t row. persistRawEventOnce S lg nm a data w = (Inr True, t) \<and>
     queries t = Suc (queries w) \<and> posts t = posts w \<and> event_key row = log_key lg \<and>
     database t = (database w)\<lparr>onchain_events := onchain_events (database w) @ [row]\<rparr>"
proof -
  let ?row = "\<lparr>ev_name = nm, ev_contract_address = toLowerCase a, ev_tx_hash = transactionHash lg,
    ev_log_index = log_index lg, ev_block_number = blockNumber lg, ev_data = data,
    ev_processed_at = clock S (queries w)\<rparr>"
  let ?w = "w\<lparr>pool_open := True\<rparr>"
  let ?d = "(database w)\<lparr>onchain_events := onchain_events (database w) @ [?row]\<rparr>"
  have "pool_query S [data] (insert_event nm (toLowerCase a) (transactionHash lg) (log_index lg)
      (blockNumber lg) data) ?w = (Inr 1, ?w\<lparr>queries := Suc (queries ?w), database := ?d\<rparr>)"
    by (rule pool_query_ran) (use assms in \<open>simp_all add: insert_event_def log_key_def\<close>)
  then show ?thesis
    by (intro exI [of _ "?w\<lparr>queries := Suc (queries ?w), database := ?d\<rparr>"] exI [of _ ?row])
      (simp add: persistRawEventOnce_def getPool_then bind_m_app [of "pool_query _ _ _"] ret_m_app
        event_key_def log_key_def)
qed

text \<open>
  Every handler has the same shape: the guard, then its aftermath. The aftermath is the part that
  a duplicate skips.
\<close>

definition once :: "services \<Rightarrow> rpc_log \<Rightarrow> string \<Rightarrow> string \<Rightarrow> js_value \<Rightarrow> (world, unit) jsm \<Rightarrow>
  (world, unit) jsm" where
  "once S lg nm a data m =
     bind_m (persistRawEventOnce S lg nm a data) (\<lambda>isNew. if \<not> isNew then ret_m () else m)"

fun event_title :: "chain_event \<Rightarrow> string" where
  "event_title (ClaimSubmitted cid pid who mroot amt ts) = ''ClaimSubmitted''"
| "event_title (ClaimStatusChanged cid st) = ''ClaimStatusChanged''"
| "event_title (ClaimPayout cid dest amt tok) = ''ClaimPayout''"
| "event_title (PolicyRegistered pid who vfrom vuntil cov meta) = ''PolicyRegistered''"
| "event_title (PolicyRevoked pid) = ''PolicyRevoked''"
| "event_title (OtherEvent name) = name"

fun event_json :: "chain_event \<Rightarrow> js_value" where
  "event_json (ClaimSubmitted cid pid who mroot amt ts) =
     JObject [(''claimId'', JString (dec cid)), (''policyId'', JString (dec pid)),
       (''claimant'', JString who), (''merkleRoot'', JString mroot),
       (''amount'', JString (dec amt)), (''timestamp'', JString (dec ts))]"
| "event_json (ClaimStatusChanged cid st) =
     JObject [(''claimId'', JString (dec cid)), (''status'', status_json st),
       (''statusName'', JString (status_name st))]"
| "event_json (ClaimPayout cid dest amt tok) =
     JObject [(''claimId'', JString (dec cid)), (''to'', JString dest),
       (''amount'', JString (dec amt)), (''token'', JString tok)]"
| "event_json (PolicyRegistered pid who vfrom vuntil cov meta) =
     JObject [(''policyId'', JString (dec pid)), (''holder'', JString who),
       (''validFrom'', JString (dec vfrom)), (''validUntil'', JString (dec vuntil)),
       (''coverageAmount'', JString (dec cov))]"
| "event_json (PolicyRevoked pid) = JObject [(''policyId'', JString (dec pid))]"
| "event_json (OtherEvent name) = JObject []"

fun aftermath :: "services \<Rightarrow> rpc_log \<Rightarrow> chain_event \<Rightarrow> (world, unit) jsm" where
  "aftermath S lg (ClaimSubmitted cid pid who mroot amt ts) = bind_m getPool (\<lambda>_.
     bind_m (pool_query S [] (insert_claim (dec cid) (dec pid) (toLowerCase who) mroot (dec amt)
               (transactionHash lg) (blockNumber lg))) (\<lambda>_.
     reportClaimEvent S (claim_report ''ClaimSubmitted'' (dec cid) mroot (transactionHash lg)
       ''submitted'')))"
| "aftermath S lg (ClaimStatusChanged cid st) = bind_m getPool (\<lambda>_.
     bind_m (pool_query S [] (update_claim (dec cid) (set_status (status_name st) (transactionHash lg))))
     (\<lambda>rows. case rows of
        [] \<Rightarrow> put_line (ConsoleWarn
               (''[eventHandlers] ClaimStatusChanged for unknown claimId '' @ dec cid))
      | mroot # _ \<Rightarrow> reportClaimEvent S (claim_report ''ClaimStatusChanged'' (dec cid) mroot
                     (transactionHash lg) (status_name st))))"
| "aftermath S lg (ClaimPayout cid dest amt tok) = bind_m getPool (\<lambda>_.
     bind_m (pool_query S [] (update_claim (dec cid) (set_paid (transactionHash lg))))
     (\<lambda>rows. case rows of
        [] \<Rightarrow> ret_m ()
      | mroot # _ \<Rightarrow> reportClaimEvent S (claim_report ''ClaimPayout'' (dec cid) mroot
                     (transactionHash lg) ''paid'')))"
| "aftermath S lg (PolicyRegistered pid who vfrom vuntil cov meta) = bind_m getPool (\<lambda>_.
     pool_query S [] (insert_policy S (dec pid) (toLowerCase who) (dec cov) (dec vfrom) (dec vuntil)
       (transactionHash lg)))"
| "aftermath S lg (PolicyRevoked pid) = bind_m getPool (\<lambda>_. pool_query S [] (revoke_policy (dec pid)))"
| "aftermath S lg (OtherEvent name) = ret_m ()"

lemmas handler_defs = handleClaimSubmitted_def handleClaimStatusChanged_def handleClaimPayout_def
  handlePolicyRegistered_def handlePolicyRevoked_def

lemmas statement_defs = insert_claim_def update_claim_def insert_policy_def revoke_policy_def

context db_order
begin

lemma stays_report: "stays (\<lambda>w w'. D (database w) (database w')) (reportClaimEvent S ev)"
  by (simp add: stays_def D_refl)

lemma stays_aftermath:
  assumes "\<And>cid pid who mroot amt ts now d a e. ev = ClaimSubmitted cid pid who mroot amt ts \<Longrightarrow>
      insert_claim (dec cid) (dec pid) (toLowerCase who) mroot (dec amt) (transactionHash lg)
        (blockNumber lg) now d = Inr (a, e) \<Longrightarrow> D d e"
    and "\<And>cid st now d a e. ev = ClaimStatusChanged cid st \<Longrightarrow>
      update_claim (dec cid) (set_status (status_name st) (transactionHash lg)) now d = Inr (a, e) \<Longrightarrow>
      D d e"
    and "\<And>cid dest amt tok now d a e. ev = ClaimPayout cid dest amt tok \<Longrightarrow>
      update_claim (dec cid) (set_paid (transactionHash lg)) now d = Inr (a, e) \<Longrightarrow> D d e"
    and "\<And>pid who vfrom vuntil cov meta now d a e.
      ev = PolicyRegistered pid who vfrom vuntil cov meta \<Longrightarrow>
      insert_policy S (dec pid) (toLowerCase who) (dec cov) (dec vfrom) (dec vuntil)
        (transactionHash lg) now d = Inr (a, e) \<Longrightarrow> D d e"
    and "\<And>pid now d a e. ev = PolicyRevoked pid \<Longrightarrow>
      revoke_policy (dec pid) now d = Inr (a, e) \<Longrightarrow> D d e"
  shows "stays (\<lambda>w w'. D (database w) (database w')) (aftermath S lg ev)"
  using assms
  by (cases ev) (auto intro!: world.stays_bind world.stays_ret stays_query stays_getPool
      stays_put_line stays_report split: list.split)

end

text \<open>The aftermath of a handler never touches the raw events or the checkpoints.\<close>

lemma aftermath_events [simp]:
  "onchain_events (database (snd (aftermath S lg ev w))) = onchain_events (database w)"
proof -
  have "stays (\<lambda>w w'. onchain_events (database w) = onchain_events (database w')) (aftermath S lg ev)"
    by (rule same_db.stays_aftermath [where f = onchain_events])
      (auto simp: statement_defs bind_r_Inr split: if_splits option.splits)
  from staysD [OF this, of w] show ?thesis by simp
qed

lemma aftermath_checkpoints [simp]:
  "indexer_checkpoints (database (snd (aftermath S lg ev w))) = indexer_checkpoints (database w)"
proof -
  have "stays (\<lambda>w w'. indexer_checkpoints (database w) = indexer_checkpoints (database w'))
      (aftermath S lg ev)"
    by (rule same_db.stays_aftermath [where f = indexer_checkpoints])
      (auto simp: statement_defs bind_r_Inr split: if_splits option.splits)
  from staysD [OF this, of w] show ?thesis by simp
qed

lemma aftermath_seen [simp]: "seen (database (snd (aftermath S lg ev w))) k = seen (database w) k"
  by (simp add: seen_def)

lemma once_records:
  assumes "once S lg nm a data (aftermath S lg ev) w = (Inr u, w')"
  shows "seen (database w') (log_key lg)"
proof -
  from assms obtain b t where p: "persistRawEventOnce S lg nm a data w = (Inr b, t)"
    and rest: "(if \<not> b then ret_m () else aftermath S lg ev) t = (Inr u, w')"
    by (auto simp: once_def bind_m_Inr)
  from p have "seen (database t) (log_key lg)"
    by (cases rule: persist_cases) (auto simp: seen_def)
  with rest show ?thesis
    using aftermath_seen [of S lg ev t] by (cases b) (auto simp: ret_m_app)
qed

lemma once_stable:
  assumes "seen (database w) k"
  shows "seen (database (snd (once S lg nm a data (aftermath S lg ev) w))) k"
proof -
  obtain r t where p: "persistRawEventOnce S lg nm a data w = (r, t)" by fastforce
  from p have "seen (database t) k"
    by (cases rule: persist_cases) (use assms in \<open>auto simp: seen_def\<close>)
  then show ?thesis
    using p by (auto simp: once_def bind_m_app ret_m_app split: sum.split)
qed

text \<open>What a log leaves behind outside the process: rows and webhook calls.\<close>

definition traces :: "world \<Rightarrow> db \<times> webhook_post list" where
  "traces w = (database w, posts w)"

lemma persist_posts:
  "persistRawEventOnce S lg nm a data w = (r, w') \<Longrightarrow> posts w' = posts w"
  by (auto simp: persistRawEventOnce_def getPool_then bind_m_app [of "pool_query _ _ _"] ret_m_app
      split: prod.splits sum.splits dest: pool_query_fields(1))

lemma once_skips:
  assumes "seen (database w) (log_key lg)"
  shows "traces (snd (once S lg nm a data m w)) = traces w"
proof -
  obtain r t where p: "persistRawEventOnce S lg nm a data w = (r, t)" by fastforce
  from p show ?thesis
    by (cases rule: persist_cases)
      (use assms p persist_posts [OF p] in \<open>auto simp: once_def bind_m_app ret_m_app traces_def\<close>)
qed

section \<open>Faults one at a time\<close>

definition calm_database :: "services \<Rightarrow> bool" where
  "calm_database S \<longleftrightarrow> (\<forall>n. query_fates S n = Ran)"

lemma persist_fetches:
  "persistRawEventOnce S lg nm a data w = (r, w') \<Longrightarrow> fetches w' = fetches w"
  by (auto simp: persistRawEventOnce_def getPool_then bind_m_app [of "pool_query _ _ _"] ret_m_app
      split: prod.splits sum.splits dest: pool_query_fields(3))

lemma once_duplicate:
  assumes "query_fates S (queries w) = Ran" and "int4 (log_index lg)" and "int8 (blockNumber lg)"
    and "json_ok data" and "seen (database w) (log_key lg)"
  shows "\<exists>t. once S lg nm a data m w = (Inr (), t)"
proof -
  let ?w = "w\<lparr>pool_open := True\<rparr>"
  have "pool_query S [data] (insert_event nm (toLowerCase a) (transactionHash lg) (log_index lg)
      (blockNumber lg) data) ?w = (Inr 0, ?w\<lparr>queries := Suc (queries ?w), database := database w\<rparr>)"
    by (rule pool_query_ran) (use assms in \<open>simp_all add: insert_event_def log_key_def\<close>)
  then show ?thesis
    by (simp add: once_def persistRawEventOnce_def bind_m_app getPool_app ret_m_app)
qed

lemma aftermath_rejected:
  assumes "calm_database S" and "fetch S (fetches t) = FetchRejects m"
    and "backendUrl (config S) = Some url" and "int8 (blockNumber lg)" and "int8 cid" and "int8 pid"
  shows "\<exists>w'. aftermath S lg (ClaimSubmitted cid pid who mroot amt ts) t = (Inl (Rejected m), w') \<and>
     onchain_claims (database w') cid \<noteq> None \<and>
     onchain_events (database w') = onchain_events (database t) \<and>
     length (posts w') = Suc (length (posts t))"
proof -
  let ?t = "t\<lparr>pool_open := True\<rparr>"
  let ?s = "insert_claim (dec cid) (dec pid) (toLowerCase who) mroot (dec amt) (transactionHash lg)
    (blockNumber lg)"
  obtain d where d: "?s (clock S (queries ?t)) (database ?t) = Inr ((), d)"
    using assms(4-6) by (simp add: insert_claim_def)
  then have "onchain_claims d cid \<noteq> None" "onchain_events d = onchain_events (database t)"
    using assms(4-6) by (auto simp: insert_claim_def split: if_splits)
  moreover have "pool_query S [] ?s ?t = (Inr (), ?t\<lparr>queries := Suc (queries ?t), database := d\<rparr>)"
    by (rule pool_query_ran) (use assms(1) d in \<open>simp_all add: calm_database_def\<close>)
  ultimately show ?thesis using assms(2,3)
    by (simp add: getPool_then bind_m_app [of "pool_query _ _ _"] reportClaimEvent_def Let_def)
qed

section \<open>Provenance: every row of the mirror rests on a raw event\<close>

definition has_event :: "db \<Rightarrow> string \<Rightarrow> string \<Rightarrow> string \<Rightarrow> int \<Rightarrow> bool" where
  "has_event d nm tx k i \<longleftrightarrow> (\<exists>e \<in> set (onchain_events d).
     ev_name e = nm \<and> ev_tx_hash e = tx \<and> field (ev_data e) k = JString (dec i))"

definition claim_backed :: "db \<Rightarrow> int \<Rightarrow> claim_row \<Rightarrow> bool" where
  "claim_backed d c r \<longleftrightarrow>
     has_event d ''ClaimSubmitted'' (cl_submitted_tx_hash r) ''claimId'' c \<and>
     pred_option (\<lambda>tx. has_event d ''ClaimStatusChanged'' tx ''claimId'' c) (cl_last_status_tx_hash r) \<and>
     pred_option (\<lambda>tx. has_event d ''ClaimPayout'' tx ''claimId'' c) (cl_payout_tx_hash r)"

definition policy_backed :: "db \<Rightarrow> int \<Rightarrow> policy_row \<Rightarrow> bool" where
  "policy_backed d p r \<longleftrightarrow>
     has_event d ''PolicyRegistered'' (po_registered_tx_hash r) ''policyId'' p \<and>
     (po_revoked r \<longrightarrow> (\<exists>tx. has_event d ''PolicyRevoked'' tx ''policyId'' p))"

definition backed :: "db \<Rightarrow> bool" where
  "backed d \<longleftrightarrow> distinct (map event_key (onchain_events d)) \<and>
     (\<forall>c r. onchain_claims d c = Some r \<longrightarrow> claim_backed d c r) \<and>
     (\<forall>p r. onchain_policies d p = Some r \<longrightarrow> policy_backed d p r)"

text \<open>The raw event an aftermath may rely on.\<close>

fun witnessed :: "db \<Rightarrow> rpc_log \<Rightarrow> chain_event \<Rightarrow> bool" where
  "witnessed d lg (ClaimSubmitted cid pid who mroot amt ts) =
     has_event d ''ClaimSubmitted'' (transactionHash lg) ''claimId'' cid"
| "witnessed d lg (ClaimStatusChanged cid st) =
     has_event d ''ClaimStatusChanged'' (transactionHash lg) ''claimId'' cid"
| "witnessed d lg (ClaimPayout cid dest amt tok) =
     has_event d ''ClaimPayout'' (transactionHash lg) ''claimId'' cid"
| "witnessed d lg (PolicyRegistered pid who vfrom vuntil cov meta) =
     has_event d ''PolicyRegistered'' (transactionHash lg) ''policyId'' pid"
| "witnessed d lg (PolicyRevoked pid) =
     has_event d ''PolicyRevoked'' (transactionHash lg) ''policyId'' pid"
| "witnessed d lg (OtherEvent name) = True"

lemma has_event_cong: "onchain_events d = onchain_events e \<Longrightarrow> has_event d = has_event e"
  by (intro ext) (simp add: has_event_def)

lemma backed_cong_events:
  assumes "onchain_events d = onchain_events e"
  shows "claim_backed d = claim_backed e" "policy_backed d = policy_backed e"
    "witnessed d lg ev = witnessed e lg ev"
proof -
  note h = has_event_cong [OF assms]
  show "claim_backed d = claim_backed e" by (intro ext) (simp add: claim_backed_def h)
  show "policy_backed d = policy_backed e" by (intro ext) (simp add: policy_backed_def h)
  show "witnessed d lg ev = witnessed e lg ev" by (cases ev) (simp_all add: h)
qed

lemma backed_claims_update:
  assumes "backed d" and "claim_backed d c r"
  shows "backed (d\<lparr>onchain_claims := (onchain_claims d)(c \<mapsto> r)\<rparr>)"
proof -
  have "claim_backed (d\<lparr>onchain_claims := m\<rparr>) = claim_backed d"
    "policy_backed (d\<lparr>onchain_claims := m\<rparr>) = policy_backed d" for m
    by (rule backed_cong_events; simp)+
  with assms show ?thesis by (simp add: backed_def)
qed

lemma backed_policies_update:
  assumes "backed d" and "policy_backed d p r"
  shows "backed (d\<lparr>onchain_policies := (onchain_policies d)(p \<mapsto> r)\<rparr>)"
proof -
  have "claim_backed (d\<lparr>onchain_policies := m\<rparr>) = claim_backed d"
    "policy_backed (d\<lparr>onchain_policies := m\<rparr>) = policy_backed d" for m
    by (rule backed_cong_events; simp)+
  with assms show ?thesis by (simp add: backed_def)
qed

lemma backed_claimD: "backed d \<Longrightarrow> onchain_claims d c = Some r \<Longrightarrow> claim_backed d c r"
  by (simp add: backed_def)

lemma backed_policyD: "backed d \<Longrightarrow> onchain_policies d p = Some r \<Longrightarrow> policy_backed d p r"
  by (simp add: backed_def)

lemma backed_insert_claim:
  assumes "insert_claim (dec cid) (dec pid) who mroot (dec amt) tx blk now d = Inr (a, e)"
    and "backed d" and "has_event d ''ClaimSubmitted'' tx ''claimId'' cid"
  shows "backed e"
  using assms
  by (auto simp: insert_claim_def claim_backed_def split: if_splits
      intro!: backed_claims_update)

lemma backed_update_claim:
  assumes "update_claim (dec cid) f now d = Inr (a, e)" and "backed d"
    and "\<And>r. claim_backed d cid r \<Longrightarrow> claim_backed d cid (f now r)"
  shows "backed e"
  using assms
  by (auto simp: update_claim_def split: if_splits option.splits
      intro!: backed_claims_update dest: backed_claimD)

lemma backed_insert_policy:
  assumes "insert_policy S (dec pid) who (dec cov) vf vu tx now d = Inr (a, e)"
    and "backed d" and "has_event d ''PolicyRegistered'' tx ''policyId'' pid"
  shows "backed e"
  using assms
  by (auto simp: insert_policy_def policy_backed_def bind_r_Inr split: if_splits
      intro!: backed_policies_update)

lemma backed_revoke_policy:
  assumes "revoke_policy (dec pid) now d = Inr (a, e)"
    and "backed d" and "has_event d ''PolicyRevoked'' tx ''policyId'' pid"
  shows "backed e"
proof -
  have "policy_backed d pid r \<Longrightarrow> policy_backed d pid (r\<lparr>po_revoked := True, po_updated_at := now\<rparr>)" for r
    using assms(3) by (auto simp: policy_backed_def)
  with assms show ?thesis
    by (auto simp: revoke_policy_def split: if_splits option.splits
        intro!: backed_policies_update dest: backed_policyD)
qed

lemma aftermath_backed:
  assumes "backed (database w)" and "witnessed (database w) lg ev"
  shows "backed (database (snd (aftermath S lg ev w)))"
proof -
  let ?P = "\<lambda>d. backed d \<and> witnessed d lg ev"
  have events: "onchain_events e = onchain_events d \<Longrightarrow> witnessed d lg ev \<Longrightarrow> witnessed e lg ev" for d e
    using backed_cong_events(3) by blast
  have "stays (\<lambda>w w'. ?P (database w) \<longrightarrow> ?P (database w')) (aftermath S lg ev)"
  proof (rule kept_db.stays_aftermath [where P = ?P]; intro impI conjI; elim conjE)
    fix cid pid who mroot amt ts now d a e
    assume s: "insert_claim (dec cid) (dec pid) (toLowerCase who) mroot (dec amt) (transactionHash lg)
        (blockNumber lg) now d = Inr (a, e)" and b: "backed d" and wt: "witnessed d lg ev"
      and ev: "ev = ClaimSubmitted cid pid who mroot amt ts"
    show "backed e" using backed_insert_claim [OF s b] wt ev by simp
    show "witnessed e lg ev" using s wt
      by (intro events [of e d]) (auto simp: insert_claim_def split: if_splits)
  next
    fix cid st now d a e
    assume s: "update_claim (dec cid) (set_status (status_name st) (transactionHash lg)) now d = Inr (a, e)"
      and b: "backed d" and wt: "witnessed d lg ev" and ev: "ev = ClaimStatusChanged cid st"
    show "backed e" using wt ev
      by (intro backed_update_claim [OF s b]) (auto simp: claim_backed_def set_status_def)
    show "witnessed e lg ev" using s wt
      by (intro events [of e d]) (auto simp: update_claim_def split: if_splits option.splits)
  next
    fix cid dest amt tok now d a e
    assume s: "update_claim (dec cid) (set_paid (transactionHash lg)) now d = Inr (a, e)"
      and b: "backed d" and wt: "witnessed d lg ev" and ev: "ev = ClaimPayout cid dest amt tok"
    show "backed e" using wt ev
      by (intro backed_update_claim [OF s b]) (auto simp: claim_backed_def set_paid_def)
    show "witnessed e lg ev" using s wt
      by (intro events [of e d]) (auto simp: update_claim_def split: if_splits option.splits)
  next
    fix pid who vfrom vuntil cov meta now d a e
    assume s: "insert_policy S (dec pid) (toLowerCase who) (dec cov) (dec vfrom) (dec vuntil)
        (transactionHash lg) now d = Inr (a, e)" and b: "backed d" and wt: "witnessed d lg ev"
      and ev: "ev = PolicyRegistered pid who vfrom vuntil cov meta"
    show "backed e" using backed_insert_policy [OF s b] wt ev by simp
    show "witnessed e lg ev" using s wt
      by (intro events [of e d]) (auto simp: insert_policy_def bind_r_Inr split: if_splits)
  next
    fix pid now d a e
    assume s: "revoke_policy (dec pid) now d = Inr (a, e)" and b: "backed d"
      and wt: "witnessed d lg ev" and ev: "ev = PolicyRevoked pid"
    show "backed e" using backed_revoke_policy [OF s b] wt ev by simp
    show "witnessed e lg ev" using s wt
      by (intro events [of e d]) (auto simp: revoke_policy_def split: if_splits option.splits)
  qed
  from staysD [OF this, of w] assms show ?thesis by blast
qed

lemma backed_new_event:
  assumes "backed d" and "\<not> seen d (event_key row)"
  shows "backed (d\<lparr>onchain_events := onchain_events d @ [row]\<rparr>)"
proof -
  let ?e = "d\<lparr>onchain_events := onchain_events d @ [row]\<rparr>"
  have more: "has_event d nm tx k i \<Longrightarrow> has_event ?e nm tx k i" for nm tx k i
    by (auto simp: has_event_def)
  have "claim_backed d c r \<Longrightarrow> claim_backed ?e c r" for c r
    using more by (auto simp: claim_backed_def pred_option_def)
  moreover have "policy_backed d p r \<Longrightarrow> policy_backed ?e p r" for p r
    unfolding policy_backed_def using more by blast
  ultimately show ?thesis using assms by (auto simp: backed_def seen_def)
qed

lemma witnessed_new_event:
  assumes "ev_name row = event_title ev" "ev_data row = event_json ev" "ev_tx_hash row = transactionHash lg"
  shows "witnessed (d\<lparr>onchain_events := onchain_events d @ [row]\<rparr>) lg ev"
  using assms by (cases ev) (auto simp: has_event_def)

lemma once_backed:
  assumes "backed (database w)"
  shows "backed (database (snd (once S lg (event_title ev) a (event_json ev) (aftermath S lg ev) w)))"
proof -
  obtain r t where p: "persistRawEventOnce S lg (event_title ev) a (event_json ev) w = (r, t)"
    by fastforce
  from p show ?thesis
  proof (cases rule: persist_cases)
    case (stored row)
    then have t: "backed (database t)" "witnessed (database t) lg ev"
      using assms backed_new_event [of "database w" row] witnessed_new_event [of row ev lg]
      by auto
    from stored(7) t p show ?thesis
      by (auto simp: once_def bind_m_app aftermath_backed)
  qed (use assms p in \<open>auto simp: once_def bind_m_app ret_m_app\<close>)
qed

end
