(* ===== verification/Event_Sink.thy ===== *)
theory Event_Sink
  imports Prelude
begin

text \<open>
  The contract between a scanner and the handler it calls for each log: a log that was handled is
  recorded, nothing un-records a log, and a log that is already recorded leaves the store alone.
  What the scanner gets from it is proved here once, for any handler.
\<close>

locale event_sink =
  fixes handle :: "'l \<Rightarrow> ('w, nat) jsm"
    and recorded :: "'w \<Rightarrow> 'l \<Rightarrow> bool"
    and store :: "'w \<Rightarrow> 'd"
  assumes handle_records: "handle l w = (Inr n, w') \<Longrightarrow> recorded w' l"
    and recorded_stable: "recorded w l \<Longrightarrow> recorded (snd (handle k w)) l"
    and recorded_skips: "recorded w l \<Longrightarrow> store (snd (handle l w)) = store w"
begin

lemma stays_recorded: "stays (\<lambda>w w'. recorded w l \<longrightarrow> recorded w' l) (handle k)"
  by (simp add: stays_def recorded_stable)

lemma all_stays_recorded: "stays (\<lambda>w w'. recorded w l \<longrightarrow> recorded w' l) (sum_m handle ls)"
  by (rule kept.stays_sum) (rule stays_recorded)

lemma all_recorded_stable: "recorded w l \<Longrightarrow> recorded (snd (sum_m handle ls w)) l"
  using staysD [OF all_stays_recorded] by blast

lemma all_handled_recorded:
  "sum_m handle ls w = (Inr n, w') \<Longrightarrow> l \<in> set ls \<Longrightarrow> recorded w' l"
proof (induction ls arbitrary: w n)
  case Nil
  then show ?case by simp
next
  case (Cons k ls)
  from Cons.prems(1) obtain a t m where hk: "handle k w = (Inr a, t)"
    and rest: "sum_m handle ls t = (Inr m, w')"
    by (auto simp: bind_m_Inr ret_m_app)
  show ?case
  proof (cases "l = k")
    case True
    with hk have "recorded t l" using handle_records by blast
    with all_recorded_stable [of t l ls] rest show ?thesis by simp
  next
    case False
    with Cons.prems(2) Cons.IH [OF rest] show ?thesis by simp
  qed
qed

lemma replay_is_noop:
  "(\<And>l. l \<in> set ls \<Longrightarrow> recorded w l) \<Longrightarrow> store (snd (sum_m handle ls w)) = store w"
proof (induction ls arbitrary: w)
  case Nil
  then show ?case by (simp add: ret_m_app)
next
  case (Cons k ls)
  obtain r t where hk: "handle k w = (r, t)" by fastforce
  have same: "store t = store w" using recorded_skips [of w k] Cons.prems [of k] hk by simp
  have "\<And>l. l \<in> set ls \<Longrightarrow> recorded t l"
    using Cons.prems recorded_stable [of w _ k] hk by simp
  then have "store (snd (sum_m handle ls t)) = store t" by (rule Cons.IH)
  with hk same show ?case
    by (cases "sum_m handle ls t") (auto simp: bind_m_app ret_m_app split: sum.split)
qed

end

end
