(* ===== verification/Indexer_Listener.thy ===== *)
theory Indexer_Listener
  imports Indexer_Events Event_Sink
begin

text \<open>
  \<^verbatim>\<open>src/indexer/src/listener.js\<close>: the table of handlers, the scan of one contract in chunks of
  blocks, one pass over both contracts and the main loop.

  The chain is a parameter (\<open>getBlockNumber\<close>, \<open>getLogs\<close>), and so is the ABI decoder of ethers:
  \<^verbatim>\<open>interface.parseLog\<close> may throw, may answer \<^verbatim>\<open>null\<close>, or decodes an event. The scan loop is a
  \<open>partial_function\<close>: not returning is \<open>None\<close>.
\<close>

datatype parse_result = ParseThrows | ParseNull | Parsed chain_event

record contract =
  contract_address :: string
  parseLog :: "rpc_log \<Rightarrow> parse_result"

fun HANDLERS :: "services \<Rightarrow> chain_event \<Rightarrow> (rpc_log \<Rightarrow> string \<Rightarrow> (world, unit) jsm) option" where
  "HANDLERS S (ClaimSubmitted cid pid who mroot amt ts) =
     Some (\<lambda>lg a. handleClaimSubmitted S lg cid pid who mroot amt ts a)"
| "HANDLERS S (ClaimStatusChanged cid st) = Some (\<lambda>lg a. handleClaimStatusChanged S lg cid st a)"
| "HANDLERS S (ClaimPayout cid dest amt tok) = Some (\<lambda>lg a. handleClaimPayout S lg cid dest amt tok a)"
| "HANDLERS S (PolicyRegistered pid who vfrom vuntil cov meta) =
     Some (\<lambda>lg a. handlePolicyRegistered S lg pid who vfrom vuntil cov a)"
| "HANDLERS S (PolicyRevoked pid) = Some (\<lambda>lg a. handlePolicyRevoked S lg pid a)"
| "HANDLERS S (OtherEvent name) = None"

text \<open>The body of the loop over the logs of a chunk: how many logs it counts, 0 or 1.\<close>

definition processLog :: "services \<Rightarrow> contract \<Rightarrow> rpc_log \<Rightarrow> (world, nat) jsm" where
  "processLog S C lg = (case parseLog C lg of
       ParseThrows \<Rightarrow> ret_m 0
     | ParseNull \<Rightarrow> throw_m (JsTypeError ''Cannot read properties of null'')
     | Parsed ev \<Rightarrow> (case HANDLERS S ev of
           None \<Rightarrow> ret_m 0
         | Some handler \<Rightarrow> bind_m (handler lg (contract_address C)) (\<lambda>_. ret_m 1)))"

definition processLogs :: "services \<Rightarrow> contract \<Rightarrow> rpc_log list \<Rightarrow> (world, nat) jsm" where
  "processLogs S C logs = sum_m (processLog S C) logs"

definition rpc_getBlockNumber :: "services \<Rightarrow> (world, int) jsm" where
  "rpc_getBlockNumber S = (\<lambda>w. (getBlockNumber S (rpcs w), w\<lparr>rpcs := Suc (rpcs w)\<rparr>))"

definition rpc_getLogs :: "services \<Rightarrow> string \<Rightarrow> int \<Rightarrow> int \<Rightarrow> (world, rpc_log list) jsm" where
  "rpc_getLogs S a f t = (\<lambda>w. (getLogs S (rpcs w) a f t,
     w\<lparr>rpcs := Suc (rpcs w), log_requests := log_requests w @ [(a, f, t)]\<rparr>))"

text \<open>One iteration of the scan loop: the next cursor and the logs counted.\<close>

definition scan_chunk :: "services \<Rightarrow> contract \<Rightarrow> int \<Rightarrow> int \<Rightarrow> (world, int \<times> nat) jsm" where
  "scan_chunk S C head cursor =
     (let toBlock = min (cursor + blockRangeChunkSize (config S) - 1) head in
      bind_m (rpc_getLogs S (contract_address C) cursor toBlock) (\<lambda>logs.
      bind_m (processLogs S C logs) (\<lambda>n.
      bind_m (setLastProcessedBlock S (contract_address C) toBlock) (\<lambda>_.
      ret_m (toBlock + 1, n)))))"

partial_function (option) scan_loop ::
  "services \<Rightarrow> contract \<Rightarrow> int \<Rightarrow> int \<Rightarrow> nat \<Rightarrow> world \<Rightarrow> ((js_error + nat) \<times> world) option" where
  "scan_loop S C head cursor acc w =
     (if cursor \<le> head
      then (case scan_chunk S C head cursor w of
              (Inl e, w') \<Rightarrow> Some (Inl e, w')
            | (Inr (c, n), w') \<Rightarrow> scan_loop S C head c (acc + n) w')
      else Some (Inr acc, w))"

declare scan_loop.simps [code]

record scan_result =
  scanned :: nat
  fromBlock :: int
  safeHead :: int

type_synonym 'a run = "((js_error + 'a) \<times> world) option"

text \<open>Sequencing of computations that may not return.\<close>

definition bind_run :: "'a run \<Rightarrow> ('a \<Rightarrow> world \<Rightarrow> 'b run) \<Rightarrow> 'b run" where
  "bind_run m f = (case m of None \<Rightarrow> None
     | Some (Inl e, w) \<Rightarrow> Some (Inl e, w) | Some (Inr a, w) \<Rightarrow> f a w)"

definition scanContract :: "services \<Rightarrow> contract \<Rightarrow> int \<Rightarrow> world \<Rightarrow> scan_result run" where
  "scanContract S C deployBlock w =
     bind_run (Some (rpc_getBlockNumber S w)) (\<lambda>currentHead w1.
     let head = max 0 (currentHead - reorgSafetyBlocks (config S)) in
     bind_run (Some (getLastProcessedBlock S (contract_address C) w1)) (\<lambda>checkpoint w2.
     let from = (case checkpoint of None \<Rightarrow> deployBlock | Some c \<Rightarrow> c + 1) in
     if from > head then Some (Inr \<lparr>scanned = 0, fromBlock = from, safeHead = head\<rparr>, w2)
     else bind_run (scan_loop S C head from 0 w2) (\<lambda>acc w3.
       Some (Inr \<lparr>scanned = acc, fromBlock = from, safeHead = head\<rparr>, w3))))"

text \<open>The decoders of the two contracts come from ethers; their addresses from the configuration.\<close>

record abis =
  claimRegistryAbi :: "rpc_log \<Rightarrow> parse_result"
  insurancePolicyAbi :: "rpc_log \<Rightarrow> parse_result"

definition getClaimRegistryContract :: "services \<Rightarrow> abis \<Rightarrow> contract" where
  "getClaimRegistryContract S A =
     \<lparr>contract_address = claimRegistryAddress (config S), parseLog = claimRegistryAbi A\<rparr>"

definition getInsurancePolicyContract :: "services \<Rightarrow> abis \<Rightarrow> contract" where
  "getInsurancePolicyContract S A =
     \<lparr>contract_address = insurancePolicyAddress (config S), parseLog = insurancePolicyAbi A\<rparr>"

definition runOnePass :: "services \<Rightarrow> abis \<Rightarrow> world \<Rightarrow> (scan_result \<times> scan_result) run" where
  "runOnePass S A w =
     bind_run (scanContract S (getInsurancePolicyContract S A)
                (insurancePolicyDeployBlock (config S)) w) (\<lambda>policyResult w1.
     bind_run (scanContract S (getClaimRegistryContract S A)
                (claimRegistryDeployBlock (config S)) w1) (\<lambda>claimResult w2.
     Some (Inr (policyResult, claimResult), w2)))"

definition main_iteration :: "services \<Rightarrow> abis \<Rightarrow> world \<Rightarrow> world option" where
  "main_iteration S A w = (case runOnePass S A w of
       None \<Rightarrow> None
     | Some (Inl e, w') \<Rightarrow> Some (w'\<lparr>console := console w' @
           [ConsoleError ''[indexer] scan pass failed:'']\<rparr>)
     | Some (Inr (p, c), w') \<Rightarrow>
         Some (if scanned p > 0 \<or> scanned c > 0
           then w'\<lparr>console := console w' @ [ConsoleLog (''[indexer] processed '' @
                  dec (int (scanned p)) @ '' policy event(s), '' @ dec (int (scanned c)) @
                  '' claim event(s)'')]\<rparr>
           else w'))"

text \<open>\<^verbatim>\<open>mainLoop\<close> after \<open>n\<close> turns of its endless loop; a failing \<^verbatim>\<open>ensureSchema\<close> ends it.\<close>

fun main_turns :: "services \<Rightarrow> abis \<Rightarrow> nat \<Rightarrow> world \<Rightarrow> world option" where
  "main_turns S A 0 w = Some w"
| "main_turns S A (Suc n) w = (case main_iteration S A w of None \<Rightarrow> None
     | Some w' \<Rightarrow> main_turns S A n w')"

definition start_line :: "services \<Rightarrow> console_line" where
  "start_line S = ConsoleLog (''[indexer] starting - chainId '' @ dec (chainId (config S)) @
     '', poll every '' @ dec (pollIntervalMs (config S)) @ ''ms'')"

definition mainLoop :: "services \<Rightarrow> abis \<Rightarrow> nat \<Rightarrow> world \<Rightarrow> unit run" where
  "mainLoop S A n w = (case ensureSchema S w of
       (Inl e, w') \<Rightarrow> Some (Inl e, w')
     | (Inr _, w') \<Rightarrow> (case main_turns S A n (w'\<lparr>console := console w' @ [start_line S]\<rparr>) of
         None \<Rightarrow> None | Some w'' \<Rightarrow> Some (Inr (), w'')))"

end
