(* ===== verification/Indexer_Scan.thy ===== *)
theory Indexer_Scan
  imports Indexer_Listener
begin

text \<open>
  Correctness of the indexer's scan: the handlers keep the contract of an event sink, the scan
  returns, a checkpoint never passes a log that is not recorded, and the mirror tables keep their
  provenance whatever fails on the way.
\<close>

section \<open>The handlers as an event sink\<close>

lemma handler_once:
  "HANDLERS S ev = Some h \<Longrightarrow> h lg a = once S lg (event_title ev) a (event_json ev) (aftermath S lg ev)"
  by (cases ev) (auto simp only: HANDLERS.simps option.inject option.distinct handler_defs once_def
      Let_def event_title.simps event_json.simps aftermath.simps)

lemma handler_exists: "HANDLERS S ev = None \<longleftrightarrow> (\<exists>name. ev = OtherEvent name)"
  by (cases ev) auto

fun needs_record :: "chain_event \<Rightarrow> bool" where
  "needs_record (OtherEvent name) = False"
| "needs_record _ = True"

lemma needs_record_handler: "needs_record ev \<longleftrightarrow> (\<exists>h. HANDLERS S ev = Some h)"
  by (cases ev) auto

definition recorded_in :: "contract \<Rightarrow> db \<Rightarrow> rpc_log \<Rightarrow> bool" where
  "recorded_in C d lg = (case parseLog C lg of
       ParseThrows \<Rightarrow> True | ParseNull \<Rightarrow> False
     | Parsed ev \<Rightarrow> needs_record ev \<longrightarrow> seen d (log_key lg))"

lemma processLog_cases:
  obtains (ignored) "processLog S C lg = ret_m 0"
      "parseLog C lg = ParseThrows \<or> (\<exists>nm. parseLog C lg = Parsed (OtherEvent nm))"
  | (null) e where "processLog S C lg = throw_m e" "parseLog C lg = ParseNull"
  | (handled) ev where "parseLog C lg = Parsed ev" "needs_record ev"
      "processLog S C lg = bind_m (once S lg (event_title ev) (contract_address C) (event_json ev)
         (aftermath S lg ev)) (\<lambda>_. ret_m 1)"
proof (cases "parseLog C lg")
  case (Parsed ev)
  show thesis
  proof (cases "HANDLERS S ev")
    case None
    with Parsed show thesis
      using handler_exists [of S ev] by (intro ignored) (auto simp: processLog_def)
  next
    case (Some h)
    with Parsed show thesis
      using handler_once [OF Some] needs_record_handler [of ev S]
      by (intro handled [of ev]) (auto simp: processLog_def)
  qed
qed (auto simp: processLog_def intro: ignored null)

lemma processLog_records:
  assumes "processLog S C lg w = (Inr n, w')"
  shows "recorded_in C (database w') lg"
  by (cases rule: processLog_cases [of S C lg])
    (use assms in \<open>auto simp: recorded_in_def ret_m_app throw_m_app bind_m_Inr
      dest!: once_records\<close>)

lemma processLog_seen:
  assumes "seen (database w) k"
  shows "seen (database (snd (processLog S C lg w))) k"
proof (cases rule: processLog_cases [of S C lg])
  case (handled ev)
  from once_stable [OF assms] handled(3) show ?thesis
    by (auto simp: bind_m_app ret_m_app split: prod.splits sum.splits)
      (metis snd_conv)+
qed (use assms in \<open>auto simp: ret_m_app throw_m_app\<close>)

lemma processLog_skips:
  assumes "recorded_in C (database w) lg"
  shows "traces (snd (processLog S C lg w)) = traces w"
proof (cases rule: processLog_cases [of S C lg])
  case (handled ev)
  with assms have "seen (database w) (log_key lg)" by (simp add: recorded_in_def)
  from once_skips [OF this] handled(3) show ?thesis
    by (auto simp: bind_m_app ret_m_app split: prod.splits sum.splits)
      (metis snd_conv)+
qed (auto simp: ret_m_app throw_m_app)

interpretation sink: event_sink "processLog S C" "\<lambda>w. recorded_in C (database w)" traces for S C
proof unfold_locales
  fix l k w n w'
  show "processLog S C l w = (Inr n, w') \<Longrightarrow> recorded_in C (database w') l"
    by (rule processLog_records)
  show "recorded_in C (database w) l \<Longrightarrow> recorded_in C (database (snd (processLog S C k w))) l"
    by (auto simp: recorded_in_def processLog_seen split: parse_result.splits)
  show "recorded_in C (database w) l \<Longrightarrow> traces (snd (processLog S C l w)) = traces w"
    by (rule processLog_skips)
qed

section \<open>Invariants of a log\<close>

lemma processLog_backed: "stays (\<lambda>w w'. backed (database w) \<longrightarrow> backed (database w')) (processLog S C lg)"
proof (cases rule: processLog_cases [of S C lg])
  case (handled ev)
  have "stays (\<lambda>w w'. backed (database w) \<longrightarrow> backed (database w'))
      (once S lg (event_title ev) (contract_address C) (event_json ev) (aftermath S lg ev))"
    by (simp add: stays_def once_backed)
  then show ?thesis unfolding handled(3)
    by (intro kept.stays_bind kept.stays_ret)
qed (auto intro: kept.stays_ret kept.stays_throw)

lemma once_checkpoints:
  "indexer_checkpoints (database (snd (once S lg nm a data (aftermath S lg ev) w))) =
     indexer_checkpoints (database w)"
proof -
  obtain r t where p: "persistRawEventOnce S lg nm a data w = (r, t)" by fastforce
  then have "indexer_checkpoints (database t) = indexer_checkpoints (database w)"
    by (cases rule: persist_cases) auto
  with p show ?thesis by (auto simp: once_def bind_m_app ret_m_app split: sum.split)
qed

lemma processLog_checkpoints:
  "stays (\<lambda>w w'. indexer_checkpoints (database w) = indexer_checkpoints (database w')) (processLog S C lg)"
proof (cases rule: processLog_cases [of S C lg])
  case (handled ev)
  have "stays (\<lambda>w w'. indexer_checkpoints (database w) = indexer_checkpoints (database w'))
      (once S lg (event_title ev) (contract_address C) (event_json ev) (aftermath S lg ev))"
    by (simp add: stays_def once_checkpoints)
  then show ?thesis unfolding handled(3)
    by (intro same.stays_bind same.stays_ret)
qed (auto intro: same.stays_ret same.stays_throw)

lemma processLogs_backed:
  assumes "backed (database w)"
  shows "backed (database (snd (processLogs S C ls w)))"
proof -
  have "stays (\<lambda>w w'. backed (database w) \<longrightarrow> backed (database w')) (processLogs S C ls)"
    unfolding processLogs_def by (rule kept.stays_sum) (rule processLog_backed)
  from staysD [OF this, of w] assms show ?thesis by blast
qed

lemma processLogs_checkpoint:
  "checkpoint_of (database (snd (processLogs S C ls w))) a = checkpoint_of (database w) a"
proof -
  have "stays (\<lambda>w w'. indexer_checkpoints (database w) = indexer_checkpoints (database w'))
      (processLogs S C ls)"
    unfolding processLogs_def by (rule same.stays_sum) (rule processLog_checkpoints)
  from staysD [OF this, of w] show ?thesis by (simp add: checkpoint_of_def)
qed

lemma processLogs_recorded:
  assumes "processLogs S C ls w = (Inr n, w')" and "l \<in> set ls"
  shows "recorded_in C (database w') l"
  using sink.all_handled_recorded [of S C ls w n w' l] assms by (simp add: processLogs_def)

lemma processLogs_stable:
  "recorded_in C (database w) l \<Longrightarrow> recorded_in C (database (snd (processLogs S C ls w))) l"
  unfolding processLogs_def by (rule sink.all_recorded_stable)

lemma processLogs_all_ran:
  "processLogs S C ls w = (Inr n, w') \<Longrightarrow> l \<in> set ls \<Longrightarrow> \<exists>v k v'. processLog S C l v = (Inr k, v')"
proof (induction ls arbitrary: w n)
  case (Cons k ls)
  then obtain a t m where "processLog S C k w = (Inr a, t)" "processLogs S C ls t = (Inr m, w')"
    by (auto simp: processLogs_def bind_m_Inr ret_m_app)
  with Cons show ?case by (cases "l = k") auto
qed simp

lemma bigint_status_fails:
  assumes "parseLog C lg = Parsed (ClaimStatusChanged cid (StatusBigInt st))"
  shows "\<exists>e. fst (processLog S C lg w) = Inl e"
  using assms
  by (simp add: processLog_def handleClaimStatusChanged_def Let_def persistRawEventOnce_def
      pool_query_unserialisable bind_m_app getPool_app)

section \<open>One chunk\<close>

definition chunk_end :: "services \<Rightarrow> int \<Rightarrow> int \<Rightarrow> int" where
  "chunk_end S head cursor = min (cursor + blockRangeChunkSize (config S) - 1) head"

text \<open>The stages of a chunk: the logs that came, then the handled logs, then the checkpoint.\<close>

lemma scan_chunk_cases:
  assumes "scan_chunk S C head cursor w = (r, w')"
  obtains (no_logs) e where "r = Inl e" "database w' = database w"
      "getLogs S (rpcs w) (contract_address C) cursor (chunk_end S head cursor) = Inl e"
  | (handler_failed) logs w1 e where "r = Inl e" "database w1 = database w"
      "getLogs S (rpcs w) (contract_address C) cursor (chunk_end S head cursor) = Inr logs"
      "processLogs S C logs w1 = (Inl e, w')"
  | (logs_done) logs w1 n w2 where "database w1 = database w"
      "getLogs S (rpcs w) (contract_address C) cursor (chunk_end S head cursor) = Inr logs"
      "processLogs S C logs w1 = (Inr n, w2)"
      "(\<exists>e. r = Inl e \<and> database w' = database w2) \<or>
       ((\<exists>e. r = Inl e) \<or> r = Inr (chunk_end S head cursor + 1, n)) \<and>
         database w' = with_checkpoint (contract_address C) (chunk_end S head cursor) (database w2)"
proof -
  let ?to = "chunk_end S head cursor"
  obtain q w1 where g: "rpc_getLogs S (contract_address C) cursor ?to w = (q, w1)" by fastforce
  then have w1: "database w1 = database w" "getLogs S (rpcs w) (contract_address C) cursor ?to = q"
    by (auto simp: rpc_getLogs_def)
  have unfold: "scan_chunk S C head cursor w = (case q of Inl e \<Rightarrow> (Inl e, w1)
     | Inr logs \<Rightarrow> bind_m (processLogs S C logs) (\<lambda>n.
         bind_m (setLastProcessedBlock S (contract_address C) ?to) (\<lambda>_. ret_m (?to + 1, n))) w1)"
    using g unfolding scan_chunk_def Let_def chunk_end_def
    by (simp add: bind_m_app [of "rpc_getLogs _ _ _ _"])
  show thesis
  proof (cases q)
    case (Inl e)
    with assms unfold w1 show thesis by (intro no_logs [of e]) auto
  next
    case (Inr logs)
    obtain p w2 where pl: "processLogs S C logs w1 = (p, w2)" by fastforce
    show thesis
    proof (cases p)
      case (Inl e)
      with assms unfold w1 Inr pl show thesis
        by (intro handler_failed [of e w1 logs]) (auto simp: bind_m_app)
    next
      case (Inr n)
      obtain c w3 where st: "setLastProcessedBlock S (contract_address C) ?to w2 = (c, w3)" by fastforce
      from setLastProcessedBlock_database [OF st] setLastProcessedBlock_Inr st
        assms unfold w1 \<open>q = Inr logs\<close> pl Inr
      show thesis
        by (intro logs_done [of w1 logs n w2]) (cases c; auto simp: bind_m_app ret_m_app)+
    qed
  qed
qed

lemma scan_chunk_Inr:
  assumes "scan_chunk S C head cursor w = (Inr (c, n), w')"
  shows "c = chunk_end S head cursor + 1"
  using assms by (cases rule: scan_chunk_cases) auto

lemma chunk_end_progress:
  "0 < blockRangeChunkSize (config S) \<Longrightarrow> cursor \<le> head \<Longrightarrow>
     cursor \<le> chunk_end S head cursor \<and> chunk_end S head cursor \<le> head"
  by (auto simp: chunk_end_def)

section \<open>The loop\<close>

lemma scan_loop_end: "head < cursor \<Longrightarrow> scan_loop S C head cursor acc w = Some (Inr acc, w)"
  by (subst scan_loop.simps) simp

lemma scan_loop_step:
  "cursor \<le> head \<Longrightarrow> scan_loop S C head cursor acc w =
     (case scan_chunk S C head cursor w of
        (Inl e, w') \<Rightarrow> Some (Inl e, w')
      | (Inr (c, n), w') \<Rightarrow> scan_loop S C head c (acc + n) w')"
  by (subst scan_loop.simps) simp

text \<open>Induction over the iterations of the loop, for a chunk size that makes progress.\<close>

lemma scan_loop_induct:
  assumes size: "0 < blockRangeChunkSize (config S)"
    and step: "\<And>cursor acc w. (\<And>c n w'. cursor \<le> head \<Longrightarrow>
        scan_chunk S C head cursor w = (Inr (c, n), w') \<Longrightarrow> P c (acc + n) w') \<Longrightarrow> P cursor acc w"
  shows "P cursor acc w"
proof (induction "nat (head + 1 - cursor)" arbitrary: cursor acc w rule: less_induct)
  case (less cursor acc w)
  show ?case
  proof (rule step)
    fix c n w'
    assume "cursor \<le> head" and "scan_chunk S C head cursor w = (Inr (c, n), w')"
    then have "c = chunk_end S head cursor + 1" by (simp add: scan_chunk_Inr)
    with chunk_end_progress [OF size \<open>cursor \<le> head\<close>] \<open>cursor \<le> head\<close>
    have "nat (head + 1 - c) < nat (head + 1 - cursor)" by linarith
    then show "P c (acc + n) w'" by (rule less)
  qed
qed

lemma scan_loop_returns:
  assumes "0 < blockRangeChunkSize (config S)"
  shows "\<exists>r w'. scan_loop S C head cursor acc w = Some (r, w')"
proof (rule scan_loop_induct [OF assms, where head = head and C = C])
  fix cursor acc w
  assume IH: "\<And>c n w'. cursor \<le> head \<Longrightarrow> scan_chunk S C head cursor w = (Inr (c, n), w') \<Longrightarrow>
      \<exists>r w''. scan_loop S C head c (acc + n) w' = Some (r, w'')"
  show "\<exists>r w'. scan_loop S C head cursor acc w = Some (r, w')"
  proof (cases "cursor \<le> head")
    case False
    then show ?thesis by (simp add: scan_loop_end)
  next
    case True
    obtain q w1 where q: "scan_chunk S C head cursor w = (q, w1)" by fastforce
    with IH [OF True] show ?thesis
      by (cases q) (auto simp: scan_loop_step [OF True])
  qed
qed

section \<open>Checkpoints cover what they claim\<close>

text \<open>
  What the scan relies on of the node: a request that is answered is answered with exactly the
  logs of that address and block range. Requests may fail at any time.
\<close>

definition rpc_faithful :: "services \<Rightarrow> (string \<Rightarrow> rpc_log list) \<Rightarrow> bool" where
  "rpc_faithful S L \<longleftrightarrow> (\<forall>n a f t logs. getLogs S n a f t = Inr logs \<longrightarrow>
     logs = filter (\<lambda>l. f \<le> blockNumber l \<and> blockNumber l \<le> t) (L a))"

definition recorded_below :: "contract \<Rightarrow> int \<Rightarrow> rpc_log list \<Rightarrow> db \<Rightarrow> int \<Rightarrow> bool" where
  "recorded_below C deploy ls d c \<longleftrightarrow>
     (\<forall>l \<in> set ls. deploy \<le> blockNumber l \<and> blockNumber l < c \<longrightarrow> recorded_in C d l)"

definition checkpoint_sound :: "contract \<Rightarrow> int \<Rightarrow> rpc_log list \<Rightarrow> db \<Rightarrow> bool" where
  "checkpoint_sound C deploy ls d \<longleftrightarrow>
     (\<forall>c. checkpoint_of d (contract_address C) = Some c \<longrightarrow> recorded_below C deploy ls d (c + 1))"

lemma recorded_in_with_checkpoint [simp]:
  "recorded_in C (with_checkpoint a n d) l = recorded_in C d l"
  by (simp add: recorded_in_def seen_def with_checkpoint_def split: parse_result.split)

lemma recorded_below_with_checkpoint [simp]:
  "recorded_below C deploy ls (with_checkpoint a n d) c = recorded_below C deploy ls d c"
  by (simp add: recorded_below_def)

lemma recorded_below_processLogs:
  "recorded_below C deploy ls (database w) c \<Longrightarrow>
     recorded_below C deploy ls (database (snd (processLogs S C logs w))) c"
  by (auto simp: recorded_below_def intro: processLogs_stable)

lemma checkpoint_sound_processLogs:
  "checkpoint_sound C deploy ls (database w) \<Longrightarrow>
     checkpoint_sound C deploy ls (database (snd (processLogs S C logs w)))"
  by (simp add: checkpoint_sound_def processLogs_checkpoint recorded_below_processLogs)

lemma checkpoint_sound_with_checkpoint:
  "recorded_below C deploy ls d (n + 1) \<Longrightarrow>
     checkpoint_sound C deploy ls (with_checkpoint (contract_address C) n d)"
  by (simp add: checkpoint_sound_def checkpoints.rd_wr)

lemma scan_chunk_sound:
  assumes rpc: "rpc_faithful S L" and chunk: "scan_chunk S C head cursor w = (r, w')"
    and below: "recorded_below C deploy (L (contract_address C)) (database w) cursor"
    and sound: "checkpoint_sound C deploy (L (contract_address C)) (database w)"
  shows "checkpoint_sound C deploy (L (contract_address C)) (database w')"
    and "r = Inr (c, n) \<Longrightarrow> recorded_below C deploy (L (contract_address C)) (database w') c"
proof -
  let ?ls = "L (contract_address C)"
  have finished: "recorded_below C deploy ?ls (database w2) (chunk_end S head cursor + 1)"
    "checkpoint_sound C deploy ?ls (database w2)"
    if w1: "database w1 = database w"
      and logs: "getLogs S (rpcs w) (contract_address C) cursor (chunk_end S head cursor) = Inr logs"
      and pl: "processLogs S C logs w1 = (Inr k, w2)" for w1 w2 logs k
  proof -
    have eq: "logs = filter (\<lambda>l. cursor \<le> blockNumber l \<and> blockNumber l \<le> chunk_end S head cursor) ?ls"
      using rpc logs by (auto simp: rpc_faithful_def)
    have "recorded_below C deploy ?ls (database w2) cursor"
      using recorded_below_processLogs [of C deploy ?ls w1 cursor S logs] below w1 pl by simp
    moreover have "recorded_in C (database w2) l" if "l \<in> set ?ls" "cursor \<le> blockNumber l"
      "blockNumber l \<le> chunk_end S head cursor" for l
      using processLogs_recorded [OF pl, of l] that eq by simp
    ultimately show "recorded_below C deploy ?ls (database w2) (chunk_end S head cursor + 1)"
      by (force simp: recorded_below_def)
    show "checkpoint_sound C deploy ?ls (database w2)"
      using checkpoint_sound_processLogs [of C deploy ?ls w1 S logs] sound w1 pl by simp
  qed
  show "checkpoint_sound C deploy ?ls (database w')"
    using chunk
  proof (cases rule: scan_chunk_cases)
    case (handler_failed logs w1 e)
    then show ?thesis
      using checkpoint_sound_processLogs [of C deploy ?ls w1 S logs] sound by simp
  qed (use sound finished checkpoint_sound_with_checkpoint in \<open>auto\<close>)
  show "recorded_below C deploy ?ls (database w') c" if "r = Inr (c, n)"
    using chunk
  proof (cases rule: scan_chunk_cases)
    case (logs_done logs w1 m w2)
    with finished(1) [OF logs_done(1-3)] that show ?thesis by auto
  qed (use that in auto)
qed

lemma scan_loop_sound:
  assumes size: "0 < blockRangeChunkSize (config S)" and rpc: "rpc_faithful S L"
  shows "recorded_below C deploy (L (contract_address C)) (database w) cursor \<Longrightarrow>
    checkpoint_sound C deploy (L (contract_address C)) (database w) \<Longrightarrow>
    scan_loop S C head cursor acc w = Some (r, w') \<Longrightarrow>
    checkpoint_sound C deploy (L (contract_address C)) (database w')"
proof (induction cursor acc w rule: scan_loop_induct [OF size, where head = head and C = C])
  case (1 cursor acc w)
  show ?case
  proof (cases "cursor \<le> head")
    case False
    with 1 show ?thesis by (simp add: scan_loop_end)
  next
    case True
    obtain q w1 where q: "scan_chunk S C head cursor w = (q, w1)" by fastforce
    note chunk = scan_chunk_sound [OF rpc q "1.prems"(1,2)]
    show ?thesis
    proof (cases q)
      case (Inl e)
      with q chunk(1) "1.prems"(3) show ?thesis by (simp add: scan_loop_step [OF True])
    next
      case (Inr cn)
      obtain c n where cn: "q = Inr (c, n)" using Inr by (cases cn) auto
      from "1.prems"(3) q cn have "scan_loop S C head c (acc + n) w1 = Some (r, w')"
        by (simp add: scan_loop_step [OF True])
      with "1.IH" [OF True] q cn chunk show ?thesis by blast
    qed
  qed
qed

section \<open>Provenance through the loop\<close>

lemma backed_with_checkpoint [simp]: "backed (with_checkpoint a n d) = backed d"
proof -
  have "claim_backed (with_checkpoint a n d) = claim_backed d"
    "policy_backed (with_checkpoint a n d) = policy_backed d"
    by (rule backed_cong_events; simp add: with_checkpoint_def)+
  then show ?thesis by (simp add: backed_def) (simp add: with_checkpoint_def)
qed

lemma scan_chunk_backed:
  assumes "scan_chunk S C head cursor w = (r, w')" and "backed (database w)"
  shows "backed (database w')"
  using assms(1)
proof (cases rule: scan_chunk_cases)
  case (handler_failed logs w1 e)
  then show ?thesis using processLogs_backed [of w1 S C logs] assms(2) by simp
next
  case (logs_done logs w1 n w2)
  then show ?thesis using processLogs_backed [of w1 S C logs] assms(2) by auto
qed (use assms in simp)

text \<open>What every chunk keeps, failing or not, the loop keeps.\<close>

lemma scan_loop_stays:
  assumes size: "0 < blockRangeChunkSize (config S)"
    and R: "\<And>w. R w w" "\<And>s t u. R s t \<Longrightarrow> R t u \<Longrightarrow> R s u"
    and chunk: "\<And>cursor. stays R (scan_chunk S C head cursor)"
  shows "scan_loop S C head cursor acc w = Some (r, w') \<Longrightarrow> R w w'"
proof (induction cursor acc w rule: scan_loop_induct [OF size, where head = head and C = C])
  case (1 cursor acc w)
  show ?case
  proof (cases "cursor \<le> head")
    case False
    with 1 R(1) show ?thesis by (simp add: scan_loop_end)
  next
    case True
    obtain q w1 where q: "scan_chunk S C head cursor w = (q, w1)" by fastforce
    from staysE [OF chunk q] have "R w w1" .
    with 1 q True R(2) show ?thesis
      by (cases q) (auto simp: scan_loop_step [OF True])
  qed
qed

lemma scan_loop_backed:
  assumes size: "0 < blockRangeChunkSize (config S)"
    and "backed (database w)" and "scan_loop S C head cursor acc w = Some (r, w')"
  shows "backed (database w')"
proof -
  let ?R = "\<lambda>w w'. backed (database w) \<longrightarrow> backed (database w')"
  have chunk: "stays ?R (scan_chunk S C head c)" for c
    by (rule staysI) (metis scan_chunk_backed prod.collapse)
  have "?R w w'"
    by (rule scan_loop_stays [where R = ?R, OF size _ _ chunk assms(3)]) auto
  with assms(2) show ?thesis by blast
qed

text \<open>A scan of one contract is invisible to the checkpoint of another and forgets no event.\<close>

definition bystander :: "string \<Rightarrow> world \<Rightarrow> world \<Rightarrow> bool" where
  "bystander a w w' \<longleftrightarrow> checkpoint_of (database w') a = checkpoint_of (database w) a \<and>
     (\<forall>k. seen (database w) k \<longrightarrow> seen (database w') k)"

lemma bystander_refl: "bystander a w w"
  by (simp add: bystander_def)

lemma bystander_trans: "bystander a s t \<Longrightarrow> bystander a t u \<Longrightarrow> bystander a s u"
  by (auto simp: bystander_def)

lemma processLogs_seen: "stays (\<lambda>w w'. seen (database w) k \<longrightarrow> seen (database w') k) (processLogs S C ls)"
  unfolding processLogs_def by (rule kept.stays_sum) (simp add: stays_def processLog_seen)

lemma processLogs_bystander: "processLogs S C ls w = (r, w') \<Longrightarrow> bystander a w w'"
  unfolding bystander_def
  by (metis processLogs_checkpoint processLogs_seen staysE snd_conv)

lemma with_checkpoint_bystander:
  assumes "toLowerCase b \<noteq> toLowerCase a" and "database w' = with_checkpoint b n (database w)"
  shows "bystander a w w'"
proof -
  have "seen (database w') k = seen (database w) k" for k
    using assms(2) by (simp add: seen_def with_checkpoint_def)
  then show ?thesis using assms by (simp add: bystander_def checkpoints.rd_other)
qed

lemma bystander_cong: "database w = database v \<Longrightarrow> bystander a w w' = bystander a v w'"
  "database w' = database v' \<Longrightarrow> bystander a w w' = bystander a w v'"
  by (simp_all add: bystander_def)

lemma scan_chunk_bystander:
  assumes "toLowerCase (contract_address C) \<noteq> toLowerCase a"
  shows "stays (bystander a) (scan_chunk S C head cursor)"
proof (rule staysI)
  fix w
  obtain r w' where c: "scan_chunk S C head cursor w = (r, w')" by fastforce
  from c have "bystander a w w'"
  proof (cases rule: scan_chunk_cases)
    case (no_logs e)
    then show ?thesis by (simp add: bystander_def)
  next
    case (handler_failed logs w1 e)
    then show ?thesis using processLogs_bystander bystander_cong(1) by metis
  next
    case (logs_done logs w1 n w2)
    have "bystander a w w2"
      using processLogs_bystander [OF logs_done(3)] logs_done(1) bystander_cong(1) by metis
    with logs_done(4) with_checkpoint_bystander [OF assms, of w' _ w2] bystander_trans
      bystander_cong(2) show ?thesis by metis
  qed
  with c show "bystander a w (snd (scan_chunk S C head cursor w))" by simp
qed

section \<open>A scan, a pass, the main loop\<close>

definition resume_block :: "contract \<Rightarrow> int \<Rightarrow> db \<Rightarrow> int" where
  "resume_block C deploy d =
     (case checkpoint_of d (contract_address C) of None \<Rightarrow> deploy | Some c \<Rightarrow> c + 1)"

definition safe_head :: "services \<Rightarrow> int \<Rightarrow> int" where
  "safe_head S h = max 0 (h - reorgSafetyBlocks (config S))"

lemma scanContract_cases:
  assumes "scanContract S C deploy w = Some (r, w')"
  obtains (failed) e where "r = Inl e" "database w' = database w" "log_requests w' = log_requests w"
  | (idle) h where "getBlockNumber S (rpcs w) = Inr h" "database w' = database w"
      "log_requests w' = log_requests w" "safe_head S h < resume_block C deploy (database w)"
      "r = Inr \<lparr>scanned = 0, fromBlock = resume_block C deploy (database w), safeHead = safe_head S h\<rparr>"
  | (looped) h w2 q where "getBlockNumber S (rpcs w) = Inr h" "database w2 = database w"
      "log_requests w2 = log_requests w"
      "resume_block C deploy (database w) \<le> safe_head S h"
      "scan_loop S C (safe_head S h) (resume_block C deploy (database w)) 0 w2 = Some (q, w')"
      "r = (case q of Inl e \<Rightarrow> Inl e | Inr n \<Rightarrow> Inr \<lparr>scanned = n,
         fromBlock = resume_block C deploy (database w), safeHead = safe_head S h\<rparr>)"
proof -
  define w1 where "w1 = w\<lparr>rpcs := Suc (rpcs w)\<rparr>"
  have w1: "rpc_getBlockNumber S w = (getBlockNumber S (rpcs w), w1)" "database w1 = database w"
    "log_requests w1 = log_requests w"
    by (simp_all add: rpc_getBlockNumber_def w1_def)
  obtain p w2 where g: "getLastProcessedBlock S (contract_address C) w1 = (p, w2)" by fastforce
  from getLastProcessedBlock_database [OF g] have d2: "database w2 = database w" by (simp add: w1)
  have l2: "log_requests w2 = log_requests w"
    using g w1(3) by (auto simp: getLastProcessedBlock_def getPool_then dest!: pool_query_fields(5))
  show thesis
  proof (cases "getBlockNumber S (rpcs w)")
    case (Inl e)
    with assms w1 show thesis by (intro failed) (auto simp: scanContract_def bind_run_def)
  next
    case (Inr h)
    note head = this
    show thesis
    proof (cases p)
      case (Inl e)
      with assms w1 g head d2 l2 show thesis
        by (intro failed) (auto simp: scanContract_def bind_run_def Let_def)
    next
      case (Inr c)
      with getLastProcessedBlock_Inr(1) [of S "contract_address C" w1 c w2] g w1
      have c: "(case c of None \<Rightarrow> deploy | Some c \<Rightarrow> c + 1) = resume_block C deploy (database w)"
        by (simp add: resume_block_def)
      show thesis
      proof (cases "resume_block C deploy (database w) > safe_head S h")
        case True
        with assms w1 g head Inr c d2 l2 show thesis
          by (intro idle [of h]) (auto simp: scanContract_def bind_run_def Let_def safe_head_def)
      next
        case False
        with assms w1 g head Inr c obtain q where
          "scan_loop S C (safe_head S h) (resume_block C deploy (database w)) 0 w2 = Some (q, w')"
          "r = (case q of Inl e \<Rightarrow> Inl e | Inr n \<Rightarrow> Inr \<lparr>scanned = n,
             fromBlock = resume_block C deploy (database w), safeHead = safe_head S h\<rparr>)"
          by (auto simp: scanContract_def bind_run_def Let_def safe_head_def
              split: option.splits sum.splits)
        with False head d2 l2 show thesis by (intro looped [of h w2 q]) auto
      qed
    qed
  qed
qed

lemma scanContract_sound:
  assumes size: "0 < blockRangeChunkSize (config S)" and rpc: "rpc_faithful S L"
    and sound: "checkpoint_sound C deploy (L (contract_address C)) (database w)"
    and run: "scanContract S C deploy w = Some (r, w')"
  shows "checkpoint_sound C deploy (L (contract_address C)) (database w')"
  using run
proof (cases rule: scanContract_cases)
  case (looped h w2 q)
  have "recorded_below C deploy (L (contract_address C)) (database w2)
      (resume_block C deploy (database w))"
    using sound looped(2)
    by (auto simp: resume_block_def checkpoint_sound_def recorded_below_def split: option.split)
  from scan_loop_sound [OF size rpc this _ looped(5)] sound looped(2) show ?thesis by simp
qed (use sound in simp_all)

lemma scanContract_backed:
  assumes "0 < blockRangeChunkSize (config S)" and "backed (database w)"
    and "scanContract S C deploy w = Some (r, w')"
  shows "backed (database w')"
  using assms(3)
proof (cases rule: scanContract_cases)
  case (looped h w2 q)
  with scan_loop_backed [OF assms(1) _ looped(5)] assms(2) show ?thesis by simp
qed (use assms in simp_all)

lemma scanContract_bystander:
  assumes "0 < blockRangeChunkSize (config S)"
    and "toLowerCase (contract_address C) \<noteq> toLowerCase a"
    and "scanContract S C deploy w = Some (r, w')"
  shows "bystander a w w'"
  using assms(3)
proof (cases rule: scanContract_cases)
  case (looped h w2 q)
  from scan_loop_stays [OF assms(1) bystander_refl bystander_trans
      scan_chunk_bystander [OF assms(2)] looped(5)]
  have "bystander a w2 w'" .
  with looped(2) show ?thesis by (simp add: bystander_def)
qed (simp_all add: bystander_def)

lemma checkpoint_sound_bystander:
  assumes "bystander (contract_address C) w w'" and "checkpoint_sound C deploy ls (database w)"
  shows "checkpoint_sound C deploy ls (database w')"
proof -
  have "recorded_in C (database w) l \<Longrightarrow> recorded_in C (database w') l" for l
    using assms(1) by (auto simp: bystander_def recorded_in_def log_key_def split: parse_result.splits)
  with assms show ?thesis by (simp add: bystander_def checkpoint_sound_def recorded_below_def)
qed

lemma bind_run_Some:
  "bind_run m f = Some (r, w') \<longleftrightarrow>
     (\<exists>e. m = Some (Inl e, w') \<and> r = Inl e) \<or> (\<exists>a t. m = Some (Inr a, t) \<and> f a t = Some (r, w'))"
  by (auto simp: bind_run_def split: option.splits sum.splits)

lemma runOnePass_backed:
  assumes "0 < blockRangeChunkSize (config S)" and "backed (database w)"
    and "runOnePass S A w = Some (r, w')"
  shows "backed (database w')"
  using assms(2,3)
  by (auto simp: runOnePass_def bind_run_Some intro: scanContract_backed [OF assms(1)])

text \<open>An invariant of the database that passes keep is an invariant of the main loop.\<close>

lemma main_turns_invariant:
  assumes pass: "\<And>w r w'. P (database w) \<Longrightarrow> runOnePass S A w = Some (r, w') \<Longrightarrow> P (database w')"
  shows "P (database w) \<Longrightarrow> main_turns S A n w = Some w' \<Longrightarrow> P (database w')"
proof (induction n arbitrary: w)
  case 0
  then show ?case by simp
next
  case (Suc n)
  from Suc.prems(2) obtain u where u: "main_iteration S A w = Some u" "main_turns S A n u = Some w'"
    by (auto split: option.splits)
  from u(1) obtain r t where t: "runOnePass S A w = Some (r, t)" "database u = database t"
    by (auto simp: main_iteration_def split: option.splits sum.splits if_splits)
  with pass [OF Suc.prems(1)] u(2) Suc.IH show ?case by metis
qed

lemma ensureSchema_database: "ensureSchema S w = (r, w') \<Longrightarrow> database w' = database w"
  by (auto simp: ensureSchema_def getPool_then create_tables_def elim!: pool_query_cases)

lemma mainLoop_invariant:
  assumes pass: "\<And>w r w'. P (database w) \<Longrightarrow> runOnePass S A w = Some (r, w') \<Longrightarrow> P (database w')"
    and "P (database w)" and "mainLoop S A n w = Some (r, w')"
  shows "P (database w')"
proof -
  obtain q u where e: "ensureSchema S w = (q, u)" by fastforce
  with assms(2) have u: "P (database u)" by (simp add: ensureSchema_database)
  show ?thesis
  proof (cases q)
    case (Inl x)
    with assms(3) e u show ?thesis by (simp add: mainLoop_def)
  next
    case (Inr x)
    with assms(3) e have "main_turns S A n (u\<lparr>console := console u @ [start_line S]\<rparr>) = Some w'"
      by (auto simp: mainLoop_def split: option.splits)
    moreover have "P (database (u\<lparr>console := console u @ [start_line S]\<rparr>))" using u by simp
    ultimately show ?thesis using main_turns_invariant [where P = P and S = S and A = A] pass by blast
  qed
qed

text \<open>Both contracts' checkpoints, through a pass over both.\<close>

definition both_sound :: "services \<Rightarrow> abis \<Rightarrow> (string \<Rightarrow> rpc_log list) \<Rightarrow> db \<Rightarrow> bool" where
  "both_sound S A L d \<longleftrightarrow>
     checkpoint_sound (getInsurancePolicyContract S A) (insurancePolicyDeployBlock (config S))
       (L (insurancePolicyAddress (config S))) d \<and>
     checkpoint_sound (getClaimRegistryContract S A) (claimRegistryDeployBlock (config S))
       (L (claimRegistryAddress (config S))) d"

lemma runOnePass_sound:
  assumes size: "0 < blockRangeChunkSize (config S)" and rpc: "rpc_faithful S L"
    and apart: "toLowerCase (claimRegistryAddress (config S)) \<noteq>
      toLowerCase (insurancePolicyAddress (config S))"
    and sound: "both_sound S A L (database w)" and run: "runOnePass S A w = Some (r, w')"
  shows "both_sound S A L (database w')"
proof -
  let ?P = "getInsurancePolicyContract S A" and ?C = "getClaimRegistryContract S A"
  have addr: "contract_address ?P = insurancePolicyAddress (config S)"
    "contract_address ?C = claimRegistryAddress (config S)"
    by (simp_all add: getInsurancePolicyContract_def getClaimRegistryContract_def)
  have policy: "both_sound S A L (database t)"
    if "scanContract S ?P (insurancePolicyDeployBlock (config S)) v = Some (q, t)"
      and "both_sound S A L (database v)" for v q t
    using scanContract_sound [OF size rpc _ that(1)] that(2) apart
      checkpoint_sound_bystander [OF scanContract_bystander [OF size _ that(1)]]
    by (auto simp: both_sound_def addr)
  have claim: "both_sound S A L (database t)"
    if "scanContract S ?C (claimRegistryDeployBlock (config S)) v = Some (q, t)"
      and "both_sound S A L (database v)" for v q t
    using scanContract_sound [OF size rpc _ that(1)] that(2) apart
      checkpoint_sound_bystander [OF scanContract_bystander [OF size _ that(1)]]
    by (auto simp: both_sound_def addr)
  from run sound policy claim show ?thesis by (auto simp: runOnePass_def bind_run_Some)
qed

lemma bind_run_returns:
  "m \<noteq> None \<Longrightarrow> (\<And>a t. f a t \<noteq> None) \<Longrightarrow> bind_run m f \<noteq> None"
  by (auto simp: bind_run_def split: sum.split)

lemma if_returns: "m \<noteq> None \<Longrightarrow> n \<noteq> None \<Longrightarrow> (if b then m else n) \<noteq> None"
  by simp

lemma scanContract_returns:
  assumes "0 < blockRangeChunkSize (config S)"
  shows "\<exists>r w'. scanContract S C deploy w = Some (r, w')"
proof -
  have loop: "scan_loop S C head start acc w2 \<noteq> None" for head start acc w2
    using scan_loop_returns [OF assms, of C head start acc w2] by auto
  have "scanContract S C deploy w \<noteq> None"
    unfolding scanContract_def Let_def
    by (intro bind_run_returns if_returns loop option.distinct)
  then show ?thesis by (cases "scanContract S C deploy w") auto
qed

lemma runOnePass_returns:
  assumes "0 < blockRangeChunkSize (config S)"
  shows "\<exists>r w'. runOnePass S A w = Some (r, w')"
  unfolding runOnePass_def bind_run_Some
  using scanContract_returns [OF assms] by (metis obj_sumE)

lemma main_turns_returns:
  assumes "0 < blockRangeChunkSize (config S)"
  shows "\<exists>w'. main_turns S A n w = Some w'"
proof (induction n arbitrary: w)
  case 0
  then show ?case by simp
next
  case (Suc n)
  from runOnePass_returns [OF assms, of A w] obtain r t where "runOnePass S A w = Some (r, t)" by blast
  then have "main_iteration S A w \<noteq> None"
    by (auto simp: main_iteration_def split: sum.split prod.split)
  with Suc.IH show ?case by auto
qed

end
