(* ===== verification/Indexer_Mirror.thy ===== *)
theory Indexer_Mirror
  imports Indexer_Scan
begin

text \<open>
  The indexer against its specification. The specification replays the logs of a contract one by
  one, in block order, on the tables alone: no chunks, no checkpoints, no queries, no clock. A scan
  that succeeds has done exactly that, whatever the chunk size and however often it was resumed.
\<close>

section \<open>The tables without clock and checkpoints\<close>

definition strip_event :: "event_row \<Rightarrow> event_row" where
  "strip_event r = r\<lparr>ev_processed_at := 0\<rparr>"

definition strip_claim :: "claim_row \<Rightarrow> claim_row" where
  "strip_claim r = r\<lparr>cl_updated_at := 0\<rparr>"

definition strip_policy :: "policy_row \<Rightarrow> policy_row" where
  "strip_policy r = r\<lparr>po_updated_at := 0\<rparr>"

definition tables :: "db \<Rightarrow> db" where
  "tables d = \<lparr>indexer_checkpoints = Map.empty,
     onchain_events = map strip_event (onchain_events d),
     onchain_claims = (\<lambda>c. map_option strip_claim (onchain_claims d c)),
     onchain_policies = (\<lambda>p. map_option strip_policy (onchain_policies d p))\<rparr>"

section \<open>The specification\<close>

fun mirror_after :: "services \<Rightarrow> rpc_log \<Rightarrow> chain_event \<Rightarrow> db \<Rightarrow> db" where
  "mirror_after S lg (ClaimSubmitted cid pid who mroot amt ts) d =
     (if onchain_claims d cid \<noteq> None then d
      else d\<lparr>onchain_claims := (onchain_claims d)(cid \<mapsto>
        \<lparr>cl_policy_id = pid, cl_claimant_address = toLowerCase who, cl_merkle_root = mroot,
         cl_amount = amt, cl_status = ''submitted'', cl_submitted_tx_hash = transactionHash lg,
         cl_submitted_block = blockNumber lg, cl_last_status_tx_hash = None,
         cl_payout_tx_hash = None, cl_updated_at = 0\<rparr>)\<rparr>)"
| "mirror_after S lg (ClaimStatusChanged cid st) d = (case onchain_claims d cid of
       None \<Rightarrow> d
     | Some r \<Rightarrow> d\<lparr>onchain_claims := (onchain_claims d)(cid \<mapsto>
         r\<lparr>cl_status := status_name st, cl_last_status_tx_hash := Some (transactionHash lg)\<rparr>)\<rparr>)"
| "mirror_after S lg (ClaimPayout cid dest amt tok) d = (case onchain_claims d cid of
       None \<Rightarrow> d
     | Some r \<Rightarrow> d\<lparr>onchain_claims := (onchain_claims d)(cid \<mapsto>
         r\<lparr>cl_status := ''paid'', cl_payout_tx_hash := Some (transactionHash lg)\<rparr>)\<rparr>)"
| "mirror_after S lg (PolicyRegistered pid who vfrom vuntil cov meta) d =
     (case (to_timestamp S (dec vfrom), to_timestamp S (dec vuntil)) of
       (Some f, Some u) \<Rightarrow>
         if onchain_policies d pid \<noteq> None then d
         else d\<lparr>onchain_policies := (onchain_policies d)(pid \<mapsto>
           \<lparr>po_holder_address = toLowerCase who, po_coverage_amount = cov, po_valid_from = f,
            po_valid_until = u, po_revoked = False, po_registered_tx_hash = transactionHash lg,
            po_updated_at = 0\<rparr>)\<rparr>
     | _ \<Rightarrow> d)"
| "mirror_after S lg (PolicyRevoked pid) d = (case onchain_policies d pid of
       None \<Rightarrow> d
     | Some r \<Rightarrow> d\<lparr>onchain_policies := (onchain_policies d)(pid \<mapsto> r\<lparr>po_revoked := True\<rparr>)\<rparr>)"
| "mirror_after S lg (OtherEvent name) d = d"

definition mirror_event :: "services \<Rightarrow> string \<Rightarrow> rpc_log \<Rightarrow> chain_event \<Rightarrow> db \<Rightarrow> db" where
  "mirror_event S a lg ev d = (if seen d (log_key lg) then d
     else mirror_after S lg ev (d\<lparr>onchain_events := onchain_events d @
       [\<lparr>ev_name = event_title ev, ev_contract_address = toLowerCase a,
         ev_tx_hash = transactionHash lg, ev_log_index = log_index lg,
         ev_block_number = blockNumber lg, ev_data = event_json ev, ev_processed_at = 0\<rparr>]\<rparr>))"

definition mirror_log :: "services \<Rightarrow> contract \<Rightarrow> rpc_log \<Rightarrow> db \<Rightarrow> db" where
  "mirror_log S C lg d = (case parseLog C lg of
       Parsed ev \<Rightarrow> if needs_record ev then mirror_event S (contract_address C) lg ev d else d
     | _ \<Rightarrow> d)"

definition mirror_logs :: "services \<Rightarrow> contract \<Rightarrow> rpc_log list \<Rightarrow> db \<Rightarrow> db" where
  "mirror_logs S C ls d = fold (mirror_log S C) ls d"

section \<open>One log refines the specification\<close>

text \<open>What an aftermath that succeeds has done to the database: one statement, at some time.\<close>

fun aftermath_stmt :: "services \<Rightarrow> rpc_log \<Rightarrow> chain_event \<Rightarrow> int \<Rightarrow> db \<Rightarrow> js_error + db" where
  "aftermath_stmt S lg (ClaimSubmitted cid pid who mroot amt ts) now d =
     map_sum id snd (insert_claim (dec cid) (dec pid) (toLowerCase who) mroot (dec amt)
       (transactionHash lg) (blockNumber lg) now d)"
| "aftermath_stmt S lg (ClaimStatusChanged cid st) now d =
     map_sum id snd (update_claim (dec cid) (set_status (status_name st) (transactionHash lg)) now d)"
| "aftermath_stmt S lg (ClaimPayout cid dest amt tok) now d =
     map_sum id snd (update_claim (dec cid) (set_paid (transactionHash lg)) now d)"
| "aftermath_stmt S lg (PolicyRegistered pid who vfrom vuntil cov meta) now d =
     map_sum id snd (insert_policy S (dec pid) (toLowerCase who) (dec cov) (dec vfrom) (dec vuntil)
       (transactionHash lg) now d)"
| "aftermath_stmt S lg (PolicyRevoked pid) now d = map_sum id snd (revoke_policy (dec pid) now d)"
| "aftermath_stmt S lg (OtherEvent name) now d = Inr d"

lemma report_database: "reportClaimEvent S ev w = (r, w') \<Longrightarrow> database w' = database w"
  using reportClaimEvent_database [of S ev w] by simp

lemma put_line_database: "put_line l w = (r, w') \<Longrightarrow> database w' = database w"
  by (auto simp: put_line_def modify_m_app)

lemma aftermath_ran:
  assumes "aftermath S lg ev w = (Inr u, w')"
  shows "\<exists>now. aftermath_stmt S lg ev now (database w) = Inr (database w')"
proof (cases ev)
  case (OtherEvent name)
  with assms show ?thesis by (simp add: ret_m_app)
next
  case (PolicyRegistered pid who vfrom vuntil cov meta)
  with assms show ?thesis
    by (intro exI [of _ "clock S (queries w)"]) (auto simp: getPool_then dest!: pool_query_Inr(1))
next
  case (PolicyRevoked pid)
  with assms show ?thesis
    by (intro exI [of _ "clock S (queries w)"]) (auto simp: getPool_then dest!: pool_query_Inr(1))
next
  case (ClaimSubmitted cid pid who mroot amt ts)
  with assms show ?thesis
    by (intro exI [of _ "clock S (queries w)"])
      (auto simp: getPool_then bind_m_Inr dest!: pool_query_Inr(1) report_database)
next
  case (ClaimStatusChanged cid st)
  with assms obtain rows t where
    q: "pool_query S [] (update_claim (dec cid) (set_status (status_name st) (transactionHash lg)))
          (w\<lparr>pool_open := True\<rparr>) = (Inr rows, t)"
    and rest: "(case rows of [] \<Rightarrow> put_line (ConsoleWarn
        (''[eventHandlers] ClaimStatusChanged for unknown claimId '' @ dec cid))
      | mroot # _ \<Rightarrow> reportClaimEvent S (claim_report ''ClaimStatusChanged'' (dec cid) mroot
          (transactionHash lg) (status_name st))) t = (Inr u, w')"
    unfolding ClaimStatusChanged aftermath.simps getPool_then bind_m_Inr by blast
  from rest have "database w' = database t"
    by (cases rows) (auto dest: report_database put_line_database)
  with ClaimStatusChanged pool_query_Inr(1) [OF q] show ?thesis
    by (intro exI [of _ "clock S (queries w)"]) simp
next
  case (ClaimPayout cid dest amt tok)
  with assms obtain rows t where
    q: "pool_query S [] (update_claim (dec cid) (set_paid (transactionHash lg)))
          (w\<lparr>pool_open := True\<rparr>) = (Inr rows, t)"
    and rest: "(case rows of [] \<Rightarrow> ret_m ()
      | mroot # _ \<Rightarrow> reportClaimEvent S (claim_report ''ClaimPayout'' (dec cid) mroot
          (transactionHash lg) ''paid'')) t = (Inr u, w')"
    unfolding ClaimPayout aftermath.simps getPool_then bind_m_Inr by blast
  from rest have "database w' = database t"
    by (cases rows) (auto simp: ret_m_app dest: report_database)
  with ClaimPayout pool_query_Inr(1) [OF q] show ?thesis
    by (intro exI [of _ "clock S (queries w)"]) simp
qed

lemma tables_update_claims:
  "tables (d\<lparr>onchain_claims := (onchain_claims d)(c \<mapsto> r)\<rparr>) =
     (tables d)\<lparr>onchain_claims := (onchain_claims (tables d))(c \<mapsto> strip_claim r)\<rparr>"
  by (auto simp: tables_def)

lemma tables_update_policies:
  "tables (d\<lparr>onchain_policies := (onchain_policies d)(p \<mapsto> r)\<rparr>) =
     (tables d)\<lparr>onchain_policies := (onchain_policies (tables d))(p \<mapsto> strip_policy r)\<rparr>"
  by (auto simp: tables_def)

lemma tables_select:
  "onchain_claims (tables d) c = map_option strip_claim (onchain_claims d c)"
  "onchain_policies (tables d) p = map_option strip_policy (onchain_policies d p)"
  by (simp_all add: tables_def)

lemma strip_updates:
  "strip_claim (set_status st tx now r) =
     (strip_claim r)\<lparr>cl_status := st, cl_last_status_tx_hash := Some tx\<rparr>"
  "strip_claim (set_paid tx now r) = (strip_claim r)\<lparr>cl_status := ''paid'', cl_payout_tx_hash := Some tx\<rparr>"
  "strip_policy (q\<lparr>po_revoked := True, po_updated_at := now\<rparr>) = (strip_policy q)\<lparr>po_revoked := True\<rparr>"
  by (simp_all add: strip_claim_def strip_policy_def set_status_def set_paid_def)

lemma aftermath_stmt_refines:
  assumes "aftermath_stmt S lg ev now d = Inr e"
  shows "tables e = mirror_after S lg ev (tables d)"
proof (cases ev)
  case (ClaimSubmitted cid pid who mroot amt ts)
  with assms show ?thesis
    by (auto simp: insert_claim_def tables_update_claims tables_select strip_claim_def
        split: if_splits)
next
  case (ClaimStatusChanged cid st)
  with assms show ?thesis
    by (auto simp: update_claim_def tables_update_claims tables_select strip_updates
        split: if_splits option.splits)
next
  case (ClaimPayout cid dest amt tok)
  with assms show ?thesis
    by (auto simp: update_claim_def tables_update_claims tables_select strip_updates
        split: if_splits option.splits)
next
  case (PolicyRegistered pid who vfrom vuntil cov meta)
  with assms show ?thesis
    by (auto simp: insert_policy_def timestamp_param_def tables_update_policies tables_select
        strip_policy_def split: if_splits option.splits)
next
  case (PolicyRevoked pid)
  with assms show ?thesis
    by (auto simp: revoke_policy_def tables_update_policies tables_select strip_updates
        split: if_splits option.splits)
next
  case (OtherEvent name)
  with assms show ?thesis by simp
qed

lemma seen_tables [simp]: "seen (tables d) k = seen d k"
  by (simp add: seen_def tables_def strip_event_def event_key_def comp_def)

lemma tables_new_event:
  "tables (d\<lparr>onchain_events := onchain_events d @ [row]\<rparr>) =
     (tables d)\<lparr>onchain_events := onchain_events (tables d) @ [strip_event row]\<rparr>"
  by (simp add: tables_def)

lemma once_refines:
  assumes "once S lg (event_title ev) a (event_json ev) (aftermath S lg ev) w = (Inr u, w')"
  shows "tables (database w') = mirror_event S a lg ev (tables (database w))"
proof -
  from assms obtain b t where
    p: "persistRawEventOnce S lg (event_title ev) a (event_json ev) w = (Inr b, t)"
    and rest: "(if \<not> b then ret_m () else aftermath S lg ev) t = (Inr u, w')"
    by (auto simp: once_def bind_m_Inr)
  from p show ?thesis
  proof (cases rule: persist_cases)
    case (stored row)
    have row: "strip_event row = \<lparr>ev_name = event_title ev, ev_contract_address = toLowerCase a,
        ev_tx_hash = transactionHash lg, ev_log_index = log_index lg,
        ev_block_number = blockNumber lg, ev_data = event_json ev, ev_processed_at = 0\<rparr>"
      using stored by (cases row) (simp add: strip_event_def event_key_def log_key_def)
    from stored(7) rest have "aftermath S lg ev t = (Inr u, w')" by simp
    from aftermath_ran [OF this] aftermath_stmt_refines
    have "tables (database w') = mirror_after S lg ev (tables (database t))" by blast
    with stored(1,6) row show ?thesis by (simp add: mirror_event_def tables_new_event)
  next
    case duplicate
    with rest show ?thesis by (simp add: mirror_event_def ret_m_app)
  qed simp
qed

lemma processLog_refines:
  assumes "processLog S C lg w = (Inr n, w')"
  shows "tables (database w') = mirror_log S C lg (tables (database w))"
proof (cases rule: processLog_cases [of S C lg])
  case (handled ev)
  with assms once_refines show ?thesis
    by (auto simp: bind_m_Inr ret_m_app mirror_log_def)
qed (use assms in \<open>auto simp: ret_m_app throw_m_app mirror_log_def\<close>)

lemma processLogs_refines:
  "processLogs S C ls w = (Inr n, w') \<Longrightarrow>
     tables (database w') = mirror_logs S C ls (tables (database w))"
proof (induction ls arbitrary: w n)
  case Nil
  then show ?case by (simp add: processLogs_def mirror_logs_def ret_m_app)
next
  case (Cons l ls)
  from Cons.prems obtain k t m where l: "processLog S C l w = (Inr k, t)"
    and ls: "processLogs S C ls t = (Inr m, w')"
    by (auto simp: processLogs_def bind_m_Inr ret_m_app)
  from Cons.IH [OF ls] processLog_refines [OF l] show ?case by (simp add: mirror_logs_def)
qed

section \<open>The scan refines the specification\<close>

definition in_range :: "int \<Rightarrow> int \<Rightarrow> rpc_log \<Rightarrow> bool" where
  "in_range f t l \<longleftrightarrow> f \<le> blockNumber l \<and> blockNumber l \<le> t"

lemma filter_ranges_append:
  assumes "sorted (map blockNumber ls)" and "f \<le> m + 1" and "m \<le> t"
  shows "filter (in_range f m) ls @ filter (in_range (m + 1) t) ls = filter (in_range f t) ls"
  using assms(1)
proof (induction ls)
  case Nil
  then show ?case by simp
next
  case (Cons l ls)
  then have IH: "filter (in_range f m) ls @ filter (in_range (m + 1) t) ls = filter (in_range f t) ls"
    and above: "\<forall>k \<in> set ls. blockNumber l \<le> blockNumber k" by auto
  show ?case
  proof (cases "blockNumber l \<le> m")
    case True
    with assms(2,3) have "in_range f m l = in_range f t l" "\<not> in_range (m + 1) t l"
      by (auto simp: in_range_def)
    with IH show ?thesis by simp
  next
    case False
    with above have "filter (in_range f m) ls = []" by (auto simp: in_range_def filter_empty_conv)
    moreover from False assms(2) have "\<not> in_range f m l" "in_range (m + 1) t l = in_range f t l"
      by (auto simp: in_range_def)
    ultimately show ?thesis using IH by simp
  qed
qed

lemma filter_range_empty: "t < f \<Longrightarrow> filter (in_range f t) ls = []"
  by (auto simp: in_range_def filter_empty_conv)

lemma tables_with_checkpoint [simp]: "tables (with_checkpoint a n d) = tables d"
  by (simp add: tables_def with_checkpoint_def)

lemma mirror_logs_append: "mirror_logs S C (xs @ ys) d = mirror_logs S C ys (mirror_logs S C xs d)"
  by (simp add: mirror_logs_def)

lemma scan_chunk_refines:
  assumes rpc: "rpc_faithful S L" and chunk: "scan_chunk S C head cursor w = (Inr (c, n), w')"
  shows "tables (database w') = mirror_logs S C
      (filter (in_range cursor (chunk_end S head cursor)) (L (contract_address C))) (tables (database w))"
    and "checkpoint_of (database w') (contract_address C) = Some (chunk_end S head cursor)"
proof -
  from chunk obtain logs w1 w2 k where "database w1 = database w"
    and g: "getLogs S (rpcs w) (contract_address C) cursor (chunk_end S head cursor) = Inr logs"
    and p: "processLogs S C logs w1 = (Inr k, w2)"
    and d: "database w' = with_checkpoint (contract_address C) (chunk_end S head cursor) (database w2)"
    by (cases rule: scan_chunk_cases) auto
  moreover have "logs = filter (in_range cursor (chunk_end S head cursor)) (L (contract_address C))"
    using rpc g unfolding rpc_faithful_def in_range_def by blast
  ultimately show "tables (database w') = mirror_logs S C
      (filter (in_range cursor (chunk_end S head cursor)) (L (contract_address C))) (tables (database w))"
    using processLogs_refines [OF p] by simp
  show "checkpoint_of (database w') (contract_address C) = Some (chunk_end S head cursor)"
    using d by (simp add: checkpoints.rd_wr)
qed

lemma scan_loop_refines:
  assumes size: "0 < blockRangeChunkSize (config S)" and rpc: "rpc_faithful S L"
    and ordered: "sorted (map blockNumber (L (contract_address C)))"
  shows "cursor \<le> head + 1 \<Longrightarrow> scan_loop S C head cursor acc w = Some (Inr n, w') \<Longrightarrow>
    tables (database w') =
      mirror_logs S C (filter (in_range cursor head) (L (contract_address C))) (tables (database w)) \<and>
    (cursor \<le> head \<longrightarrow> checkpoint_of (database w') (contract_address C) = Some head)"
proof (induction cursor acc w rule: scan_loop_induct [OF size, where head = head and C = C])
  case (1 cursor acc w)
  let ?ls = "L (contract_address C)"
  show ?case
  proof (cases "cursor \<le> head")
    case False
    with "1.prems" show ?thesis
      by (auto simp: scan_loop_end filter_range_empty mirror_logs_def)
  next
    case True
    obtain q w1 where q: "scan_chunk S C head cursor w = (q, w1)" by fastforce
    with "1.prems"(2) obtain c m where cm: "scan_chunk S C head cursor w = (Inr (c, m), w1)"
      and rest: "scan_loop S C head c (acc + m) w1 = Some (Inr n, w')"
      by (cases q) (auto simp: scan_loop_step [OF True])
    have c: "c = chunk_end S head cursor + 1" using scan_chunk_Inr [OF cm] .
    note e = chunk_end_progress [OF size True]
    from c e have "c \<le> head + 1" by simp
    from "1.IH" [OF True cm this rest]
    have IH: "tables (database w') = mirror_logs S C (filter (in_range c head) ?ls) (tables (database w1))"
      "c \<le> head \<Longrightarrow> checkpoint_of (database w') (contract_address C) = Some head" by auto
    note chunk = scan_chunk_refines [OF rpc cm]
    have "filter (in_range cursor (chunk_end S head cursor)) ?ls @ filter (in_range c head) ?ls =
        filter (in_range cursor head) ?ls"
      unfolding c by (rule filter_ranges_append [OF ordered]) (use e in auto)
    then have "tables (database w') =
        mirror_logs S C (filter (in_range cursor head) ?ls) (tables (database w))"
      by (metis IH(1) chunk(1) mirror_logs_append)
    moreover have "checkpoint_of (database w') (contract_address C) = Some head"
    proof (cases "c \<le> head")
      case False
      with c e rest chunk(2) show ?thesis by (auto simp: scan_loop_end)
    qed (rule IH(2))
    ultimately show ?thesis by blast
  qed
qed

lemma scanContract_effect:
  assumes "0 < blockRangeChunkSize (config S)" and "rpc_faithful S L"
    and "sorted (map blockNumber (L (contract_address C)))"
    and "scanContract S C deploy w = Some (Inr r, w')"
  shows "tables (database w') = mirror_logs S C
      (filter (in_range (resume_block C deploy (database w)) (safeHead r)) (L (contract_address C)))
      (tables (database w)) \<and>
    (if resume_block C deploy (database w) \<le> safeHead r
     then checkpoint_of (database w') (contract_address C) = Some (safeHead r)
     else database w' = database w)"
  using assms(4)
proof (cases rule: scanContract_cases)
  case (idle h)
  then show ?thesis by (simp add: filter_range_empty mirror_logs_def)
next
  case (looped h w2 q)
  then obtain n where "q = Inr n" by (cases q) auto
  with looped scan_loop_refines [OF assms(1-3), of "resume_block C deploy (database w)" "safe_head S h" 0 w2 n w']
  show ?thesis by auto
qed simp

lemma mirror_logs_services:
  assumes "to_timestamp S' = to_timestamp S"
  shows "mirror_logs S' C = mirror_logs S C"
proof -
  have "mirror_after S' lg ev = mirror_after S lg ev" for lg ev
    by (cases ev; rule ext) (simp_all add: assms)
  then have "mirror_event S' = mirror_event S" by (intro ext) (simp add: mirror_event_def)
  then have "mirror_log S' C = mirror_log S C" 
    by (intro ext) (simp add: mirror_log_def split: parse_result.split)
  then show ?thesis by (intro ext) (simp add: mirror_logs_def)
qed

lemma scan_loop_reaches:
  assumes size: "0 < blockRangeChunkSize (config S)"
  shows "cursor \<le> head \<Longrightarrow> scan_loop S C head cursor acc w = Some (Inr n, w') \<Longrightarrow>
    checkpoint_of (database w') (contract_address C) = Some head"
proof (induction cursor acc w rule: scan_loop_induct [OF size, where head = head and C = C])
  case (1 cursor acc w)
  obtain q w1 where q: "scan_chunk S C head cursor w = (q, w1)" by fastforce
  with "1.prems" obtain c m where cm: "scan_chunk S C head cursor w = (Inr (c, m), w1)"
    and rest: "scan_loop S C head c (acc + m) w1 = Some (Inr n, w')"
    by (cases q) (auto simp: scan_loop_step)
  show ?case
  proof (cases "c \<le> head")
    case True
    with "1.IH" [OF "1.prems"(1) cm _ rest] show ?thesis by blast
  next
    case False
    have c: "c = chunk_end S head cursor + 1" using scan_chunk_Inr [OF cm] .
    with False chunk_end_progress [OF size "1.prems"(1)] have "chunk_end S head cursor = head" by simp
    moreover from cm have "checkpoint_of (database w1) (contract_address C) = Some (chunk_end S head cursor)"
      by (cases rule: scan_chunk_cases) (auto simp: checkpoints.rd_wr)
    ultimately show ?thesis using rest False by (simp add: scan_loop_end)
  qed
qed

section \<open>When a scan succeeds\<close>

definition calm :: "services \<Rightarrow> bool" where
  "calm S \<longleftrightarrow> (\<forall>n. query_fates S n = Ran) \<and> (\<forall>n m. fetch S n \<noteq> FetchRejects m)"

fun storable :: "services \<Rightarrow> chain_event \<Rightarrow> bool" where
  "storable S (ClaimSubmitted cid pid who mroot amt ts) = (int8 cid \<and> int8 pid)"
| "storable S (ClaimStatusChanged cid st) = (int8 cid \<and> (\<exists>n. st = StatusNumber n))"
| "storable S (ClaimPayout cid dest amt tok) = int8 cid"
| "storable S (PolicyRegistered pid who vfrom vuntil cov meta) =
     (int8 pid \<and> to_timestamp S (dec vfrom) \<noteq> None \<and> to_timestamp S (dec vuntil) \<noteq> None)"
| "storable S (PolicyRevoked pid) = int8 pid"
| "storable S (OtherEvent name) = True"

definition log_storable :: "services \<Rightarrow> contract \<Rightarrow> rpc_log \<Rightarrow> bool" where
  "log_storable S C lg = (case parseLog C lg of
       ParseThrows \<Rightarrow> True | ParseNull \<Rightarrow> False
     | Parsed ev \<Rightarrow> int4 (log_index lg) \<and> int8 (blockNumber lg) \<and> storable S ev)"

lemma report_succeeds: "calm S \<Longrightarrow> \<exists>w'. reportClaimEvent S ev w = (Inr (), w')"
  by (auto simp: reportClaimEvent_def calm_def Let_def split: option.split fetch_result.split)

lemma storable_json: "storable S ev \<Longrightarrow> json_ok (event_json ev)"
  by (cases ev) auto

lemma calm_query:
  "calm S \<Longrightarrow> list_all json_ok objs \<Longrightarrow> stmt (clock S (queries w)) (database w) = Inr (a, d) \<Longrightarrow>
     pool_query S objs stmt w = (Inr a, w\<lparr>queries := Suc (queries w), database := d\<rparr>)"
  by (rule pool_query_ran) (auto simp: calm_def)

lemma persist_succeeds:
  assumes "calm S" "json_ok data" "int4 (log_index lg)" "int8 (blockNumber lg)"
  shows "\<exists>b w'. persistRawEventOnce S lg nm a data w = (Inr b, w')"
proof -
  let ?stmt = "insert_event nm (toLowerCase a) (transactionHash lg) (log_index lg) (blockNumber lg) data"
  let ?w = "w\<lparr>pool_open := True\<rparr>"
  have "\<exists>n d. ?stmt (clock S (queries ?w)) (database ?w) = Inr (n, d)"
    using assms(3,4) by (cases "seen (database w) (log_key lg)") (auto simp: insert_event_def log_key_def)
  then obtain n d where "?stmt (clock S (queries ?w)) (database ?w) = Inr (n, d)" by blast
  then have "pool_query S [data] ?stmt ?w = (Inr n, ?w\<lparr>queries := Suc (queries ?w), database := d\<rparr>)"
    using assms(1,2) by (intro calm_query) auto
  then show ?thesis
    by (simp add: persistRawEventOnce_def getPool_then bind_m_app [of "pool_query _ _ _"] ret_m_app)
qed

lemma claim_query_succeeds:
  assumes "calm S" and "\<And>now d. \<exists>a e. stmt now d = Inr (a, e)"
    and "\<And>a t. \<exists>w'. k a t = (Inr (), w')"
  shows "\<exists>w'. bind_m getPool (\<lambda>_. bind_m (pool_query S [] stmt) k) w = (Inr (), w')"
proof -
  let ?w = "w\<lparr>pool_open := True\<rparr>"
  obtain a e where "stmt (clock S (queries ?w)) (database ?w) = Inr (a, e)" using assms(2) by blast
  then have "pool_query S [] stmt ?w = (Inr a, ?w\<lparr>queries := Suc (queries ?w), database := e\<rparr>)"
    using assms(1) by (intro calm_query) auto
  with assms(3) show ?thesis by (simp add: getPool_then bind_m_app [of "pool_query _ _ _"])
qed

lemma policy_query_succeeds:
  assumes "calm S" and "\<And>now d. \<exists>e. stmt now d = Inr ((), e)"
  shows "\<exists>w'. bind_m getPool (\<lambda>_. pool_query S [] stmt) w = (Inr (), w')"
proof -
  let ?w = "w\<lparr>pool_open := True\<rparr>"
  obtain e where "stmt (clock S (queries ?w)) (database ?w) = Inr ((), e)" using assms(2) by blast
  then have "pool_query S [] stmt ?w = (Inr (), ?w\<lparr>queries := Suc (queries ?w), database := e\<rparr>)"
    using assms(1) by (intro calm_query) auto
  then show ?thesis by (simp add: getPool_then)
qed

lemma aftermath_succeeds:
  assumes "calm S" and "storable S ev" and "int8 (blockNumber lg)"
  shows "\<exists>w'. aftermath S lg ev w = (Inr (), w')"
proof (cases ev)
  case (ClaimSubmitted cid pid who mroot amt ts)
  with assms show ?thesis
    by (simp, intro claim_query_succeeds report_succeeds) (auto simp: insert_claim_def)
next
  case (ClaimStatusChanged cid st)
  with assms show ?thesis
    by (simp, intro claim_query_succeeds)
      (auto simp: update_claim_def put_line_def modify_m_app report_succeeds
        split: option.split list.split)
next
  case (ClaimPayout cid dest amt tok)
  with assms show ?thesis
    by (simp, intro claim_query_succeeds)
      (auto simp: update_claim_def ret_m_app report_succeeds split: option.split list.split)
next
  case (PolicyRegistered pid who vfrom vuntil cov meta)
  with assms show ?thesis
    by (simp, intro policy_query_succeeds) (auto simp: insert_policy_def timestamp_param_def)
next
  case (PolicyRevoked pid)
  with assms show ?thesis
    by (simp, intro policy_query_succeeds) (auto simp: revoke_policy_def split: option.split)
next
  case (OtherEvent name)
  then show ?thesis by (simp add: ret_m_app)
qed

lemma processLog_succeeds:
  assumes "calm S" and "log_storable S C lg"
  shows "\<exists>n w'. processLog S C lg w = (Inr n, w')"
proof (cases rule: processLog_cases [of S C lg])
  case (handled ev)
  with assms(2) have fits: "int4 (log_index lg)" "int8 (blockNumber lg)" "storable S ev"
    by (auto simp: log_storable_def)
  obtain b t where p: "persistRawEventOnce S lg (event_title ev) (contract_address C) (event_json ev) w = (Inr b, t)"
    using persist_succeeds [OF assms(1) storable_json [OF fits(3)] fits(1,2)] by blast
  with aftermath_succeeds [OF assms(1) fits(3,2), of t] handled(3) show ?thesis
    by (cases b) (auto simp: once_def bind_m_app ret_m_app)
qed (use assms in \<open>auto simp: ret_m_app log_storable_def\<close>)

lemma processLogs_succeeds:
  assumes "calm S"
  shows "(\<And>l. l \<in> set ls \<Longrightarrow> log_storable S C l) \<Longrightarrow> \<exists>n w'. processLogs S C ls w = (Inr n, w')"
proof (induction ls arbitrary: w)
  case Nil
  then show ?case by (simp add: processLogs_def ret_m_app)
next
  case (Cons l ls)
  obtain k t where l: "processLog S C l w = (Inr k, t)"
    using processLog_succeeds [OF assms] Cons.prems by fastforce
  obtain n w' where "processLogs S C ls t = (Inr n, w')" using Cons by fastforce
  with l show ?case by (simp add: processLogs_def bind_m_app ret_m_app)
qed

text \<open>A node that answers every request, with the chain's head at \<open>h\<close>.\<close>

definition answering :: "services \<Rightarrow> (string \<Rightarrow> rpc_log list) \<Rightarrow> int \<Rightarrow> bool" where
  "answering S L h \<longleftrightarrow> (\<forall>n. getBlockNumber S n = Inr h) \<and>
     (\<forall>n a f t. getLogs S n a f t = Inr (filter (in_range f t) (L a)))"

lemma answering_faithful: "answering S L h \<Longrightarrow> rpc_faithful S L"
  by (auto simp: answering_def rpc_faithful_def in_range_def [abs_def])

lemma setLastProcessedBlock_succeeds:
  assumes "calm S" and "int8 n"
  shows "\<exists>w'. setLastProcessedBlock S a n w = (Inr (), w')"
  unfolding setLastProcessedBlock_def
  by (rule policy_query_succeeds [OF assms(1)]) (simp add: upsert_checkpoint_def assms(2))

lemma getLastProcessedBlock_succeeds:
  assumes "calm S"
  shows "\<exists>c w'. getLastProcessedBlock S a w = (Inr c, w')"
proof -
  let ?w = "w\<lparr>pool_open := True\<rparr>"
  let ?s = "select_checkpoint (toLowerCase a)"
  have "pool_query S [] ?s ?w = (Inr (checkpoint_of (database w) a),
      ?w\<lparr>queries := Suc (queries ?w), database := database w\<rparr>)"
    using assms by (intro calm_query) (auto simp: select_checkpoint_def checkpoint_of_def)
  then show ?thesis by (simp add: getLastProcessedBlock_def getPool_then)
qed

lemma scan_chunk_succeeds:
  assumes "calm S" and "answering S L h" and "int8 (chunk_end S head cursor)"
    and "\<And>l. l \<in> set (L (contract_address C)) \<Longrightarrow> log_storable S C l"
  shows "\<exists>n w'. scan_chunk S C head cursor w = (Inr (chunk_end S head cursor + 1, n), w')"
proof -
  let ?logs = "filter (in_range cursor (chunk_end S head cursor)) (L (contract_address C))"
  obtain w1 where g: "rpc_getLogs S (contract_address C) cursor (chunk_end S head cursor) w = (Inr ?logs, w1)"
    using assms(2) by (simp add: rpc_getLogs_def answering_def)
  obtain n w2 where p: "processLogs S C ?logs w1 = (Inr n, w2)"
    using processLogs_succeeds [OF assms(1), of ?logs C w1] assms(4) by fastforce
  obtain w3 where "setLastProcessedBlock S (contract_address C) (chunk_end S head cursor) w2 = (Inr (), w3)"
    using setLastProcessedBlock_succeeds [OF assms(1,3)] by blast
  with g p show ?thesis
    by (simp add: scan_chunk_def Let_def chunk_end_def bind_m_app ret_m_app)
qed

lemma scan_loop_succeeds:
  assumes size: "0 < blockRangeChunkSize (config S)" and "calm S" and "answering S L h"
    and head: "head < 2 ^ 63"
    and "\<And>l. l \<in> set (L (contract_address C)) \<Longrightarrow> log_storable S C l"
  shows "0 \<le> cursor \<Longrightarrow> \<exists>n w'. scan_loop S C head cursor acc w = Some (Inr n, w')"
proof (induction cursor acc w rule: scan_loop_induct [OF size, where head = head and C = C])
  case (1 cursor acc w)
  show ?case
  proof (cases "cursor \<le> head")
    case False
    then show ?thesis by (simp add: scan_loop_end)
  next
    case True
    note e = chunk_end_progress [OF size True]
    with head "1.prems" have "int8 (chunk_end S head cursor)" by (auto simp: int8_def)
    then obtain n w' where "scan_chunk S C head cursor w = (Inr (chunk_end S head cursor + 1, n), w')"
      using scan_chunk_succeeds [OF assms(2,3) _ assms(5)] by blast
    with "1.IH" [OF True this] e "1.prems" show ?thesis by (simp add: scan_loop_step [OF True])
  qed
qed

lemma scanContract_succeeds:
  assumes "0 < blockRangeChunkSize (config S)" and "calm S" and "answering S L h"
    and "h < 2 ^ 63" and "0 \<le> reorgSafetyBlocks (config S)"
    and "\<And>l. l \<in> set (L (contract_address C)) \<Longrightarrow> log_storable S C l"
    and "0 \<le> resume_block C deploy (database w)"
  shows "\<exists>r w'. scanContract S C deploy w = Some (Inr r, w')"
proof -
  define w1 where "w1 = w\<lparr>rpcs := Suc (rpcs w)\<rparr>"
  have w1: "rpc_getBlockNumber S w = (Inr h, w1)" "database w1 = database w"
    using assms(3) by (simp_all add: rpc_getBlockNumber_def w1_def answering_def)
  obtain c w2 where g: "getLastProcessedBlock S (contract_address C) w1 = (Inr c, w2)"
    using getLastProcessedBlock_succeeds [OF assms(2)] by blast
  from getLastProcessedBlock_Inr [OF g] w1
  have c: "(case c of None \<Rightarrow> deploy | Some c \<Rightarrow> c + 1) = resume_block C deploy (database w)"
    by (simp add: resume_block_def)
  have "safe_head S h < 2 ^ 63" using assms(4,5) by (simp add: safe_head_def)
  from scan_loop_succeeds [OF assms(1-3) this assms(6,7)] obtain n w' where
    "scan_loop S C (safe_head S h) (resume_block C deploy (database w)) 0 w2 = Some (Inr n, w')" by blast
  with w1 g c show ?thesis
    by (auto simp: scanContract_def bind_run_def Let_def safe_head_def)
qed

section \<open>What a scan asks of the node\<close>

text \<open>Requests for adjacent ranges, none longer than the chunk size, none beyond the head.\<close>

fun tiled :: "string \<Rightarrow> int \<Rightarrow> int \<Rightarrow> int \<Rightarrow> (string \<times> int \<times> int) list \<Rightarrow> bool" where
  "tiled a sz head f [] = True"
| "tiled a sz head f ((b, x, y) # rs) =
     (b = a \<and> x = f \<and> f \<le> y \<and> y < f + sz \<and> y \<le> head \<and> tiled a sz head (y + 1) rs)"

lemma requests_query: "stays (\<lambda>w w'. log_requests w = log_requests w') (pool_query S objs stmt)"
  by (rule staysI) (metis pool_query_fields(5) prod.collapse)

lemma requests_getPool: "stays (\<lambda>w w'. log_requests w = log_requests w') getPool"
  by (simp add: stays_def getPool_app)

lemma requests_report: "stays (\<lambda>w w'. log_requests w = log_requests w') (reportClaimEvent S ev)"
  by (rule staysI)
    (auto simp: reportClaimEvent_def Let_def split: option.split fetch_result.split)

lemma requests_put_line: "stays (\<lambda>w w'. log_requests w = log_requests w') (put_line l)"
  by (simp add: stays_def put_line_def modify_m_app)

lemmas requests_rules = requests_query requests_getPool requests_report requests_put_line
  same.stays_rules

lemma requests_aftermath: "stays (\<lambda>w w'. log_requests w = log_requests w') (aftermath S lg ev)"
  by (cases ev) (auto intro!: requests_rules split: list.split)

lemma requests_processLogs:
  "stays (\<lambda>w w'. log_requests w = log_requests w') (processLogs S C ls)"
proof -
  have "stays (\<lambda>w w'. log_requests w = log_requests w') (processLog S C lg)" for lg
  proof (cases rule: processLog_cases [of S C lg])
    case (handled ev)
    show ?thesis unfolding handled(3) once_def persistRawEventOnce_def
      by (intro requests_rules requests_aftermath)
  qed (auto intro: requests_rules)
  then show ?thesis unfolding processLogs_def by (rule same.stays_sum)
qed

lemma scan_chunk_requests:
  "log_requests (snd (scan_chunk S C head cursor w)) =
     log_requests w @ [(contract_address C, cursor, chunk_end S head cursor)]"
proof -
  have "stays (\<lambda>w w'. log_requests w = log_requests w') (bind_m (processLogs S C logs) (\<lambda>n.
      bind_m (setLastProcessedBlock S (contract_address C) (chunk_end S head cursor)) (\<lambda>_.
      ret_m (chunk_end S head cursor + 1, n))))" for logs
    unfolding setLastProcessedBlock_def by (intro requests_rules requests_processLogs)
  from staysD [OF this] show ?thesis
    unfolding scan_chunk_def Let_def bind_m_app [of "rpc_getLogs _ _ _ _"] chunk_end_def [symmetric]
    by (simp add: rpc_getLogs_def split: sum.split)
qed

lemma scan_loop_requests:
  assumes size: "0 < blockRangeChunkSize (config S)"
  shows "scan_loop S C head cursor acc w = Some (r, w') \<Longrightarrow> \<exists>rs. log_requests w' = log_requests w @ rs \<and>
    tiled (contract_address C) (blockRangeChunkSize (config S)) head cursor rs"
proof (induction cursor acc w rule: scan_loop_induct [OF size, where head = head and C = C])
  case (1 cursor acc w)
  show ?case
  proof (cases "cursor \<le> head")
    case False
    with 1 show ?thesis by (simp add: scan_loop_end)
  next
    case True
    let ?e = "chunk_end S head cursor"
    obtain q w1 where q: "scan_chunk S C head cursor w = (q, w1)" by fastforce
    have w1: "log_requests w1 = log_requests w @ [(contract_address C, cursor, ?e)]"
      using scan_chunk_requests [of S C head cursor w] q by simp
    have e: "cursor \<le> ?e" "?e \<le> head" "?e < cursor + blockRangeChunkSize (config S)"
      using chunk_end_progress [OF size True] by (auto simp: chunk_end_def)
    show ?thesis
    proof (cases q)
      case (Inl x)
      with q "1.prems" w1 e show ?thesis
        by (auto simp: scan_loop_step [OF True] intro!: exI [of _ "[(contract_address C, cursor, ?e)]"])
    next
      case (Inr cn)
      then obtain c n where cn: "q = Inr (c, n)" by (cases cn) auto
      with q "1.prems" have rest: "scan_loop S C head c (acc + n) w1 = Some (r, w')"
        by (simp add: scan_loop_step [OF True])
      from scan_chunk_Inr q cn have c: "c = ?e + 1" by blast
      from "1.IH" [OF True q [unfolded cn] rest] c obtain rs where
        "log_requests w' = log_requests w1 @ rs"
        "tiled (contract_address C) (blockRangeChunkSize (config S)) head (?e + 1) rs" by blast
      with w1 e show ?thesis
        by (intro exI [of _ "(contract_address C, cursor, ?e) # rs"]) auto
    qed
  qed
qed

end
