(* ===== verification/Indexer_Properties.thy ===== *)
theory Indexer_Properties
  imports Indexer_Mirror
begin

text \<open>
  What the indexer promises, with one concrete deployment on which every promise is exercised: a
  node with two logs of a claim registry, a database that never fails and a configuration read
  from an environment.
\<close>

section \<open>A deployment\<close>

definition ex_zod :: zod where
  "ex_zod = \<lparr>isUrl = (\<lambda>s. take 4 s = ''http''),
     coerceNumber = (\<lambda>s. case parse_dec s of Some n \<Rightarrow> js_int n | None \<Rightarrow> NaN)\<rparr>"

definition ex_registry :: string where
  "ex_registry = ''0x1111111111111111111111111111111111111111''"

definition ex_policy :: string where
  "ex_policy = ''0x2222222222222222222222222222222222222222''"

definition ex_env :: environment where
  "ex_env = map_of [(''RPC_URL'', ''http://node''), (''CHAIN_ID'', ''7''),
     (''DATABASE_URL'', ''postgres''), (''CLAIM_REGISTRY_ADDRESS'', ex_registry),
     (''INSURANCE_POLICY_ADDRESS'', ex_policy), (''BLOCK_RANGE_CHUNK_SIZE'', ''4''),
     (''BACKEND_URL'', ''http://backend''), (''BACKEND_WEBHOOK_API_KEY'', ''0123456789abcdef'')]"

definition ex_config :: indexer_config where
  "ex_config = \<lparr>rpcUrl = ''http://node'', chainId = 7, databaseUrl = ''postgres'',
     claimRegistryAddress = ex_registry, insurancePolicyAddress = ex_policy, pollIntervalMs = 3000,
     blockRangeChunkSize = 4, backendUrl = Some ''http://backend'',
     backendWebhookApiKey = Some ''0123456789abcdef'', claimRegistryDeployBlock = 0,
     insurancePolicyDeployBlock = 0, reorgSafetyBlocks = 2\<rparr>"

lemma ex_config_loads: "indexer_loadConfig ex_zod ex_env = Inr ex_config"
  by code_simp

definition ex_log :: "int \<Rightarrow> int \<Rightarrow> string \<Rightarrow> rpc_log" where
  "ex_log b i what = \<lparr>transactionHash = ''0xabc'', log_index = i, blockNumber = b, topics = [],
     log_data = what\<rparr>"

definition ex_submitted :: rpc_log where
  "ex_submitted = ex_log 3 0 ''submitted''"

definition ex_approved :: rpc_log where
  "ex_approved = ex_log 6 1 ''approved''"

definition ex_abi :: "rpc_log \<Rightarrow> parse_result" where
  "ex_abi lg = (if log_data lg = ''submitted''
       then Parsed (ClaimSubmitted 1 9 ''0xAb'' ''0x5eed'' 500 100)
     else if log_data lg = ''approved'' then Parsed (ClaimStatusChanged 1 (StatusNumber 2))
     else if log_data lg = ''bigint'' then Parsed (ClaimStatusChanged 1 (StatusBigInt 2))
     else ParseNull)"

definition ex_abis :: abis where
  "ex_abis = \<lparr>claimRegistryAbi = ex_abi, insurancePolicyAbi = ex_abi\<rparr>"

definition ex_chain :: "string \<Rightarrow> rpc_log list" where
  "ex_chain a = (if a = ex_registry then [ex_submitted, ex_approved] else [])"

definition ex_services :: services where
  "ex_services = \<lparr>config = ex_config, query_fates = (\<lambda>_. Ran), clock = int,
     to_timestamp = parse_dec, fetch = (\<lambda>_. Response 200 None), getBlockNumber = (\<lambda>_. Inr 10),
     getLogs = (\<lambda>n a f t. Inr (filter (in_range f t) (ex_chain a)))\<rparr>"

definition ex_world :: world where
  "ex_world = \<lparr>database = empty_db, pool_open = False, posts = [], warnedNoBackend = False,
     console = [], queries = 0, fetches = 0, rpcs = 0, log_requests = []\<rparr>"

definition ex_contract :: contract where
  "ex_contract = \<lparr>contract_address = ex_registry, parseLog = ex_abi\<rparr>"

lemma ex_services_config: "config ex_services = ex_config"
  by (simp add: ex_services_def)

lemma ex_loaded: "indexer_loadConfig ex_zod ex_env = Inr (config ex_services)"
  by (simp add: ex_config_loads ex_services_config)

lemma ex_calm: "calm ex_services"
  by (simp add: calm_def ex_services_def)

lemma ex_answering: "answering ex_services ex_chain 10"
  by (simp add: answering_def ex_services_def)

lemma ex_apart: "toLowerCase (claimRegistryAddress (config ex_services)) \<noteq>
    toLowerCase (insurancePolicyAddress (config ex_services))"
  unfolding ex_services_config by code_simp

lemma ex_storable: "l \<in> set (ex_chain a) \<Longrightarrow> log_storable ex_services ex_contract l"
  by (auto simp: ex_chain_def ex_contract_def log_storable_def ex_submitted_def ex_approved_def
      ex_log_def ex_abi_def int4_def int8_def split: if_splits)

lemma ex_sorted: "sorted (map blockNumber (ex_chain a))"
  by (simp add: ex_chain_def ex_submitted_def ex_approved_def ex_log_def)

lemma ex_resume: "resume_block ex_contract 0 (database ex_world) = 0"
  by (simp add: resume_block_def ex_contract_def ex_world_def empty_db_def checkpoint_of_def)

lemma empty_db_facts: "backed empty_db" "checkpoint_of empty_db a = None"
  by (simp_all add: backed_def empty_db_def checkpoint_of_def)

lemma both_sound_empty: "both_sound S A L empty_db"
  by (simp add: both_sound_def checkpoint_sound_def empty_db_facts)

lemma loaded_chunk_size: "indexer_loadConfig z env = Inr c \<Longrightarrow> 0 < blockRangeChunkSize c"
  using indexer_config_sound by (auto simp: config_ok_def)

lemma mainLoop_returns:
  assumes "0 < blockRangeChunkSize (config S)"
  shows "\<exists>r w'. mainLoop S A n w = Some (r, w')"
proof -
  obtain q u where e: "ensureSchema S w = (q, u)" by fastforce
  obtain t where "main_turns S A n (u\<lparr>console := console u @ [start_line S]\<rparr>) = Some t"
    using main_turns_returns [OF assms] by blast
  with e show ?thesis by (cases q) (auto simp: mainLoop_def)
qed

lemma mainLoop_sound:
  assumes "0 < blockRangeChunkSize (config S)" and "rpc_faithful S L"
    and "toLowerCase (claimRegistryAddress (config S)) \<noteq> toLowerCase (insurancePolicyAddress (config S))"
    and "database w = empty_db" and "mainLoop S A n w = Some (r, w')"
  shows "both_sound S A L (database w')"
  by (rule mainLoop_invariant [where P = "both_sound S A L",
        OF runOnePass_sound [OF assms(1-3)] _ assms(5)])
    (auto simp: assms(4) both_sound_empty)

section \<open>The promises\<close>

text \<open>
  C1 (safety). However queries, webhooks and the node fail, and after any number of turns of the
  main loop started on an empty database, the loop's state is defined and neither contract's
  checkpoint has passed a log that is not recorded: every log from the deploy block up to the
  checkpoint that decodes to a known event is in the raw-event table.
\<close>

theorem mainLoop_checkpoints_cover:
  assumes "indexer_loadConfig z env = Inr (config S)" and "rpc_faithful S L"
    and "toLowerCase (claimRegistryAddress (config S)) \<noteq> toLowerCase (insurancePolicyAddress (config S))"
    and "database w = empty_db"
  shows "\<exists>r w'. mainLoop S A n w = Some (r, w') \<and> both_sound S A L (database w')"
proof -
  note size = loaded_chunk_size [OF assms(1)]
  obtain r w' where run: "mainLoop S A n w = Some (r, w')" using mainLoop_returns [OF size] by blast
  with mainLoop_sound [OF size assms(2-4)] show ?thesis by blast
qed

theorem mainLoop_checkpoints_cover_witness:
  "\<exists>r w'. mainLoop ex_services ex_abis 3 ex_world = Some (r, w') \<and>
     both_sound ex_services ex_abis ex_chain (database w')"
  by (rule mainLoop_checkpoints_cover [OF ex_loaded answering_faithful [OF ex_answering] ex_apart])
    (simp add: ex_world_def)

text \<open>
  C17 (invariant). The main loop keeps the provenance of the mirror: raw events are unique by
  transaction and log index, every claim row rests on a recorded ClaimSubmitted event of that
  claim in the transaction it names, its last status change and its payout on recorded events of
  theirs, every policy row on a PolicyRegistered event and every revocation on a PolicyRevoked one.
\<close>

theorem mainLoop_provenance:
  assumes "indexer_loadConfig z env = Inr (config S)" and "backed (database w)"
  shows "\<exists>r w'. mainLoop S A n w = Some (r, w') \<and> backed (database w')"
proof -
  note size = loaded_chunk_size [OF assms(1)]
  obtain r w' where run: "mainLoop S A n w = Some (r, w')" using mainLoop_returns [OF size] by blast
  have "backed (database w')"
    by (rule mainLoop_invariant [where P = backed, OF runOnePass_backed [OF size] assms(2) run])
  with run show ?thesis by blast
qed

theorem mainLoop_provenance_witness:
  "backed (database ex_world) \<and>
   (\<exists>r w'. mainLoop ex_services ex_abis 3 ex_world = Some (r, w') \<and> backed (database w'))"
  using mainLoop_provenance [OF ex_loaded, of ex_world ex_abis 3]
  by (simp add: ex_world_def empty_db_facts)

text \<open>
  C2 (refinement). A scan that succeeds has applied exactly the contract's logs from the resume
  block up to the safe head, each once and in block order, to the tables, and its checkpoint is
  the safe head; a scan with nothing to do leaves the tables alone.
\<close>

theorem scanContract_refines_mirror:
  assumes "0 < blockRangeChunkSize (config S)" and "rpc_faithful S L"
    and "sorted (map blockNumber (L (contract_address C)))"
    and "scanContract S C deploy w = Some (Inr r, w')"
  shows "tables (database w') = mirror_logs S C
      (filter (in_range (resume_block C deploy (database w)) (safeHead r)) (L (contract_address C)))
      (tables (database w)) \<and>
    (if resume_block C deploy (database w) \<le> safeHead r
     then checkpoint_of (database w') (contract_address C) = Some (safeHead r)
     else database w' = database w)"
  using assms by (rule scanContract_effect)

lemma ex_scan_succeeds: "\<exists>r w'. scanContract ex_services ex_contract 0 ex_world = Some (Inr r, w')"
  by (rule scanContract_succeeds [OF _ ex_calm ex_answering])
    (simp_all add: ex_services_config ex_config_def ex_storable ex_resume)

theorem scanContract_refines_mirror_witness:
  "\<exists>r w'. scanContract ex_services ex_contract 0 ex_world = Some (Inr r, w') \<and>
     tables (database w') = mirror_logs ex_services ex_contract
       (filter (in_range (resume_block ex_contract 0 (database ex_world)) (safeHead r))
         (ex_chain (contract_address ex_contract))) (tables (database ex_world))"
proof -
  obtain r w' where run: "scanContract ex_services ex_contract 0 ex_world = Some (Inr r, w')"
    using ex_scan_succeeds by blast
  with scanContract_refines_mirror [OF _ answering_faithful [OF ex_answering] ex_sorted run]
  show ?thesis by (simp add: ex_services_config ex_config_def)
qed

text \<open>
  C18 (liveness). With a database and webhook that answer, a node that answers with the head at h,
  and logs whose numbers fit the columns and whose statuses are Numbers, the scan of a contract
  returns a result and not an error, and leaves the checkpoint at the safe head.
\<close>

theorem scanContract_catches_up:
  assumes "indexer_loadConfig z env = Inr (config S)" and "calm S" and "answering S L h"
    and "h < 2 ^ 63" and "\<forall>l \<in> set (L (contract_address C)). log_storable S C l"
    and "0 \<le> resume_block C deploy (database w)"
    and "resume_block C deploy (database w) \<le> safe_head S h"
  shows "\<exists>r w'. scanContract S C deploy w = Some (Inr r, w') \<and> safeHead r = safe_head S h \<and>
     checkpoint_of (database w') (contract_address C) = Some (safe_head S h)"
proof -
  have c: "0 < blockRangeChunkSize (config S)" "0 \<le> reorgSafetyBlocks (config S)"
    using indexer_config_sound [OF assms(1)] by (auto simp: config_ok_def)
  obtain r w' where run: "scanContract S C deploy w = Some (Inr r, w')"
    using scanContract_succeeds [OF c(1) assms(2-4) c(2) _ assms(6)] assms(5) by blast
  from run show ?thesis
  proof (cases rule: scanContract_cases)
    case (looped k w2 q)
    with assms(3) have k: "k = h" by (simp add: answering_def)
    from looped obtain n where "q = Inr n" by (cases q) auto
    with looped(4,5) k scan_loop_reaches [OF c(1)] have
      "checkpoint_of (database w') (contract_address C) = Some (safe_head S h)" by blast
    with run looped(6) k \<open>q = Inr n\<close> show ?thesis by auto
  qed (use assms in \<open>auto simp: answering_def\<close>)
qed

theorem scanContract_catches_up_witness:
  "\<exists>r w'. scanContract ex_services ex_contract 0 ex_world = Some (Inr r, w') \<and>
     safeHead r = safe_head ex_services 10 \<and>
     checkpoint_of (database w') (contract_address ex_contract) = Some (safe_head ex_services 10)"
  by (rule scanContract_catches_up [OF ex_loaded ex_calm ex_answering])
    (auto simp: ex_storable ex_resume safe_head_def)

text \<open>
  C19 (equivalence). Where a scan stops and resumes, and in which chunks it asks, is invisible in
  the tables: two scans of the same logs, with any two chunk sizes, that start from the same
  tables and end at the same head, one of them interrupted after a first successful scan, leave
  the same rows and the same checkpoint.
\<close>

theorem scan_in_any_steps:
  assumes "0 < blockRangeChunkSize (config S)" and "rpc_faithful S L"
    and "0 < blockRangeChunkSize (config S')" and "rpc_faithful S' L"
    and "to_timestamp S' = to_timestamp S"
    and "sorted (map blockNumber (L (contract_address C)))"
    and "scanContract S C deploy w = Some (Inr r1, w1)" and "scanContract S C deploy w1 = Some (Inr r2, w2)"
    and "scanContract S' C deploy v = Some (Inr r3, v')"
    and "tables (database v) = tables (database w)"
    and "checkpoint_of (database v) (contract_address C) = checkpoint_of (database w) (contract_address C)"
    and "resume_block C deploy (database w) \<le> safeHead r1" and "safeHead r1 \<le> safeHead r2"
    and "safeHead r3 = safeHead r2"
  shows "tables (database w2) = tables (database v') \<and>
     checkpoint_of (database w2) (contract_address C) = checkpoint_of (database v') (contract_address C)"
proof -
  let ?ls = "L (contract_address C)" and ?f = "resume_block C deploy (database w)"
  note one = scanContract_effect [OF assms(1,2,6,7)]
  note two = scanContract_effect [OF assms(1,2,6,8)]
  note three = scanContract_effect [OF assms(3,4,6,9)]
  from one assms(12) have c1: "checkpoint_of (database w1) (contract_address C) = Some (safeHead r1)"
    by simp
  then have f2: "resume_block C deploy (database w1) = safeHead r1 + 1" by (simp add: resume_block_def)
  have f3: "resume_block C deploy (database v) = ?f" using assms(11) by (simp add: resume_block_def)
  have "filter (in_range ?f (safeHead r1)) ?ls @ filter (in_range (safeHead r1 + 1) (safeHead r2)) ?ls =
      filter (in_range ?f (safeHead r2)) ?ls"
    by (rule filter_ranges_append) (use assms in auto)
  then have "tables (database w2) =
      mirror_logs S C (filter (in_range ?f (safeHead r2)) ?ls) (tables (database w))"
    using one two f2 mirror_logs_append by metis
  moreover have "tables (database v') =
      mirror_logs S C (filter (in_range ?f (safeHead r2)) ?ls) (tables (database w))"
    using three f3 assms(10,14) mirror_logs_services [OF assms(5)] by simp
  moreover have "checkpoint_of (database w2) (contract_address C) = Some (safeHead r2)"
    using two f2 c1 assms(13) by (cases "safeHead r1 = safeHead r2") auto
  moreover have "checkpoint_of (database v') (contract_address C) = Some (safeHead r2)"
    using three f3 assms(12-14) by auto
  ultimately show ?thesis by simp
qed


text \<open>A node whose head moves from 6 to 10 after the first request, and another chunk size.\<close>

definition ex_short :: contract where
  "ex_short = \<lparr>contract_address = ''c'', parseLog = ex_abi\<rparr>"

definition ex_growing :: services where
  "ex_growing = ex_services\<lparr>config := ex_config\<lparr>backendUrl := None\<rparr>,
     getBlockNumber := (\<lambda>n. Inr (if n = 0 then 6 else 10)),
     getLogs := (\<lambda>n a f t. Inr (filter (in_range f t) [ex_submitted, ex_approved]))\<rparr>"

definition ex_small_chunks :: services where
  "ex_small_chunks = ex_growing\<lparr>config := ex_config\<lparr>blockRangeChunkSize := 3\<rparr>,
     getBlockNumber := (\<lambda>n. Inr 10)\<rparr>"

definition ex_half_way :: world where
  "ex_half_way = snd (the (scanContract ex_growing ex_short 0 ex_world))"

lemma ran_with:
  assumes "map_option fst (scanContract S C deploy w) = Some q"
  shows "scanContract S C deploy w = Some (q, snd (the (scanContract S C deploy w)))"
  using assms by (cases "scanContract S C deploy w") auto

lemma ex_first_half: "scanContract ex_growing ex_short 0 ex_world =
    Some (Inr \<lparr>scanned = 1, fromBlock = 0, safeHead = 4\<rparr>, ex_half_way)"
  unfolding ex_half_way_def by (rule ran_with) code_simp

lemma ex_second_half: "map_option fst (scanContract ex_growing ex_short 0 ex_half_way) =
    Some (Inr \<lparr>scanned = 1, fromBlock = 5, safeHead = 8\<rparr>)"
  by code_simp

lemma ex_small_steps: "map_option fst (scanContract ex_small_chunks ex_short 0 ex_world) =
    Some (Inr \<lparr>scanned = 2, fromBlock = 0, safeHead = 8\<rparr>)"
  by code_simp

theorem scan_in_any_steps_witness:
  "\<exists>r2 w2 r3 v'. scanContract ex_growing ex_short 0 ex_half_way = Some (Inr r2, w2) \<and>
     scanContract ex_small_chunks ex_short 0 ex_world = Some (Inr r3, v') \<and>
     tables (database w2) = tables (database v')"
proof -
  note runs = ex_first_half ran_with [OF ex_second_half] ran_with [OF ex_small_steps]
  let ?L = "\<lambda>_. [ex_submitted, ex_approved]"
  have faithful: "rpc_faithful ex_growing ?L" "rpc_faithful ex_small_chunks ?L"
    by (auto simp: rpc_faithful_def ex_growing_def ex_small_chunks_def in_range_def [abs_def])
  have sorted: "sorted (map blockNumber (?L (contract_address ex_short)))"
    by (simp add: ex_submitted_def ex_approved_def ex_log_def)
  have start: "resume_block ex_short 0 (database ex_world) = 0"
    by (simp add: resume_block_def ex_world_def empty_db_facts)
  from scan_in_any_steps [OF _ faithful(1) _ faithful(2) _ sorted runs refl refl] runs(2,3)
  show ?thesis
    by (force simp: ex_growing_def ex_small_chunks_def ex_services_def ex_config_def start)
qed

text \<open>
  Delivering logs again is harmless: a batch of logs that are all recorded changes no
  table and sends no webhook, whatever the queries do meanwhile.
\<close>

lemma redelivery_is_silent:
  assumes "\<forall>l \<in> set logs. recorded_in C (database w) l"
  shows "database (snd (processLogs S C logs w)) = database w \<and>
     posts (snd (processLogs S C logs w)) = posts w"
  using sink.replay_is_noop [of logs C w S] assms by (simp add: processLogs_def traces_def)

lemma ex_recorded: "\<forall>l \<in> set [ex_submitted]. recorded_in ex_short (database ex_half_way) l"
  by code_simp

lemma redelivery_is_silent_example:
  "database (snd (processLogs ex_services ex_short [ex_submitted] ex_half_way)) =
     database ex_half_way \<and>
   posts (snd (processLogs ex_services ex_short [ex_submitted] ex_half_way)) = posts ex_half_way"
  using redelivery_is_silent [OF ex_recorded] .

text \<open>
  A scan asks the node only for adjacent block ranges of its own contract, starting
  at the resume block, each of at least one and at most BLOCK_RANGE_CHUNK_SIZE blocks and none
  beyond the safe head, so no log near the head that a reorganisation could drop is ever read.
\<close>

lemma scan_requests_tiled:
  assumes "0 < blockRangeChunkSize (config S)" and "scanContract S C deploy w = Some (r, w')"
  shows "\<exists>rs. log_requests w' = log_requests w @ rs \<and>
     (rs = [] \<or> (\<exists>h. getBlockNumber S (rpcs w) = Inr h \<and>
        tiled (contract_address C) (blockRangeChunkSize (config S)) (safe_head S h)
          (resume_block C deploy (database w)) rs))"
  using assms(2)
proof (cases rule: scanContract_cases)
  case (looped h w2 q)
  from scan_loop_requests [OF assms(1) looped(5)] looped(1,3) show ?thesis by auto
qed simp_all

lemma scan_requests_tiled_example:
  "\<exists>rs. log_requests ex_half_way = rs \<and>
     tiled ''c'' 4 (safe_head ex_growing 6) (resume_block ex_short 0 (database ex_world)) rs"
  using scan_requests_tiled [OF _ ex_first_half]
  by (auto simp: ex_growing_def ex_services_def ex_config_def ex_world_def ex_short_def)

section \<open>What stops the indexer\<close>

text \<open>
  A log for which the decoder answers null stops the scan of its contract for good: in
  every later state of the main loop the contract's checkpoint is below that log's block.
\<close>

lemma null_log_blocks_checkpoint:
  assumes "indexer_loadConfig z env = Inr (config S)" and "rpc_faithful S L"
    and "toLowerCase (claimRegistryAddress (config S)) \<noteq> toLowerCase (insurancePolicyAddress (config S))"
    and "database w = empty_db"
    and "lg \<in> set (L (claimRegistryAddress (config S)))" and "claimRegistryAbi A lg = ParseNull"
    and "claimRegistryDeployBlock (config S) \<le> blockNumber lg"
  shows "\<exists>r w'. mainLoop S A n w = Some (r, w') \<and>
     (\<forall>c. checkpoint_of (database w') (claimRegistryAddress (config S)) = Some c \<longrightarrow> c < blockNumber lg)"
proof -
  obtain r w' where run: "mainLoop S A n w = Some (r, w')"
    using mainLoop_returns [OF loaded_chunk_size [OF assms(1)]] by blast
  note sound = mainLoop_sound [OF loaded_chunk_size [OF assms(1)] assms(2-4) run]
  have "c < blockNumber lg" if "checkpoint_of (database w') (claimRegistryAddress (config S)) = Some c" for c
  proof (rule ccontr)
    assume "\<not> c < blockNumber lg"
    with sound that assms(5,7) have "recorded_in (getClaimRegistryContract S A) (database w') lg"
      by (auto simp: both_sound_def checkpoint_sound_def recorded_below_def getClaimRegistryContract_def)
    with assms(6) show False by (simp add: recorded_in_def getClaimRegistryContract_def)
  qed
  with run show ?thesis by blast
qed

definition ex_unknown :: rpc_log where
  "ex_unknown = ex_log 3 0 ''StuckPayoutReleased''"

definition ex_stuck_chain :: "string \<Rightarrow> rpc_log list" where
  "ex_stuck_chain a = (if a = ex_registry then [ex_unknown, ex_approved] else [])"

definition ex_stuck :: services where
  "ex_stuck = ex_services\<lparr>getLogs := (\<lambda>n a f t. Inr (filter (in_range f t) (ex_stuck_chain a)))\<rparr>"

lemma ex_stuck_config: "config ex_stuck = ex_config"
  by (simp add: ex_stuck_def ex_services_config)

lemma null_log_blocks_checkpoint_example:
  "\<exists>r w'. mainLoop ex_stuck ex_abis 5 ex_world = Some (r, w') \<and>
     (\<forall>c. checkpoint_of (database w') (claimRegistryAddress (config ex_stuck)) = Some c \<longrightarrow>
        c < blockNumber ex_unknown)"
proof (rule null_log_blocks_checkpoint [where L = ex_stuck_chain])
  show "indexer_loadConfig ex_zod ex_env = Inr (config ex_stuck)"
    by (simp add: ex_stuck_config ex_config_loads)
  show "rpc_faithful ex_stuck ex_stuck_chain"
    by (auto simp: rpc_faithful_def ex_stuck_def in_range_def [abs_def])
  show "toLowerCase (claimRegistryAddress (config ex_stuck)) \<noteq>
      toLowerCase (insurancePolicyAddress (config ex_stuck))"
    using ex_apart by (simp add: ex_stuck_config ex_services_config)
qed (simp_all add: ex_world_def ex_stuck_config ex_config_def ex_stuck_chain_def ex_abis_def
      ex_abi_def ex_unknown_def ex_log_def)

text \<open>
  C31 (error). When the decoder delivers a status as a BigInt, the raw event cannot be serialised:
  every scan of a range that holds such a log fails, with or without faults, and does not move
  the contract's checkpoint.
\<close>

theorem bigint_status_blocks_chunk:
  assumes "getLogs S (rpcs w) (contract_address C) cursor (chunk_end S head cursor) = Inr logs"
    and "lg \<in> set logs" and "parseLog C lg = Parsed (ClaimStatusChanged cid (StatusBigInt st))"
  shows "\<exists>e w'. scan_chunk S C head cursor w = (Inl e, w') \<and>
     checkpoint_of (database w') (contract_address C) = checkpoint_of (database w) (contract_address C)"
proof -
  obtain r w' where c: "scan_chunk S C head cursor w = (r, w')" by fastforce
  from c show ?thesis
  proof (cases rule: scan_chunk_cases)
    case (handler_failed logs' w1 e)
    with c processLogs_checkpoint [of S C logs' w1] show ?thesis by simp
  next
    case (logs_done logs' w1 n w2)
    with assms(1) have "processLogs S C logs w1 = (Inr n, w2)" by simp
    moreover have "processLog S C lg v \<noteq> (Inr k, v')" for v k v'
      using bigint_status_fails [OF assms(3)] by (metis fst_conv sum.distinct(1))
    ultimately show ?thesis using processLogs_all_ran assms(2) by blast
  qed (use c in auto)
qed

definition ex_bigint :: services where
  "ex_bigint = ex_services\<lparr>getLogs := (\<lambda>n a f t. Inr [ex_log 3 0 ''bigint''])\<rparr>"

theorem bigint_status_blocks_chunk_witness:
  "\<exists>e w'. scan_chunk ex_bigint ex_contract 8 0 ex_world = (Inl e, w') \<and>
     checkpoint_of (database w') (contract_address ex_contract) =
     checkpoint_of (database ex_world) (contract_address ex_contract)"
  by (rule bigint_status_blocks_chunk [where logs = "[ex_log 3 0 ''bigint'']" and
        lg = "ex_log 3 0 ''bigint''" and cid = 1 and st = 2])
    (simp_all add: ex_bigint_def ex_contract_def ex_abi_def ex_log_def)

text \<open>
  C32 (error). The raw event and the claim row are two statements, not one transaction. When the
  first runs and the second does not, the claim is lost: the handler fails, and every retry, with
  whatever services, finds the raw event, does nothing to the claims and sends no webhook.
\<close>

theorem claim_lost_between_statements:
  assumes "query_fates S (queries w) = Ran" and "query_fates S (Suc (queries w)) = NeverRan"
    and "\<not> seen (database w) (log_key lg)" and "int4 (log_index lg)" and "int8 (blockNumber lg)"
    and "onchain_claims (database w) cid = None"
  shows "\<exists>e w'. handleClaimSubmitted S lg cid pid who mroot amt ts a w = (Inl e, w') \<and>
     seen (database w') (log_key lg) \<and> onchain_claims (database w') cid = None \<and>
     (\<forall>S'. let w'' = snd (handleClaimSubmitted S' lg cid pid who mroot amt ts a w')
           in onchain_claims (database w'') cid = None \<and> posts w'' = posts w)"
proof -
  let ?h = "\<lambda>S. handleClaimSubmitted S lg cid pid who mroot amt ts a"
  let ?ev = "ClaimSubmitted cid pid who mroot amt ts"
  have h: "?h S v = once S lg (event_title ?ev) a (event_json ?ev) (aftermath S lg ?ev) v" for S v
    by (rule handler_once [of S ?ev, THEN fun_cong]) simp
  obtain t row where p: "persistRawEventOnce S lg (event_title ?ev) a (event_json ?ev) w = (Inr True, t)"
    and t: "queries t = Suc (queries w)" "posts t = posts w" "event_key row = log_key lg"
      "database t = (database w)\<lparr>onchain_events := onchain_events (database w) @ [row]\<rparr>"
    using persist_first_ran [OF assms(1,3-5), of "event_json ?ev"] by fastforce
  obtain w' where w': "aftermath S lg ?ev t = (Inl (Rejected ''query''), w')" "database w' = database t"
    "posts w' = posts t"
    using assms(2) t(1) by (simp add: getPool_then bind_m_app [of "pool_query _ _ _"] pool_query_never)
  have fails: "?h S w = (Inl (Rejected ''query''), w')"
    unfolding h once_def using p w'(1) by (simp add: bind_m_app)
  have seen: "seen (database w') (log_key lg)" using w'(2) t(3,4) by (simp add: seen_def)
  have claims: "onchain_claims (database w') = onchain_claims (database w)" using w'(2) t(4) by simp
  have "traces (snd (?h S' w')) = traces w'" for S'
    unfolding h by (rule once_skips [OF seen])
  with fails seen claims w'(3) t(2) assms(6) show ?thesis by (simp add: traces_def Let_def)
qed

text \<open>A database that takes the first statement and loses the second.\<close>

definition ex_unlucky :: services where
  "ex_unlucky = ex_services\<lparr>query_fates := (\<lambda>n. if n = 1 then NeverRan else Ran)\<rparr>"

theorem claim_lost_between_statements_witness:
  "\<exists>e w'. handleClaimSubmitted ex_unlucky ex_submitted 1 9 ''0xAb'' ''0x5eed'' 500 100 ''c'' ex_world =
       (Inl e, w') \<and> seen (database w') (log_key ex_submitted) \<and>
     onchain_claims (database w') 1 = None"
  using claim_lost_between_statements [of ex_unlucky ex_world ex_submitted 1 9 "''0xAb''" "''0x5eed''"
      500 100 "''c''"]
  by (auto simp: ex_unlucky_def ex_services_def ex_world_def empty_db_def seen_def ex_submitted_def
      ex_log_def int4_def int8_def)

text \<open>
  A webhook call that cannot be made (fetch rejects) fails the handler after its rows
  are stored, and the notification is never sent again: the retry of the log returns without a
  webhook call, for whatever services, as long as its query is answered.
\<close>

lemma rejected_webhook_is_not_retried:
  assumes "calm_database S" and "fetch S (fetches w) = FetchRejects m"
    and "backendUrl (config S) = Some url" and "\<not> seen (database w) (log_key lg)"
    and "int4 (log_index lg)" and "int8 (blockNumber lg)" and "int8 cid" and "int8 pid"
  shows "\<exists>w'. handleClaimSubmitted S lg cid pid who mroot amt ts a w = (Inl (Rejected m), w') \<and>
     onchain_claims (database w') cid \<noteq> None \<and> length (posts w') = Suc (length (posts w)) \<and>
     (\<forall>S'. calm_database S' \<longrightarrow>
        (\<exists>w''. handleClaimSubmitted S' lg cid pid who mroot amt ts a w' = (Inr (), w'') \<and>
           posts w'' = posts w'))"
proof -
  let ?ev = "ClaimSubmitted cid pid who mroot amt ts"
  let ?h = "\<lambda>S. handleClaimSubmitted S lg cid pid who mroot amt ts a"
  have h: "?h S v = once S lg (event_title ?ev) a (event_json ?ev) (aftermath S lg ?ev) v" for S v
    by (rule handler_once [of S ?ev, THEN fun_cong]) simp
  have j: "json_ok (event_json ?ev)" by simp
  obtain t row where p: "persistRawEventOnce S lg (event_title ?ev) a (event_json ?ev) w = (Inr True, t)"
    and t: "posts t = posts w" "fetches t = fetches w" "event_key row = log_key lg"
      "database t = (database w)\<lparr>onchain_events := onchain_events (database w) @ [row]\<rparr>"
    using persist_first_ran [OF _ assms(4-6) j, of S] assms(1) persist_fetches
    by (metis calm_database_def)
  obtain w' where w': "aftermath S lg ?ev t = (Inl (Rejected m), w')"
      "onchain_claims (database w') cid \<noteq> None" "onchain_events (database w') = onchain_events (database t)"
      "length (posts w') = Suc (length (posts t))"
    using aftermath_rejected [OF assms(1) _ assms(3) assms(6-8)] assms(2) t(2) by metis
  have fails: "?h S w = (Inl (Rejected m), w')"
    unfolding h once_def using p w'(1) by (simp add: bind_m_app)
  have seen: "seen (database w') (log_key lg)" using w'(3) t(3,4) by (simp add: seen_def)
  have "\<exists>w''. ?h S' w' = (Inr (), w'') \<and> posts w'' = posts w'" if "calm_database S'" for S'
  proof -
    have "once S' lg (event_title ?ev) a (event_json ?ev) m w' = (Inr (), snd (once S' lg (event_title ?ev) a (event_json ?ev) m w'))" for m
      using once_duplicate [OF _ assms(5,6) j seen] that by (metis calm_database_def snd_conv)
    with once_skips [OF seen] show ?thesis unfolding h traces_def by (metis prod.inject)
  qed
  with fails w' t(1) show ?thesis by auto
qed

definition ex_offline :: services where
  "ex_offline = ex_services\<lparr>fetch := (\<lambda>_. FetchRejects ''ECONNREFUSED'')\<rparr>"

lemma rejected_webhook_is_not_retried_example:
  "\<exists>w' w''. handleClaimSubmitted ex_offline ex_submitted 1 9 ''0xAb'' ''0x5eed'' 500 100 ''c'' ex_world =
       (Inl (Rejected ''ECONNREFUSED''), w') \<and> onchain_claims (database w') 1 \<noteq> None \<and>
     handleClaimSubmitted ex_services ex_submitted 1 9 ''0xAb'' ''0x5eed'' 500 100 ''c'' w' = (Inr (), w'') \<and>
     posts w'' = posts w'"
proof -
  have "calm_database ex_services" by (simp add: calm_database_def ex_services_def)
  moreover have "\<exists>w'. handleClaimSubmitted ex_offline ex_submitted 1 9 ''0xAb'' ''0x5eed'' 500 100 ''c''
        ex_world = (Inl (Rejected ''ECONNREFUSED''), w') \<and>
     onchain_claims (database w') 1 \<noteq> None \<and> length (posts w') = Suc (length (posts ex_world)) \<and>
     (\<forall>S'. calm_database S' \<longrightarrow> (\<exists>w''. handleClaimSubmitted S' ex_submitted 1 9 ''0xAb'' ''0x5eed''
        500 100 ''c'' w' = (Inr (), w'') \<and> posts w'' = posts w'))"
    by (rule rejected_webhook_is_not_retried)
      (simp_all add: ex_offline_def ex_services_def ex_config_def calm_database_def ex_world_def
        empty_db_def seen_def ex_submitted_def ex_log_def int4_def int8_def)
  ultimately show ?thesis by blast
qed

section \<open>Configuration\<close>

text \<open>
  The process starts exactly when the schema accepts the environment and a backend URL
  comes with its key; what it starts with has a positive chunk size and poll interval,
  non-negative block numbers, two addresses of 40 hex digits, and a key of 16 characters or more
  whenever there is a backend to notify.
\<close>

lemma indexer_starts_well_configured:
  "case indexer_loadConfig z env of
     Inl InvalidConfiguration \<Rightarrow> envSchema z env = None
   | Inl WebhookKeyMissing \<Rightarrow> \<exists>e. envSchema z env = Some e \<and> BACKEND_URL e \<noteq> None \<and>
       BACKEND_WEBHOOK_API_KEY e = None
   | Inr c \<Rightarrow> config_ok c \<and> env ''RPC_URL'' = Some (rpcUrl c) \<and>
       env ''DATABASE_URL'' = Some (databaseUrl c) \<and>
       env ''CLAIM_REGISTRY_ADDRESS'' = Some (claimRegistryAddress c) \<and>
       env ''INSURANCE_POLICY_ADDRESS'' = Some (insurancePolicyAddress c) \<and>
       env ''BACKEND_URL'' = backendUrl c \<and> env ''BACKEND_WEBHOOK_API_KEY'' = backendWebhookApiKey c \<and>
       (env ''BLOCK_RANGE_CHUNK_SIZE'' = None \<longrightarrow> blockRangeChunkSize c = 2000) \<and>
       (env ''REORG_SAFETY_BLOCKS'' = None \<longrightarrow> reorgSafetyBlocks c = 2)"
proof (cases "indexer_loadConfig z env")
  case (Inl x)
  then show ?thesis
    by (auto simp: indexer_loadConfig_def split: option.splits if_splits indexer_exit.splits)
next
  case (Inr c)
  with indexer_config_sound [OF Inr] indexer_config_source [OF Inr] show ?thesis by simp
qed

lemma indexer_starts_well_configured_example:
  "config_ok ex_config \<and> blockRangeChunkSize ex_config = 4 \<and> reorgSafetyBlocks ex_config = 2"
  using indexer_starts_well_configured [of ex_zod ex_env] unfolding ex_config_loads
  by (simp add: ex_config_def)

end
