(* ===== verification/Oracle_Config.thy ===== *)
theory Oracle_Config
  imports Zod_Env
begin

text \<open>
  \<^verbatim>\<open>src/oracle-service/src/config.js\<close>: the schema of the environment and \<^verbatim>\<open>loadConfig\<close>, with the
  choice of the relayer's key and the warning that goes with it.
\<close>

record oracle_env =
  or_RPC_URL :: string
  or_CHAIN_ID :: int
  ORACLE_ADAPTER_ADDRESS :: string
  ORACLE_SIGNER_PRIVATE_KEY :: string
  RELAYER_PRIVATE_KEY :: "string option"
  or_PORT :: int
  EIP712_DOMAIN_NAME :: string
  EIP712_DOMAIN_VERSION :: string
  ORACLE_SERVICE_API_KEY :: string

text \<open>\<^verbatim>\<open>.regex(..).optional().or(z.literal(''))\<close>: absent, a key, or the empty string.\<close>

definition relayer_field :: "string option \<Rightarrow> string option option" where
  "relayer_field v = (case optional (hex_field 64) v of
       Some x \<Rightarrow> Some x
     | None \<Rightarrow> (if v = Some [] then Some (Some []) else None))"

definition oracle_envSchema :: "zod \<Rightarrow> environment \<Rightarrow> oracle_env option" where
  "oracle_envSchema z env = do {
     rpc \<leftarrow> url_field z (env ''RPC_URL'');
     chain \<leftarrow> positive_int z (env ''CHAIN_ID'');
     adapter \<leftarrow> hex_field 40 (env ''ORACLE_ADAPTER_ADDRESS'');
     key \<leftarrow> hex_field 64 (env ''ORACLE_SIGNER_PRIVATE_KEY'');
     relayer \<leftarrow> relayer_field (env ''RELAYER_PRIVATE_KEY'');
     prt \<leftarrow> with_default (positive_int z) 4100 (env ''PORT'');
     name \<leftarrow> min_field 1 (env ''EIP712_DOMAIN_NAME'');
     version \<leftarrow> min_field 1 (env ''EIP712_DOMAIN_VERSION'');
     api \<leftarrow> min_field 16 (env ''ORACLE_SERVICE_API_KEY'');
     Some \<lparr>or_RPC_URL = rpc, or_CHAIN_ID = chain, ORACLE_ADAPTER_ADDRESS = adapter,
       ORACLE_SIGNER_PRIVATE_KEY = key, RELAYER_PRIVATE_KEY = relayer, or_PORT = prt,
       EIP712_DOMAIN_NAME = name, EIP712_DOMAIN_VERSION = version, ORACLE_SERVICE_API_KEY = api\<rparr> }"

record oracle_config =
  oc_rpcUrl :: string
  oc_chainId :: int
  oracleAdapterAddress :: string
  signerPrivateKey :: string
  relayerPrivateKey :: string
  port :: int
  eip712_name :: string
  eip712_version :: string
  apiKey :: string

text \<open>A string or \<^verbatim>\<open>undefined\<close> before \<^verbatim>\<open>||\<close>: the empty string is falsy too.\<close>

definition truthy_or :: "string option \<Rightarrow> string \<Rightarrow> string" where
  "truthy_or v d = (case v of None \<Rightarrow> d | Some s \<Rightarrow> if s = [] then d else s)"

text \<open>\<^verbatim>\<open>None\<close> is the exit of the process; the flag is the warning about the relayer's key.\<close>

definition oracle_loadConfig :: "zod \<Rightarrow> environment \<Rightarrow> (oracle_config \<times> bool) option" where
  "oracle_loadConfig z process_env = (case oracle_envSchema z process_env of
       None \<Rightarrow> None
     | Some env \<Rightarrow>
         let relayerKey = truthy_or (RELAYER_PRIVATE_KEY env) (ORACLE_SIGNER_PRIVATE_KEY env);
             warned = (relayerKey = ORACLE_SIGNER_PRIVATE_KEY env) in
         Some (\<lparr>oc_rpcUrl = or_RPC_URL env, oc_chainId = or_CHAIN_ID env,
           oracleAdapterAddress = ORACLE_ADAPTER_ADDRESS env,
           signerPrivateKey = ORACLE_SIGNER_PRIVATE_KEY env, relayerPrivateKey = relayerKey,
           port = or_PORT env, eip712_name = EIP712_DOMAIN_NAME env,
           eip712_version = EIP712_DOMAIN_VERSION env, apiKey = ORACLE_SERVICE_API_KEY env\<rparr>, warned))"

definition oracle_config_ok :: "oracle_config \<Rightarrow> bool" where
  "oracle_config_ok c \<longleftrightarrow> 0 < oc_chainId c \<and> 0 < port c \<and> hex_string 40 (oracleAdapterAddress c) \<and>
     hex_string 64 (signerPrivateKey c) \<and> hex_string 64 (relayerPrivateKey c) \<and>
     eip712_name c \<noteq> [] \<and> eip712_version c \<noteq> [] \<and> 16 \<le> length (apiKey c)"

lemma relayer_field_cases:
  assumes "relayer_field v = Some x"
  shows "x = v" and "v = Some s \<Longrightarrow> s \<noteq> [] \<Longrightarrow> hex_string 64 s"
  using assms
  by (auto simp: relayer_field_def optional_def hex_field_def bind_eq_Some_conv bind_eq_None_conv
      split: option.splits if_splits)

lemma oracle_envSchema_fields:
  assumes "oracle_envSchema z env = Some e"
  shows "0 < or_CHAIN_ID e" and "hex_string 40 (ORACLE_ADAPTER_ADDRESS e)"
    and "hex_string 64 (ORACLE_SIGNER_PRIVATE_KEY e)"
    and "relayer_field (env ''RELAYER_PRIVATE_KEY'') = Some (RELAYER_PRIVATE_KEY e)"
    and "0 < or_PORT e" and "1 \<le> length (EIP712_DOMAIN_NAME e)" and "1 \<le> length (EIP712_DOMAIN_VERSION e)"
    and "16 \<le> length (ORACLE_SERVICE_API_KEY e)"
  using assms by (auto simp: oracle_envSchema_def bind_eq_Some_conv intro: field_intros
      dest: min_fieldD)

lemma oracle_config_sound:
  assumes "oracle_loadConfig z env = Some (c, warned)"
  shows "oracle_config_ok c"
    and "warned \<longleftrightarrow> relayerPrivateKey c = signerPrivateKey c"
    and "relayerPrivateKey c = truthy_or (env ''RELAYER_PRIVATE_KEY'') (signerPrivateKey c)"
proof -
  from assms obtain e where e: "oracle_envSchema z env = Some e"
    and c: "c = \<lparr>oc_rpcUrl = or_RPC_URL e, oc_chainId = or_CHAIN_ID e,
           oracleAdapterAddress = ORACLE_ADAPTER_ADDRESS e,
           signerPrivateKey = ORACLE_SIGNER_PRIVATE_KEY e,
           relayerPrivateKey = truthy_or (RELAYER_PRIVATE_KEY e) (ORACLE_SIGNER_PRIVATE_KEY e),
           port = or_PORT e, eip712_name = EIP712_DOMAIN_NAME e,
           eip712_version = EIP712_DOMAIN_VERSION e, apiKey = ORACLE_SERVICE_API_KEY e\<rparr>"
    and w: "warned \<longleftrightarrow> truthy_or (RELAYER_PRIVATE_KEY e) (ORACLE_SIGNER_PRIVATE_KEY e) =
      ORACLE_SIGNER_PRIVATE_KEY e"
    by (auto simp: oracle_loadConfig_def Let_def split: option.splits)
  note f = oracle_envSchema_fields [OF e]
  note r = relayer_field_cases [OF f(4)]
  have "hex_string 64 (truthy_or (RELAYER_PRIVATE_KEY e) (ORACLE_SIGNER_PRIVATE_KEY e))"
    using f(3) r by (auto simp: truthy_or_def split: option.split)
  with f show "oracle_config_ok c" by (auto simp: c oracle_config_ok_def)
  show "warned \<longleftrightarrow> relayerPrivateKey c = signerPrivateKey c" by (simp add: c w)
  show "relayerPrivateKey c = truthy_or (env ''RELAYER_PRIVATE_KEY'') (signerPrivateKey c)"
    using r(1) by (simp add: c)
qed

end
