(* ===== verification/Oracle_Auth.thy ===== *)
theory Oracle_Auth
  imports Oracle_Config
begin

text \<open>
  \<^verbatim>\<open>src/oracle-service/src/auth.js\<close>: the shared-secret gate in front of \<^verbatim>\<open>/verify\<close>. It compares
  UTF-8 buffers in constant time, not strings, so what it accepts rests on the encoding being
  injective and on the length check that keeps \<^verbatim>\<open>timingSafeEqual\<close> from throwing.
\<close>

section \<open>Encodings\<close>

text \<open>\<^verbatim>\<open>Buffer.from(string)\<close> for code points below 256: one byte below 128, two from there on.\<close>

definition utf8_char :: "char \<Rightarrow> buffer" where
  "utf8_char c = (let n = of_char c :: nat in
     if n < 128 then [word_of_nat n] else [word_of_nat (192 + n div 64), word_of_nat (128 + n mod 64)])"

definition buffer_from :: "string \<Rightarrow> buffer" where
  "buffer_from s = concat (map utf8_char s)"

fun utf8_decode :: "buffer \<Rightarrow> string option" where
  "utf8_decode [] = Some []"
| "utf8_decode [b] = (if unat b < 128 then Some [char_of (unat b)] else None)"
| "utf8_decode (b # c # bs) = (if unat b < 128
     then map_option ((#) (char_of (unat b))) (utf8_decode (c # bs))
     else map_option ((#) (char_of (unat b mod 32 * 64 + unat c mod 64))) (utf8_decode bs))"

lemma of_char_less: "(of_char c :: nat) < 256"
  by (cases c) (auto simp: of_char_def horner_sum_simps split: if_splits)

lemma utf8_arith:
  fixes n :: nat
  assumes "n < 256"
  shows "192 + n div 64 < 256" and "(192 + n div 64) mod 32 * 64 + (128 + n mod 64) mod 64 = n"
proof -
  have q: "n div 64 < 4" using assms by (simp add: less_mult_imp_div_less)
  then show "192 + n div 64 < 256" by simp
  have "(192 + q) mod 32 = q" if "q < 4" for q :: nat
    using that mod_add_left_eq [of 192 32 q] by simp
  with q have "(192 + n div 64) mod 32 = n div 64" by blast
  moreover have "(128 + n mod 64) mod 64 = n mod 64" by (simp add: mod_add_left_eq [of 128 64 "n mod 64", symmetric] del: mod_add_left_eq)
  ultimately show "(192 + n div 64) mod 32 * 64 + (128 + n mod 64) mod 64 = n" by simp
qed

lemma utf8_decode_char: "utf8_decode (utf8_char c @ bs) = map_option ((#) c) (utf8_decode bs)"
proof (cases "(of_char c :: nat) < 128")
  case True
  then have "unat (word_of_nat (of_char c) :: byte) = of_char c" by (simp add: unat_of_nat)
  with True show ?thesis by (cases bs) (simp_all add: utf8_char_def Let_def)
next
  case False
  let ?n = "of_char c :: nat"
  have n: "128 \<le> ?n" "?n < 256" using False of_char_less [of c] by auto
  have byte: "unat (word_of_nat m :: byte) = m" if "m < 256" for m
    using that by (simp add: unat_of_nat)
  have hi: "unat (word_of_nat (192 + ?n div 64) :: byte) = 192 + ?n div 64"
    by (rule byte) (rule utf8_arith(1) [OF n(2)])
  have lo: "unat (word_of_nat (128 + ?n mod 64) :: byte) = 128 + ?n mod 64"
    by (rule byte) simp
  with utf8_arith(2) [OF n(2)] hi lo have "utf8_decode (word_of_nat (192 + ?n div 64) # word_of_nat (128 + ?n mod 64) # bs) =
      map_option ((#) c) (utf8_decode bs)"
    by (simp only: utf8_decode.simps) simp
  with False show ?thesis by (simp only: utf8_char_def Let_def if_False append.simps)
qed

interpretation utf8: codec buffer_from utf8_decode "\<lambda>_. True"
proof unfold_locales
  show "utf8_decode (buffer_from s) = Some s" for s
    by (induction s) (simp_all add: buffer_from_def utf8_decode_char)
qed

section \<open>The gate\<close>

record response =
  http_status :: int
  http_body :: js_value

datatype gate = Respond response | Next

text \<open>\<^verbatim>\<open>timingSafeEqual\<close> throws on buffers of different lengths.\<close>

definition timingSafeEqual :: "buffer \<Rightarrow> buffer \<Rightarrow> js_error + bool" where
  "timingSafeEqual a b = (if length a \<noteq> length b
     then Inl (JsError ''Input buffers must have the same byte length'') else Inr (a = b))"

definition error_body :: "string \<Rightarrow> js_value" where
  "error_body m = JObject [(''error'', JString m)]"

text \<open>The argument is \<^verbatim>\<open>req.header('X-Oracle-Service-Key')\<close>.\<close>

definition requireApiKey :: "oracle_config \<Rightarrow> string option \<Rightarrow> js_error + gate" where
  "requireApiKey cfg header = (case header of
       None \<Rightarrow> Inr (Respond \<lparr>http_status = 401, http_body = error_body ''missing_api_key''\<rparr>)
     | Some provided \<Rightarrow>
         if provided = [] then Inr (Respond \<lparr>http_status = 401, http_body = error_body ''missing_api_key''\<rparr>)
         else let providedBuf = buffer_from provided; expectedBuf = buffer_from (apiKey cfg);
                  lengthMatches = (length providedBuf = length expectedBuf) in
           bind_r (if lengthMatches then timingSafeEqual providedBuf expectedBuf else Inr False)
             (\<lambda>valuesMatch.
                if \<not> valuesMatch
                then Inr (Respond \<lparr>http_status = 401, http_body = error_body ''invalid_api_key''\<rparr>)
                else Inr Next))"

lemma requireApiKey_cases:
  "requireApiKey cfg header = Inr (case header of
       None \<Rightarrow> Respond \<lparr>http_status = 401, http_body = error_body ''missing_api_key''\<rparr>
     | Some k \<Rightarrow> if k = [] then Respond \<lparr>http_status = 401, http_body = error_body ''missing_api_key''\<rparr>
         else if k = apiKey cfg then Next
         else Respond \<lparr>http_status = 401, http_body = error_body ''invalid_api_key''\<rparr>)"
  by (auto simp: requireApiKey_def Let_def timingSafeEqual_def utf8.enc_inject split: option.split)

end
