(* ===== verification/Oracle_Server.thy ===== *)
theory Oracle_Server
  imports Oracle_Auth
begin

text \<open>
  The oracle service: \<^verbatim>\<open>src/oracle-service/src/verificationLogic.js\<close> (the decision rule),
  \<^verbatim>\<open>signer.js\<close> (the typed data and the wallets), \<^verbatim>\<open>chainClient.js\<close> (the relay) and \<^verbatim>\<open>server.js\<close>
  (request identifiers, the schema and the handlers).

  ethers, the node, the random generator and the clock are parameters. Drawing a request identifier
  loops until the draw is new, so it is a \<open>partial_function\<close>.
\<close>

section \<open>The decision rule\<close>

datatype reason = BadAmount | AboveThreshold js_num js_num | WithinThreshold

record decision =
  approved :: bool
  reason :: reason

definition MOCK_APPROVAL_THRESHOLD :: js_num where
  "MOCK_APPROVAL_THRESHOLD = js_int 100000"

definition evaluateClaim :: "js_value \<Rightarrow> decision" where
  "evaluateClaim declaredAmount = (case declaredAmount of
       JNumber x \<Rightarrow>
         if num_le x (js_int 0) then \<lparr>approved = False, reason = BadAmount\<rparr>
         else if num_less MOCK_APPROVAL_THRESHOLD x
         then \<lparr>approved = False, reason = AboveThreshold x MOCK_APPROVAL_THRESHOLD\<rparr>
         else \<lparr>approved = True, reason = WithinThreshold\<rparr>
     | _ \<Rightarrow> \<lparr>approved = False, reason = BadAmount\<rparr>)"

section \<open>The request schema\<close>

record verify_request =
  vr_claimId :: js_num
  vr_declaredAmount :: js_num
  vr_evidenceSummary :: "string option"

text \<open>\<^verbatim>\<open>z.number()\<close> takes every number but NaN, the infinities included.\<close>

definition number_field :: "js_value \<Rightarrow> js_num option" where
  "number_field v = (case v of JNumber x \<Rightarrow> if x = NaN then None else Some x | _ \<Rightarrow> None)"

definition optional_string_field :: "js_value \<Rightarrow> string option option" where
  "optional_string_field v = (case v of JUndefined \<Rightarrow> Some None | JString s \<Rightarrow> Some (Some s) | _ \<Rightarrow> None)"

definition verifyRequestSchema :: "js_value \<Rightarrow> verify_request option" where
  "verifyRequestSchema body = (case body of
       JObject kvs \<Rightarrow> do {
         c \<leftarrow> number_field (field body ''claimId'');
         _ \<leftarrow> guard (is_integer c \<and> num_less (js_int 0) c);
         a \<leftarrow> number_field (field body ''declaredAmount'');
         _ \<leftarrow> guard (num_less (js_int 0) a);
         e \<leftarrow> optional_string_field (field body ''evidenceSummary'');
         Some \<lparr>vr_claimId = c, vr_declaredAmount = a, vr_evidenceSummary = e\<rparr> }
     | _ \<Rightarrow> None)"

section \<open>Signing\<close>

definition ORACLE_RESPONSE_TYPES :: "(string \<times> string) list" where
  "ORACLE_RESPONSE_TYPES = [(''claimId'', ''uint256''), (''requestId'', ''bytes32''),
     (''approved'', ''bool''), (''timestamp'', ''uint256'')]"

record eip712_domain =
  domain_name :: string
  domain_version :: string
  domain_chainId :: int
  verifyingContract :: string

record oracle_payload =
  pl_claimId :: js_num
  pl_requestId :: string
  pl_approved :: bool
  pl_timestamp :: int

record wallet =
  wallet_key :: string
  wallet_address :: string

record receipt =
  receipt_hash :: string
  receipt_blockNumber :: int

record ethers =
  newWallet :: "string \<Rightarrow> js_error + wallet"
  wallet_signTypedData :: "wallet \<Rightarrow> eip712_domain \<Rightarrow> (string \<times> string) list \<Rightarrow> oracle_payload \<Rightarrow> js_error + string"
  verifyTypedData :: "eip712_domain \<Rightarrow> (string \<times> string) list \<Rightarrow> oracle_payload \<Rightarrow> string \<Rightarrow> js_error + string"
  sendVerification :: "nat \<Rightarrow> js_error + unit"
  waitReceipt :: "nat \<Rightarrow> js_error + receipt option"

definition buildDomain :: "oracle_config \<Rightarrow> eip712_domain" where
  "buildDomain cfg = \<lparr>domain_name = eip712_name cfg, domain_version = eip712_version cfg,
     domain_chainId = oc_chainId cfg, verifyingContract = oracleAdapterAddress cfg\<rparr>"

definition signOracleResponse :: "ethers \<Rightarrow> oracle_config \<Rightarrow> wallet \<Rightarrow> oracle_payload \<Rightarrow> js_error + string" where
  "signOracleResponse E cfg w payload =
     wallet_signTypedData E w (buildDomain cfg) ORACLE_RESPONSE_TYPES payload"

definition recoverSigner :: "ethers \<Rightarrow> oracle_config \<Rightarrow> oracle_payload \<Rightarrow> string \<Rightarrow> js_error + string" where
  "recoverSigner E cfg payload signature =
     verifyTypedData E (buildDomain cfg) ORACLE_RESPONSE_TYPES payload signature"

definition getSigningWallet :: "ethers \<Rightarrow> oracle_config \<Rightarrow> js_error + wallet" where
  "getSigningWallet E cfg = newWallet E (signerPrivateKey cfg)"

definition getRelayerWallet :: "ethers \<Rightarrow> oracle_config \<Rightarrow> js_error + wallet" where
  "getRelayerWallet E cfg = newWallet E (relayerPrivateKey cfg)"

section \<open>The state of the service\<close>

text \<open>A transaction that was sent: who sent it, to which contract, with which response and signature.\<close>

record submission =
  sub_sender :: string
  sub_target :: string
  sub_response :: oracle_payload
  sub_signature :: string

record oracle_world =
  issuedRequestIds :: "string set"
  draws :: nat
  ticks :: nat
  provider_made :: bool
  sends :: nat
  submissions :: "submission list"
  error_log :: "js_error list"

record oracle_services =
  cfg :: oracle_config
  randomBytes :: "nat \<Rightarrow> buffer"
  dateNow :: "nat \<Rightarrow> int"
  lib :: ethers

definition oracle_getProvider :: "(oracle_world, unit) jsm" where
  "oracle_getProvider = modify_m (\<lambda>w. if \<not> provider_made w then w\<lparr>provider_made := True\<rparr> else w)"

definition getOracleAdapterContract :: "oracle_services \<Rightarrow> (oracle_world, wallet \<times> string) jsm" where
  "getOracleAdapterContract S =
     bind_m oracle_getProvider (\<lambda>_.
     bind_m (lift_m (getRelayerWallet (lib S) (cfg S))) (\<lambda>relayer.
     ret_m (relayer, oracleAdapterAddress (cfg S))))"

text \<open>Sending and then waiting: a transaction that was sent stays sent when the wait fails.\<close>

definition send_transaction :: "oracle_services \<Rightarrow> wallet \<Rightarrow> string \<Rightarrow> oracle_payload \<Rightarrow> string \<Rightarrow> (oracle_world, nat) jsm" where
  "send_transaction S relayer target response signature = (\<lambda>w.
     let n = sends w; w1 = w\<lparr>sends := Suc n\<rparr> in
     case sendVerification (lib S) n of
       Inl e \<Rightarrow> (Inl e, w1)
     | Inr _ \<Rightarrow> (Inr n, w1\<lparr>submissions := submissions w1 @ [\<lparr>sub_sender = wallet_address relayer,
                 sub_target = target, sub_response = response, sub_signature = signature\<rparr>]\<rparr>))"

definition submitVerificationOnChain ::
  "oracle_services \<Rightarrow> oracle_payload \<Rightarrow> string \<Rightarrow> (oracle_world, receipt option) jsm" where
  "submitVerificationOnChain S response signature =
     bind_m (getOracleAdapterContract S) (\<lambda>(relayer, target).
     bind_m (send_transaction S relayer target response signature) (\<lambda>tx.
     lift_m (waitReceipt (lib S) tx)))"

section \<open>Request identifiers\<close>

definition drawn_id :: "oracle_services \<Rightarrow> nat \<Rightarrow> string" where
  "drawn_id S n = ''0x'' @ to_hex (randomBytes S n)"

partial_function (option) draw_loop :: "oracle_services \<Rightarrow> string set \<Rightarrow> nat \<Rightarrow> (string \<times> nat) option" where
  "draw_loop S issued n =
     (if drawn_id S n \<in> issued then draw_loop S issued (Suc n) else Some (drawn_id S n, Suc n))"

declare draw_loop.simps [code]

definition generateRequestId :: "oracle_services \<Rightarrow> oracle_world \<Rightarrow> (string \<times> oracle_world) option" where
  "generateRequestId S w = (case draw_loop S (issuedRequestIds w) (draws w) of
       None \<Rightarrow> None
     | Some (i, n) \<Rightarrow> Some (i, w\<lparr>issuedRequestIds := insert i (issuedRequestIds w), draws := n\<rparr>))"

section \<open>Handlers\<close>

definition health :: "oracle_services \<Rightarrow> response" where
  "health S = \<lparr>http_status = 200, http_body = JObject [(''status'', JString ''ok''),
     (''oracleAdapter'', JString (oracleAdapterAddress (cfg S))),
     (''chainId'', JNumber (js_int (oc_chainId (cfg S))))]\<rparr>"

definition reason_text :: "(js_num \<Rightarrow> string) \<Rightarrow> reason \<Rightarrow> string" where
  "reason_text num r = (case r of
       BadAmount \<Rightarrow> ''MOCK: missing or non-positive declaredAmount''
     | AboveThreshold x t \<Rightarrow> ''MOCK: declaredAmount '' @ num x @ '' exceeds placeholder threshold '' @ num t
     | WithinThreshold \<Rightarrow> ''MOCK: within placeholder threshold, no red flags'')"

definition nowSeconds :: "oracle_services \<Rightarrow> (oracle_world, int) jsm" where
  "nowSeconds S = (\<lambda>w. (Inr (dateNow S (ticks w) div 1000), w\<lparr>ticks := Suc (ticks w)\<rparr>))"

text \<open>The \<^verbatim>\<open>try\<close> block of \<^verbatim>\<open>/verify\<close> after the request identifier: stamp, sign, relay, answer.\<close>

definition sign_and_relay :: "oracle_services \<Rightarrow> (js_num \<Rightarrow> string) \<Rightarrow> js_num \<Rightarrow> decision \<Rightarrow> string \<Rightarrow>
  (oracle_world, response) jsm" where
  "sign_and_relay S num claim d requestId =
     bind_m (nowSeconds S) (\<lambda>ts.
     let payload = \<lparr>pl_claimId = claim, pl_requestId = requestId, pl_approved = approved d,
                    pl_timestamp = ts\<rparr> in
     bind_m oracle_getProvider (\<lambda>_.
     bind_m (lift_m (getSigningWallet (lib S) (cfg S))) (\<lambda>signer.
     bind_m (lift_m (signOracleResponse (lib S) (cfg S) signer payload)) (\<lambda>signature.
     bind_m (submitVerificationOnChain S payload signature) (\<lambda>rc.
     case rc of
       None \<Rightarrow> throw_m (JsTypeError ''Cannot read properties of null'')
     | Some r \<Rightarrow> ret_m \<lparr>http_status = 200, http_body = JObject
         [(''claimId'', JNumber claim), (''requestId'', JString requestId),
          (''approved'', JBool (approved d)), (''reason'', JString (reason_text num (reason d))),
          (''txHash'', JString (receipt_hash r)),
          (''blockNumber'', JNumber (js_int (receipt_blockNumber r)))]\<rparr>)))))"

definition relay_failed :: "js_error \<Rightarrow> (oracle_world, response) jsm" where
  "relay_failed e = (\<lambda>w. (Inr \<lparr>http_status = 502, http_body = JObject
     [(''error'', JString ''verification_or_relay_failed''), (''message'', JString (error_message e))]\<rparr>,
     w\<lparr>error_log := error_log w @ [e]\<rparr>))"

text \<open>
  \<^verbatim>\<open>POST /verify\<close> with the middleware in front of it. \<open>issues\<close> prints zod's error for the
  answer, \<open>num\<close> prints a number. \<open>None\<close> is a request that is never answered.
\<close>

definition post_verify :: "oracle_services \<Rightarrow> (js_num \<Rightarrow> string) \<Rightarrow> (js_value \<Rightarrow> js_value) \<Rightarrow>
  string option \<Rightarrow> js_value \<Rightarrow> oracle_world \<Rightarrow> ((js_error + response) \<times> oracle_world) option" where
  "post_verify S num issues header body w = (case requireApiKey (cfg S) header of
       Inl e \<Rightarrow> Some (Inl e, w)
     | Inr (Respond r) \<Rightarrow> Some (Inr r, w)
     | Inr Next \<Rightarrow> (case verifyRequestSchema body of
         None \<Rightarrow> Some (Inr \<lparr>http_status = 400, http_body = JObject
                   [(''error'', JString ''invalid_request''), (''details'', issues body)]\<rparr>, w)
       | Some req \<Rightarrow>
           let d = evaluateClaim (JNumber (vr_declaredAmount req)) in
           (case generateRequestId S w of
              None \<Rightarrow> None
            | Some (requestId, w1) \<Rightarrow>
                Some (try_m (sign_and_relay S num (vr_claimId req) d requestId) relay_failed w1))))"

end
