(* ===== verification/Oracle_Properties.thy ===== *)
theory Oracle_Properties
  imports Oracle_Server
begin

text \<open>
  What the oracle service promises for one request: who gets past its gate, what it decides, that its
  identifier is fresh, and what it signs and relays.
\<close>

section \<open>Sources of fresh identifiers\<close>

text \<open>
  What the handler relies on of the identifier source: an identifier is new when it is issued, and
  issuing it is the only thing that adds to the issued ones. Any sequence of issues is then free
  of repetitions.
\<close>

locale id_source =
  fixes issue :: "'w \<Rightarrow> ('i \<times> 'w) option" and issued :: "'w \<Rightarrow> 'i set"
  assumes issue_fresh: "issue w = Some (i, w') \<Longrightarrow> i \<notin> issued w"
    and issue_adds: "issue w = Some (i, w') \<Longrightarrow> issued w' = insert i (issued w)"
begin

lemma issued_grows: "issue w = Some (i, w') \<Longrightarrow> k \<in> issued w \<Longrightarrow> k \<in> issued w'"
  by (simp add: issue_adds)

lemma issue_extends:
  assumes "issue w = Some (i, w')" and "distinct ks" and "set ks \<subseteq> issued w"
  shows "distinct (ks @ [i])" and "set (ks @ [i]) \<subseteq> issued w'"
  using assms issue_fresh [OF assms(1)] issue_adds [OF assms(1)] by auto

end

lemma draw_loop_fresh:
  assumes "draw_loop S issued n = Some y"
  shows "fst y \<notin> issued"
proof (rule draw_loop.raw_induct [OF _ assms, where P = "\<lambda>S issued n y. fst y \<notin> issued"])
  fix loop S issued n y
  assume IH: "\<And>S issued n y. loop S issued n = Some y \<Longrightarrow> fst y \<notin> issued"
    and step: "(if drawn_id S n \<in> issued then loop S issued (Suc n) else Some (drawn_id S n, Suc n)) = Some y"
  show "fst y \<notin> issued"
    using step IH by (cases "drawn_id S n \<in> issued") auto
qed

interpretation ids: id_source "generateRequestId S" issuedRequestIds for S
proof unfold_locales
  fix w i w'
  assume "generateRequestId S w = Some (i, w')"
  then show "i \<notin> issuedRequestIds w" "issuedRequestIds w' = insert i (issuedRequestIds w)"
    by (auto simp: generateRequestId_def split: option.splits dest!: draw_loop_fresh)
qed

lemma draw_loop_returns:
  assumes "drawn_id S (n + k) \<notin> issued"
  shows "\<exists>j \<le> k. draw_loop S issued n = Some (drawn_id S (n + j), Suc (n + j)) \<and>
     drawn_id S (n + j) \<notin> issued \<and> (\<forall>i < j. drawn_id S (n + i) \<in> issued)"
  using assms
proof (induction k arbitrary: n)
  case 0
  then show ?case by (auto simp: draw_loop.simps [of S issued n])
next
  case (Suc k)
  show ?case
  proof (cases "drawn_id S n \<in> issued")
    case False
    then show ?thesis by (intro exI [of _ 0]) (auto simp: draw_loop.simps [of S issued n])
  next
    case True
    from Suc.IH [of "Suc n"] Suc.prems obtain j where j: "j \<le> k"
      "draw_loop S issued (Suc n) = Some (drawn_id S (Suc n + j), Suc (Suc n + j))"
      "drawn_id S (Suc n + j) \<notin> issued" "\<forall>i < j. drawn_id S (Suc n + i) \<in> issued" by auto
    have "\<forall>i < Suc j. drawn_id S (n + i) \<in> issued"
      using True j(4) by (auto simp: less_Suc_eq_0_disj)
    with True j show ?thesis
      by (intro exI [of _ "Suc j"]) (simp add: draw_loop.simps [of S issued n])
  qed
qed

lemma drawn_id_format:
  assumes "length (randomBytes S n) = 32"
  shows "hex_string 64 (drawn_id S n)"
proof -
  have "list_all (\<lambda>c. digit_val c \<noteq> None) (to_hex bs)" for bs
  proof (induction bs)
    case (Cons b bs)
    have "unat b div 16 < 16" using unat_byte_less [of b] by simp
    with Cons show ?case by (simp add: digit_val_char)
  qed simp
  with assms show ?thesis by (simp add: hex_string_def drawn_id_def)
qed

section \<open>One request\<close>

lemma sign_and_relay_effect:
  assumes "sign_and_relay S num claim d requestId w = (r, w')"
  shows "issuedRequestIds w' = issuedRequestIds w" and "draws w' = draws w"
    and "submissions w' = submissions w \<and> (\<nexists>x. r = Inr x) \<or>
      (\<exists>signer relayer ts sig. getSigningWallet (lib S) (cfg S) = Inr signer \<and>
         getRelayerWallet (lib S) (cfg S) = Inr relayer \<and> ts = dateNow S (ticks w) div 1000 \<and>
         signOracleResponse (lib S) (cfg S) signer \<lparr>pl_claimId = claim, pl_requestId = requestId,
           pl_approved = approved d, pl_timestamp = ts\<rparr> = Inr sig \<and>
         submissions w' = submissions w @ [\<lparr>sub_sender = wallet_address relayer,
           sub_target = oracleAdapterAddress (cfg S),
           sub_response = \<lparr>pl_claimId = claim, pl_requestId = requestId,
             pl_approved = approved d, pl_timestamp = ts\<rparr>, sub_signature = sig\<rparr>] \<and>
         (\<forall>x. r = Inr x \<longrightarrow> http_status x = 200))"
  using assms
  by (auto simp: sign_and_relay_def nowSeconds_def submitVerificationOnChain_def
      getOracleAdapterContract_def oracle_getProvider_def send_transaction_def Let_def effect_simps
      split: sum.splits option.splits prod.splits if_splits)

lemma try_relay:
  assumes "try_m (sign_and_relay S num claim d i) relay_failed w = (r, w')"
  obtains x q v where "r = Inr x" "sign_and_relay S num claim d i w = (q, v)"
    "issuedRequestIds w' = issuedRequestIds v" "draws w' = draws v" "submissions w' = submissions v"
    "case q of Inl e \<Rightarrow> http_status x = 502 \<and> error_log w' = error_log v @ [e] | Inr y \<Rightarrow> x = y \<and> w' = v"
  using assms
  by (cases "sign_and_relay S num claim d i w")
    (auto simp: try_m_app relay_failed_def split: sum.splits)

text \<open>A request that passes the gate and the schema, with the one submission it may make.\<close>

definition response_for :: "oracle_services \<Rightarrow> verify_request \<Rightarrow> string \<Rightarrow> int \<Rightarrow> oracle_payload" where
  "response_for S req i ts = \<lparr>pl_claimId = vr_claimId req, pl_requestId = i,
     pl_approved = approved (evaluateClaim (JNumber (vr_declaredAmount req))), pl_timestamp = ts\<rparr>"

definition genuine :: "oracle_services \<Rightarrow> submission \<Rightarrow> bool" where
  "genuine S s \<longleftrightarrow> (\<exists>signer relayer. getSigningWallet (lib S) (cfg S) = Inr signer \<and>
     getRelayerWallet (lib S) (cfg S) = Inr relayer \<and> sub_sender s = wallet_address relayer \<and>
     sub_target s = oracleAdapterAddress (cfg S) \<and>
     signOracleResponse (lib S) (cfg S) signer (sub_response s) = Inr (sub_signature s))"

lemma post_verify_accepted:
  assumes run: "post_verify S num issues (Some (apiKey (cfg S))) body w = Some (r, w')"
    and key: "apiKey (cfg S) \<noteq> []" and req: "verifyRequestSchema body = Some req"
  obtains i w1 x where "generateRequestId S w = Some (i, w1)" "r = Inr x"
    "issuedRequestIds w' = issuedRequestIds w1" "submissions w1 = submissions w"
    "http_status x = 502 \<and> submissions w' = submissions w \<or>
     (\<exists>s ts. submissions w' = submissions w @ [s] \<and> sub_response s = response_for S req i ts \<and>
        genuine S s \<and> http_status x \<in> {200, 502})"
proof -
  let ?d = "evaluateClaim (JNumber (vr_declaredAmount req))"
  from run key req obtain i w1 where g: "generateRequestId S w = Some (i, w1)"
    and t: "try_m (sign_and_relay S num (vr_claimId req) ?d i) relay_failed w1 = (r, w')"
    by (auto simp: post_verify_def requireApiKey_cases Let_def split: option.splits)
  have w1: "submissions w1 = submissions w"
    using g by (auto simp: generateRequestId_def split: option.splits)
  from t obtain x q v where x: "r = Inr x" "sign_and_relay S num (vr_claimId req) ?d i w1 = (q, v)"
    "issuedRequestIds w' = issuedRequestIds v" "submissions w' = submissions v"
    "case q of Inl e \<Rightarrow> http_status x = 502 \<and> error_log w' = error_log v @ [e] | Inr y \<Rightarrow> x = y \<and> w' = v"
    by (rule try_relay)
  note eff = sign_and_relay_effect [OF x(2)]
  have "http_status x = 502 \<and> submissions w' = submissions w \<or>
     (\<exists>s ts. submissions w' = submissions w @ [s] \<and> sub_response s = response_for S req i ts \<and>
        genuine S s \<and> http_status x \<in> {200, 502})"
    using eff(3) x(4,5) w1
    by (cases q) (force simp: genuine_def response_for_def)+
  with that [OF g x(1) _ w1] x(3) eff(1) show thesis by simp
qed

section \<open>The promises\<close>

text \<open>
  C23 (functional). The gate lets a request through exactly when the header is the configured key,
  character for character; every other request, with no header, an empty one or another key, is
  answered 401 and never makes the comparison throw.
\<close>

theorem gate_is_exact:
  assumes "oracle_loadConfig z env = Some (c, warned)"
  shows "(requireApiKey c header = Inr Next \<longleftrightarrow> header = Some (apiKey c)) \<and>
     (header \<noteq> Some (apiKey c) \<longrightarrow> (\<exists>r. requireApiKey c header = Inr (Respond r) \<and> http_status r = 401))"
proof -
  have "apiKey c \<noteq> []" using oracle_config_sound(1) [OF assms] by (auto simp: oracle_config_ok_def)
  then show ?thesis by (auto simp: requireApiKey_cases split: option.split)
qed

definition ex_oracle_zod :: zod where
  "ex_oracle_zod = \<lparr>isUrl = (\<lambda>s. take 4 s = ''http''),
     coerceNumber = (\<lambda>s. case parse_dec s of Some n \<Rightarrow> js_int n | None \<Rightarrow> NaN)\<rparr>"

definition ex_oracle_env :: environment where
  "ex_oracle_env = map_of [(''RPC_URL'', ''http://node''), (''CHAIN_ID'', ''7''),
     (''ORACLE_ADAPTER_ADDRESS'', ''0x'' @ replicate 40 (CHR ''a'')),
     (''ORACLE_SIGNER_PRIVATE_KEY'', ''0x'' @ replicate 64 (CHR ''1'')),
     (''RELAYER_PRIVATE_KEY'', []), (''EIP712_DOMAIN_NAME'', ''DICS-OracleAdapter''),
     (''EIP712_DOMAIN_VERSION'', ''1''), (''ORACLE_SERVICE_API_KEY'', ''0123456789abcdef'')]"

definition ex_oracle_config :: oracle_config where
  "ex_oracle_config = \<lparr>oc_rpcUrl = ''http://node'', oc_chainId = 7,
     oracleAdapterAddress = ''0x'' @ replicate 40 (CHR ''a''),
     signerPrivateKey = ''0x'' @ replicate 64 (CHR ''1''),
     relayerPrivateKey = ''0x'' @ replicate 64 (CHR ''1''), port = 4100, eip712_name = ''DICS-OracleAdapter'',
     eip712_version = ''1'', apiKey = ''0123456789abcdef''\<rparr>"

lemma ex_oracle_loads: "oracle_loadConfig ex_oracle_zod ex_oracle_env = Some (ex_oracle_config, True)"
  by code_simp

theorem gate_is_exact_witness:
  "requireApiKey ex_oracle_config (Some ''0123456789abcdef'') = Inr Next \<and>
   requireApiKey ex_oracle_config (Some ''0123456789abcdeF'') \<noteq> Inr Next"
  using gate_is_exact [OF ex_oracle_loads, of "Some ''0123456789abcdef''"]
    gate_is_exact [OF ex_oracle_loads, of "Some ''0123456789abcdeF''"]
  by (simp add: ex_oracle_config_def)

text \<open>
  A request that does not carry the key, or whose body the schema rejects, changes
  nothing: no identifier is drawn, nothing is signed and nothing is sent. It is answered 401 or 400.
\<close>

lemma rejected_requests_do_nothing:
  assumes "oracle_loadConfig z env = Some (cfg S, warned)"
    and "header \<noteq> Some (apiKey (cfg S)) \<or> verifyRequestSchema body = None"
  shows "\<exists>r. post_verify S num issues header body w = Some (Inr r, w) \<and>
     http_status r = (if header \<noteq> Some (apiKey (cfg S)) then 401 else 400)"
proof -
  have "apiKey (cfg S) \<noteq> []" using oracle_config_sound(1) [OF assms(1)] by (auto simp: oracle_config_ok_def)
  with assms(2) show ?thesis
    by (cases header) (auto simp: post_verify_def requireApiKey_cases)
qed

text \<open>A service with deterministic signatures, an honest node and a counting random source.\<close>

definition ex_sign :: "wallet \<Rightarrow> eip712_domain \<Rightarrow> (string \<times> string) list \<Rightarrow> oracle_payload \<Rightarrow> js_error + string" where
  "ex_sign w d ty p = Inr (pl_requestId p @ wallet_address w)"

definition ex_ethers :: ethers where
  "ex_ethers = \<lparr>newWallet = (\<lambda>k. Inr \<lparr>wallet_key = k, wallet_address = take 4 k\<rparr>),
     wallet_signTypedData = ex_sign, verifyTypedData = (\<lambda>d ty p s. Inr (drop (length (pl_requestId p)) s)),
     sendVerification = (\<lambda>_. Inr ()),
     waitReceipt = (\<lambda>_. Inr (Some \<lparr>receipt_hash = ''0xbeef'', receipt_blockNumber = 12\<rparr>))\<rparr>"

definition ex_oracle :: oracle_services where
  "ex_oracle = \<lparr>cfg = ex_oracle_config, randomBytes = (\<lambda>n. replicate 31 0 @ [word_of_nat (n div 2)]),
     dateNow = (\<lambda>n. 1700000000000 + int n), lib = ex_ethers\<rparr>"

definition ex_oracle_world :: oracle_world where
  "ex_oracle_world = \<lparr>issuedRequestIds = {}, draws = 0, ticks = 0, provider_made = False, sends = 0,
     submissions = [], error_log = []\<rparr>"

definition ex_body :: js_value where
  "ex_body = JObject [(''claimId'', JNumber (js_int 5)), (''declaredAmount'', JNumber (js_int 250))]"

lemma ex_oracle_cfg: "cfg ex_oracle = ex_oracle_config"
  by (simp add: ex_oracle_def)

lemma rejected_requests_do_nothing_example:
  "\<exists>r. post_verify ex_oracle (\<lambda>_. []) id None ex_body ex_oracle_world = Some (Inr r, ex_oracle_world) \<and>
     http_status r = 401"
  using rejected_requests_do_nothing [of ex_oracle_zod ex_oracle_env ex_oracle True None ex_body
      "\<lambda>_. []" id ex_oracle_world]
  by (simp add: ex_oracle_cfg ex_oracle_loads)

text \<open>
  C24 (termination). Drawing a request identifier returns as soon as the random source delivers one
  value that was not issued: the identifier is the first such draw, 0x and 64 hex digits, it was not
  issued before and it is now, and nothing else of the service's state changes but the position in
  the random source.
\<close>

theorem generateRequestId_first_fresh:
  assumes "drawn_id S (draws w + k) \<notin> issuedRequestIds w" and "\<forall>n. length (randomBytes S n) = 32"
  shows "\<exists>j \<le> k. generateRequestId S w = Some (drawn_id S (draws w + j),
       w\<lparr>issuedRequestIds := insert (drawn_id S (draws w + j)) (issuedRequestIds w),
         draws := Suc (draws w + j)\<rparr>) \<and>
     drawn_id S (draws w + j) \<notin> issuedRequestIds w \<and>
     (\<forall>i < j. drawn_id S (draws w + i) \<in> issuedRequestIds w) \<and>
     hex_string 64 (drawn_id S (draws w + j))"
  using draw_loop_returns [OF assms(1)] drawn_id_format [OF assms(2) [rule_format]]
  by (auto simp: generateRequestId_def)

definition ex_busy_world :: oracle_world where
  "ex_busy_world = ex_oracle_world\<lparr>issuedRequestIds := {drawn_id ex_oracle 0}\<rparr>"

lemma ex_second_draw: "drawn_id ex_oracle 2 \<notin> {drawn_id ex_oracle 0}"
  by code_simp

theorem generateRequestId_first_fresh_witness:
  "\<exists>j i w'. generateRequestId ex_oracle ex_busy_world = Some (i, w') \<and>
     i = drawn_id ex_oracle j \<and> i \<notin> issuedRequestIds ex_busy_world"
proof -
  have "drawn_id ex_oracle (draws ex_busy_world + 2) \<notin> issuedRequestIds ex_busy_world"
    using ex_second_draw by (simp add: ex_busy_world_def ex_oracle_world_def numeral_2_eq_2)
  moreover have "\<forall>n. length (randomBytes ex_oracle n) = 32" by (simp add: ex_oracle_def)
  ultimately show ?thesis using generateRequestId_first_fresh by blast
qed

text \<open>
  C22 (functional). A request with the key and a valid body is always answered once an identifier
  can be drawn, with 200 or 502 and never an exception. It sends at most one transaction: to the
  configured adapter, from the relayer, carrying the response for that claim with a fresh
  identifier and the decision for that amount, signed by the signing wallet. A 200 means it was sent.
\<close>

theorem accepted_request_relays_its_decision:
  assumes "oracle_loadConfig z env = Some (cfg S, warned)" and "verifyRequestSchema body = Some req"
    and "drawn_id S (draws w + k) \<notin> issuedRequestIds w"
  shows "\<exists>x w' i. post_verify S num issues (Some (apiKey (cfg S))) body w = Some (Inr x, w') \<and>
     i \<notin> issuedRequestIds w \<and> issuedRequestIds w' = insert i (issuedRequestIds w) \<and>
     (http_status x = 502 \<and> submissions w' = submissions w \<or>
      http_status x \<in> {200, 502} \<and> (\<exists>s ts. submissions w' = submissions w @ [s] \<and>
         sub_response s = response_for S req i ts \<and> genuine S s))"
proof -
  have key: "apiKey (cfg S) \<noteq> []"
    using oracle_config_sound(1) [OF assms(1)] by (auto simp: oracle_config_ok_def)
  obtain i0 w0 where "generateRequestId S w = Some (i0, w0)"
    using draw_loop_returns [OF assms(3)] by (auto simp: generateRequestId_def)
  then have "post_verify S num issues (Some (apiKey (cfg S))) body w \<noteq> None"
    using key assms(2) by (simp add: post_verify_def requireApiKey_cases Let_def)
  then obtain r w' where run: "post_verify S num issues (Some (apiKey (cfg S))) body w = Some (r, w')"
    by auto
  from run key assms(2) obtain i w1 x where g: "generateRequestId S w = Some (i, w1)" and "r = Inr x"
    "issuedRequestIds w' = issuedRequestIds w1" "submissions w1 = submissions w"
    "http_status x = 502 \<and> submissions w' = submissions w \<or>
     (\<exists>s ts. submissions w' = submissions w @ [s] \<and> sub_response s = response_for S req i ts \<and>
        genuine S s \<and> http_status x \<in> {200, 502})"
    by (rule post_verify_accepted)
  with run ids.issue_fresh [OF g] ids.issue_adds [OF g] show ?thesis by blast
qed

lemma ex_body_valid: "verifyRequestSchema ex_body =
    Some \<lparr>vr_claimId = js_int 5, vr_declaredAmount = js_int 250, vr_evidenceSummary = None\<rparr>"
  by code_simp

theorem accepted_request_relays_its_decision_witness:
  "\<exists>x w'. post_verify ex_oracle (\<lambda>_. []) id (Some (apiKey (cfg ex_oracle))) ex_body ex_oracle_world =
     Some (Inr x, w') \<and> http_status x \<in> {200, 502}"
  using accepted_request_relays_its_decision [OF _ ex_body_valid, of ex_oracle_zod ex_oracle_env
      ex_oracle True ex_oracle_world 0 "\<lambda>_. []" id]
  by (auto simp: ex_oracle_cfg ex_oracle_loads ex_oracle_world_def)

text \<open>
  The rule approves exactly the numbers that are neither at most zero nor above
  100000, which of the non-finite ones is NaN alone; for a body the schema accepts that means
  amounts above 0 and up to 100000, so no signed approval ever covers an infinite or undefined
  amount, and an approval has the matching reason.
\<close>

lemma decision_rule:
  "approved (evaluateClaim v) = (\<exists>x. v = JNumber x \<and>
     (x = NaN \<or> (\<exists>q. x = Fin q \<and> 0 < q \<and> q \<le> 100000))) \<and>
   (approved (evaluateClaim v) \<longleftrightarrow> reason (evaluateClaim v) = WithinThreshold) \<and>
   (\<forall>body req. verifyRequestSchema body = Some req \<longrightarrow>
      (approved (evaluateClaim (JNumber (vr_declaredAmount req))) \<longleftrightarrow>
       (\<exists>q. vr_declaredAmount req = Fin q \<and> 0 < q \<and> q \<le> 100000)) \<and>
      (\<exists>n > 0. vr_claimId req = js_int n))"
proof (intro conjI allI impI)
  have rule: "approved (evaluateClaim v) = (\<exists>x. v = JNumber x \<and>
     (x = NaN \<or> (\<exists>q. x = Fin q \<and> 0 < q \<and> q \<le> 100000)))" for v
  proof (cases v)
    case (JNumber x)
    then show ?thesis
      by (cases x) (auto simp: evaluateClaim_def MOCK_APPROVAL_THRESHOLD_def js_int_def)
  qed (simp_all add: evaluateClaim_def)
  show "approved (evaluateClaim v) = (\<exists>x. v = JNumber x \<and>
     (x = NaN \<or> (\<exists>q. x = Fin q \<and> 0 < q \<and> q \<le> 100000)))" by (rule rule)
  show "approved (evaluateClaim v) \<longleftrightarrow> reason (evaluateClaim v) = WithinThreshold"
    by (simp add: evaluateClaim_def split: js_value.split)
  fix body req
  assume schema: "verifyRequestSchema body = Some req"
  then have amount: "vr_declaredAmount req \<noteq> NaN" "num_less (js_int 0) (vr_declaredAmount req)"
    and claim: "is_integer (vr_claimId req)" "num_less (js_int 0) (vr_claimId req)"
    by (auto simp: verifyRequestSchema_def bind_eq_Some_conv number_field_def
        split: js_value.splits if_splits)
  show "approved (evaluateClaim (JNumber (vr_declaredAmount req))) \<longleftrightarrow>
       (\<exists>q. vr_declaredAmount req = Fin q \<and> 0 < q \<and> q \<le> 100000)"
    using amount by (auto simp: rule)
  from claim(1) obtain q where q: "vr_claimId req = Fin q" "snd (quotient_of q) = 1"
    by (cases "vr_claimId req") auto
  then have "q = of_int (fst (quotient_of q))" by (metis quotient_of_div prod.collapse div_by_1 of_int_1)
  with q claim(2) show "\<exists>n > 0. vr_claimId req = js_int n"
    by (intro exI [of _ "fst (quotient_of q)"]) (auto simp: js_int_def)
qed

lemma decision_rule_example:
  "approved (evaluateClaim (JNumber (js_int 250))) \<and> (\<exists>n > 0. js_int 5 = js_int n)"
  using decision_rule [of "JNumber (js_int 250)"] ex_body_valid
  by (auto simp: js_int_def)

text \<open>
  The service starts only with a positive chain id and port, an adapter address of 40
  hex digits, two private keys of 64, a non-empty signing domain and an API key of 16 characters or
  more. The relayer's key is the variable when it is set and not empty and the signer's key
  otherwise, and the warning is printed exactly when the two keys are equal, which includes a
  relayer key that is set to the signer's.
\<close>

lemma oracle_starts_well_configured:
  assumes "oracle_loadConfig z env = Some (c, warned)"
  shows "oracle_config_ok c \<and> (warned \<longleftrightarrow> relayerPrivateKey c = signerPrivateKey c) \<and>
     (warned \<longleftrightarrow> env ''RELAYER_PRIVATE_KEY'' \<in> {None, Some [], Some (signerPrivateKey c)})"
proof -
  note c = oracle_config_sound [OF assms]
  have "signerPrivateKey c \<noteq> []" using c(1) by (auto simp: oracle_config_ok_def hex_string_def)
  with c show ?thesis by (auto simp: truthy_or_def split: option.splits if_splits)
qed

lemma oracle_starts_well_configured_example:
  "oracle_config_ok ex_oracle_config \<and> relayerPrivateKey ex_oracle_config = signerPrivateKey ex_oracle_config"
  using oracle_starts_well_configured [OF ex_oracle_loads] by blast

end
