(* ===== verification/Safe_Der.thy ===== *)
theory Safe_Der
  imports Js_Values
begin

unbundle bit_operations_syntax

text \<open>
  \<^verbatim>\<open>src/safe-ops/src/derUtils.js\<close>: the DER reader for the public keys and signatures that AWS KMS
  returns. It is modelled with JavaScript's own rules where the bytes run out: an index beyond the
  buffer reads \<^verbatim>\<open>undefined\<close>, arithmetic on it is NaN, bit operations turn it into 0 and are 32 bits
  wide, and \<^verbatim>\<open>subarray\<close> clamps its bounds and counts negative ones from the end.

  The specification is the encoder of X.690 for the two structures; the reader is its inverse.
\<close>

section \<open>Buffers as JavaScript reads them\<close>

text \<open>A number used as an offset; \<open>None\<close> is NaN.\<close>

type_synonym offset = "int option"

definition plus_off :: "offset \<Rightarrow> offset \<Rightarrow> offset" where
  "plus_off a b = (case (a, b) of (Some x, Some y) \<Rightarrow> Some (x + y) | _ \<Rightarrow> None)"

definition byte_at :: "buffer \<Rightarrow> offset \<Rightarrow> byte option" where
  "byte_at buf off = (case off of None \<Rightarrow> None
     | Some i \<Rightarrow> if 0 \<le> i \<and> i < int (length buf) then Some (buf ! nat i) else None)"

definition adjust_offset :: "nat \<Rightarrow> offset \<Rightarrow> nat" where
  "adjust_offset n off = (case off of None \<Rightarrow> 0
     | Some i \<Rightarrow> if i < 0 then nat (i + int n) else min (nat i) n)"

definition subarray :: "buffer \<Rightarrow> offset \<Rightarrow> offset \<Rightarrow> buffer" where
  "subarray buf s e = (let a = adjust_offset (length buf) s; b = adjust_offset (length buf) e in
     take (b - a) (drop a buf))"

lemma plus_off_Some [simp]: "plus_off (Some x) (Some y) = Some (x + y)"
  by (simp add: plus_off_def)

section \<open>The reader\<close>

record tlv_header =
  tag :: "byte option"
  tlv_length :: offset
  valueOffset :: offset

text \<open>The loop over the length bytes: \<^verbatim>\<open>length = (length << 8) | buf[offset + 2 + i]\<close>, 32 bits wide.\<close>

fun long_length :: "buffer \<Rightarrow> offset \<Rightarrow> nat \<Rightarrow> 32 word \<Rightarrow> 32 word" where
  "long_length buf pos 0 acc = acc"
| "long_length buf pos (Suc k) acc = long_length buf (plus_off pos (Some 1)) k
     (push_bit 8 acc OR (case byte_at buf pos of None \<Rightarrow> 0 | Some b \<Rightarrow> ucast b))"

definition readTlvHeader :: "buffer \<Rightarrow> offset \<Rightarrow> tlv_header" where
  "readTlvHeader buf off =
     (let t = byte_at buf off; lengthByte = byte_at buf (plus_off off (Some 1)) in
      case lengthByte of
        None \<Rightarrow> \<lparr>tag = t, tlv_length = None, valueOffset = plus_off off (Some 2)\<rparr>
      | Some b \<Rightarrow>
          if b AND 0x80 = 0
          then \<lparr>tag = t, tlv_length = Some (int (unat b)), valueOffset = plus_off off (Some 2)\<rparr>
          else let numLengthBytes = unat (b AND 0x7f) in
            \<lparr>tag = t,
             tlv_length = Some (sint (long_length buf (plus_off off (Some 2)) numLengthBytes 0)),
             valueOffset = plus_off off (Some (2 + int numLengthBytes))\<rparr>)"

definition publicKeyFromKmsDer :: "buffer \<Rightarrow> js_error + buffer" where
  "publicKeyFromKmsDer der =
     (let outer = readTlvHeader der (Some 0) in
      if tag outer \<noteq> Some 0x30
      then Inl (JsError ''Expected outer SEQUENCE (0x30) in KMS public key DER'')
      else let algIdHeader = readTlvHeader der (valueOffset outer);
               bitStringOffset = plus_off (valueOffset algIdHeader) (tlv_length algIdHeader);
               bitString = readTlvHeader der bitStringOffset in
        if tag bitString \<noteq> Some 0x03
        then Inl (JsError ''Expected BIT STRING (0x03) for the public key point'')
        else let pointStart = plus_off (valueOffset bitString) (Some 2);
                 rawPoint = subarray der pointStart (plus_off pointStart (Some 64)) in
          if length rawPoint \<noteq> 64
          then Inl (JsError (''Expected a 64-byte uncompressed EC point, got '' @
                 dec (int (length rawPoint)) @ '' bytes''))
          else Inr rawPoint)"

definition toPadded32 :: "buffer \<Rightarrow> js_error + buffer" where
  "toPadded32 rawBytes =
     (let bytes = (if length rawBytes = 33 \<and> rawBytes ! 0 = 0 then drop 1 rawBytes else rawBytes) in
      if 32 < length bytes
      then Inl (JsError (''Integer value too long after stripping sign byte: '' @
             dec (int (length bytes)) @ '' bytes''))
      else Inr (replicate (32 - length bytes) 0 @ bytes))"

definition signatureFromKmsDer :: "buffer \<Rightarrow> js_error + buffer \<times> buffer" where
  "signatureFromKmsDer der =
     (let outer = readTlvHeader der (Some 0) in
      if tag outer \<noteq> Some 0x30
      then Inl (JsError ''Expected outer SEQUENCE (0x30) in KMS signature DER'')
      else let rHeader = readTlvHeader der (valueOffset outer);
               sOffset = plus_off (valueOffset rHeader) (tlv_length rHeader);
               rRaw = subarray der (valueOffset rHeader) sOffset;
               sHeader = readTlvHeader der sOffset;
               sRaw = subarray der (valueOffset sHeader) (plus_off (valueOffset sHeader) (tlv_length sHeader)) in
        bind_r (toPadded32 rRaw) (\<lambda>r. bind_r (toPadded32 sRaw) (\<lambda>s. Inr (r, s))))"

section \<open>The specification: the encoder\<close>

text \<open>Big-endian bytes, without leading zeros and with a fixed width.\<close>

fun be_bytes :: "nat \<Rightarrow> buffer" where
  "be_bytes n = (if n = 0 then [] else be_bytes (n div 256) @ [word_of_nat (n mod 256)])"

declare be_bytes.simps [simp del]

definition be_fixed :: "nat \<Rightarrow> nat \<Rightarrow> buffer" where
  "be_fixed k n = replicate (k - length (be_bytes n)) 0 @ be_bytes n"

definition der_length :: "nat \<Rightarrow> buffer" where
  "der_length n = (if n < 128 then [word_of_nat n]
     else word_of_nat (128 + length (be_bytes n)) # be_bytes n)"

definition der_tlv :: "byte \<Rightarrow> buffer \<Rightarrow> buffer" where
  "der_tlv t v = t # der_length (length v) @ v"

text \<open>A non-negative INTEGER: minimal, with a sign byte when the top bit is set.\<close>

definition der_integer :: "nat \<Rightarrow> buffer" where
  "der_integer n = der_tlv 0x02 (case be_bytes n of [] \<Rightarrow> [0]
     | b # bs \<Rightarrow> if 128 \<le> unat b then 0 # b # bs else b # bs)"

definition der_signature :: "nat \<Rightarrow> nat \<Rightarrow> buffer" where
  "der_signature r s = der_tlv 0x30 (der_integer r @ der_integer s)"

definition der_spki :: "buffer \<Rightarrow> buffer \<Rightarrow> buffer" where
  "der_spki algorithm point =
     der_tlv 0x30 (der_tlv 0x30 algorithm @ der_tlv 0x03 (0x00 # 0x04 # point))"

section \<open>Reading a header back\<close>

lemma be_bytes_0 [simp]: "be_bytes 0 = []"
  by (simp add: be_bytes.simps)

lemma be_nat_be_bytes [simp]: "be_nat (be_bytes n) = n"
proof (induction n rule: be_bytes.induct)
  case (1 n)
  show ?case
  proof (cases "n = 0")
    case False
    have "unat (word_of_nat (n mod 256) :: byte) = n mod 256" by (simp add: unat_of_nat)
    with False 1 show ?thesis
      by (subst be_bytes.simps) (simp add: be_nat_append be_nat_Cons)
  qed simp
qed

lemma length_be_bytes: "n < 256 ^ k \<Longrightarrow> length (be_bytes n) \<le> k"
proof (induction k arbitrary: n)
  case 0
  then show ?case by simp
next
  case (Suc k)
  show ?case
  proof (cases "n = 0")
    case False
    from Suc.prems have "n div 256 < 256 ^ k" by (simp add: less_mult_imp_div_less mult.commute)
    from Suc.IH [OF this] False show ?thesis by (subst be_bytes.simps) simp
  qed simp
qed

lemma be_nat_inject: "length xs = length ys \<Longrightarrow> be_nat xs = be_nat ys \<Longrightarrow> xs = ys"
proof (induction xs ys rule: list_induct2)
  case (Cons x xs y ys)
  let ?p = "256 ^ length ys :: nat"
  have b: "be_nat xs < ?p" "be_nat ys < ?p"
    using be_nat_bound [of xs] be_nat_bound [of ys] Cons.hyps by simp_all
  from Cons.prems Cons.hyps have eq: "unat x * ?p + be_nat xs = unat y * ?p + be_nat ys"
    by (simp add: be_nat_Cons)
  from arg_cong [OF eq, of "\<lambda>n. n div ?p"] b have "unat x = unat y" by simp
  moreover with eq have "be_nat xs = be_nat ys" by simp
  ultimately show ?case using Cons.IH by (simp add: unsigned_word_eqI)
qed simp

lemma short_form: "n < 128 \<Longrightarrow> (word_of_nat n :: byte) AND 0x80 = 0 \<and> unat (word_of_nat n :: byte) = n"
proof -
  assume n: "n < 128"
  have "\<forall>m \<in> set [0..<128]. (word_of_nat m :: byte) AND 0x80 = 0" by code_simp
  with n show ?thesis by (auto simp: unat_of_nat)
qed

lemma long_form:
  "k \<le> 4 \<Longrightarrow> (word_of_nat (128 + k) :: byte) AND 0x80 \<noteq> 0 \<and> unat ((word_of_nat (128 + k) :: byte) AND 0x7f) = k"
proof -
  assume "k \<le> 4"
  then have "k \<in> set [0..<5]" by auto
  moreover have "\<forall>k \<in> set [0..<5]. (word_of_nat (128 + k) :: byte) AND 0x80 \<noteq> 0 \<and>
      unat ((word_of_nat (128 + k) :: byte) AND 0x7f) = k" by code_simp
  ultimately show ?thesis by blast
qed

lemma shift_in_byte: "push_bit 8 (acc :: 32 word) OR ucast (b :: byte) = acc * 256 + ucast b"
proof -
  have "push_bit 8 acc AND ucast b = 0"
    by (rule bit_word_eqI) (auto simp: bit_simps dest: bit_imp_le_length)
  then have "push_bit 8 acc OR ucast b = push_bit 8 acc + ucast b"
    by (simp add: disjunctive_add_eq_or)
  then show ?thesis by (simp add: push_bit_eq_mult)
qed

lemma byte_at_append: "byte_at (pre @ b # post) (Some (int (length pre))) = Some b"
  by (simp add: byte_at_def)

lemma long_length_reads:
  "long_length (pre @ bs @ post) (Some (int (length pre))) (length bs) acc =
     acc * 256 ^ length bs + word_of_nat (be_nat bs)"
proof (induction bs arbitrary: pre acc)
  case Nil
  then show ?case by simp
next
  case (Cons b bs)
  have "byte_at (pre @ (b # bs) @ post) (Some (int (length pre))) = Some b"
    by (simp add: byte_at_append)
  moreover have "pre @ (b # bs) @ post = (pre @ [b]) @ bs @ post" by simp
  moreover have "plus_off (Some (int (length pre))) (Some 1) = Some (int (length (pre @ [b])))" by simp
  ultimately have "long_length (pre @ (b # bs) @ post) (Some (int (length pre))) (length (b # bs)) acc =
      long_length ((pre @ [b]) @ bs @ post) (Some (int (length (pre @ [b])))) (length bs)
        (acc * 256 + ucast b)"
    by (simp add: shift_in_byte add.commute)
  also have "\<dots> = (acc * 256 + ucast b) * 256 ^ length bs + word_of_nat (be_nat bs)"
    by (rule Cons.IH)
  also have "(ucast b :: 32 word) = word_of_nat (unat b)" by simp
  finally show ?case by (simp add: be_nat_Cons algebra_simps)
qed

lemma read_header:
  assumes "length v < 2 ^ 31"
  shows "readTlvHeader (pre @ der_tlv t v @ post) (Some (int (length pre))) =
     \<lparr>tag = Some t, tlv_length = Some (int (length v)),
      valueOffset = Some (int (length pre + 1 + length (der_length (length v))))\<rparr>"
proof (cases "length v < 128")
  case True
  let ?l = "word_of_nat (length v) :: byte"
  have buf: "pre @ der_tlv t v @ post = (pre @ [t]) @ ?l # v @ post"
    using True by (simp add: der_tlv_def der_length_def)
  have "byte_at (pre @ der_tlv t v @ post) (Some (int (length pre))) = Some t"
    by (simp add: der_tlv_def byte_at_append)
  moreover have "byte_at (pre @ der_tlv t v @ post) (Some (int (length pre) + 1)) = Some ?l"
    using byte_at_append [of "pre @ [t]"] unfolding buf by (simp add: add.commute)
  ultimately show ?thesis using short_form [OF True] True
    by (simp add: readTlvHeader_def Let_def der_length_def)
next
  case False
  let ?bs = "be_bytes (length v)"
  let ?l = "word_of_nat (128 + length ?bs) :: byte"
  have k: "length ?bs \<le> 4" using assms by (intro length_be_bytes) simp
  have buf: "pre @ der_tlv t v @ post = (pre @ [t]) @ ?l # ?bs @ v @ post"
    "pre @ der_tlv t v @ post = (pre @ [t, ?l]) @ ?bs @ (v @ post)"
    using False by (simp_all add: der_tlv_def der_length_def)
  have "byte_at (pre @ der_tlv t v @ post) (Some (int (length pre))) = Some t"
    by (simp add: der_tlv_def byte_at_append)
  moreover have "byte_at (pre @ der_tlv t v @ post) (Some (int (length pre) + 1)) = Some ?l"
    using byte_at_append [of "pre @ [t]"] unfolding buf(1) by (simp add: add.commute)
  moreover have "long_length (pre @ der_tlv t v @ post) (Some (int (length pre) + 2)) (length ?bs) 0 =
      word_of_nat (length v)"
    using long_length_reads [of "pre @ [t, ?l]" ?bs "v @ post" 0] unfolding buf(2)
    by (simp add: add.commute)
  moreover have "sint (word_of_nat (length v) :: 32 word) = int (length v)"
    using assms by (simp add: signed_of_nat signed_take_bit_int_eq_self)
  ultimately show ?thesis using long_form [OF k] False
    by (simp add: readTlvHeader_def Let_def der_length_def del: of_nat_add)
qed

section \<open>Reading the structures back\<close>

lemma subarray_middle:
  "subarray (pre @ v @ post) (Some (int (length pre))) (Some (int (length pre) + int (length v))) = v"
  by (simp add: subarray_def adjust_offset_def nat_add_distrib)

lemma header_split: "der_tlv t v = (t # der_length (length v)) @ v"
  by (simp add: der_tlv_def)

text \<open>What a well-formed element of a larger buffer reads as: its header, its value, what follows.\<close>

lemma read_value:
  assumes "length v < 2 ^ 31" and "h = readTlvHeader (pre @ der_tlv t v @ post) (Some (int (length pre)))"
  shows "tag h = Some t"
    and "subarray (pre @ der_tlv t v @ post) (valueOffset h) (plus_off (valueOffset h) (tlv_length h)) = v"
    and "plus_off (valueOffset h) (tlv_length h) = Some (int (length (pre @ der_tlv t v)))"
    and "valueOffset h = Some (int (length (pre @ t # der_length (length v))))"
proof -
  note h = read_header [OF assms(1), of pre t post, folded assms(2)]
  show "tag h = Some t" by (simp add: h)
  show "valueOffset h = Some (int (length (pre @ t # der_length (length v))))" by (simp add: h)
  show "plus_off (valueOffset h) (tlv_length h) = Some (int (length (pre @ der_tlv t v)))"
    by (simp add: h der_tlv_def)
  have "pre @ der_tlv t v @ post = (pre @ t # der_length (length v)) @ v @ post"
    by (simp add: der_tlv_def)
  with subarray_middle [of "pre @ t # der_length (length v)" v post]
  show "subarray (pre @ der_tlv t v @ post) (valueOffset h) (plus_off (valueOffset h) (tlv_length h)) = v"
    by (simp add: h algebra_simps)
qed

definition integer_value :: "nat \<Rightarrow> buffer" where
  "integer_value n = (case be_bytes n of [] \<Rightarrow> [0]
     | b # bs \<Rightarrow> if 128 \<le> unat b then 0 # b # bs else b # bs)"

lemma der_integer_tlv: "der_integer n = der_tlv 0x02 (integer_value n)"
  by (simp add: der_integer_def integer_value_def)

lemma length_integer_value:
  assumes "n < 256 ^ 32"
  shows "length (integer_value n) \<le> 33"
  using length_be_bytes [OF assms] by (auto simp: integer_value_def split: list.split)

lemma toPadded32_integer:
  assumes "n < 256 ^ 32"
  shows "toPadded32 (integer_value n) = Inr (be_fixed 32 n)"
proof (cases "be_bytes n")
  case Nil
  have "replicate 31 0 @ [0] = replicate 32 (0 :: byte)"
    by (simp add: replicate_append_same flip: replicate_Suc)
  with Nil show ?thesis by (simp add: toPadded32_def integer_value_def be_fixed_def)
next
  case (Cons b bs)
  have len: "length (b # bs) \<le> 32" using length_be_bytes [OF assms] Cons by simp
  show ?thesis
  proof (cases "128 \<le> unat b")
    case True
    show ?thesis
    proof (cases "length (b # bs) = 32")
      case False
      with len have less: "length bs < 31" by simp
      then obtain k where k: "32 - length (b # bs) = Suc k" by (cases "32 - length (b # bs)") auto
      then have "32 - Suc (Suc (length bs)) = k" by simp
      with k less True Cons show ?thesis
        by (simp add: toPadded32_def integer_value_def be_fixed_def replicate_append_same
            flip: replicate_Suc append_Cons)
    qed (use True Cons in \<open>simp add: toPadded32_def integer_value_def be_fixed_def\<close>)
  next
    case False
    with len Cons show ?thesis by (simp add: toPadded32_def integer_value_def be_fixed_def Let_def)
  qed
qed

lemma signature_reads_back:
  assumes "r < 256 ^ 32" and "s < 256 ^ 32"
  shows "signatureFromKmsDer (der_signature r s) = Inr (be_fixed 32 r, be_fixed 32 s)"
proof -
  let ?R = "der_integer r" and ?Z = "der_integer s"
  let ?pre = "0x30 # der_length (length (?R @ ?Z))"
  have small: "length (der_integer n) \<le> 35" if "n < 256 ^ 32" for n
    using length_integer_value [OF that]
    by (simp add: der_integer_tlv der_tlv_def der_length_def)
  have ints: "length (integer_value r) < 2 ^ 31" "length (integer_value s) < 2 ^ 31"
    using length_integer_value [OF assms(1)] length_integer_value [OF assms(2)] by simp_all
  have body: "length (?R @ ?Z) < 2 ^ 31" using small [OF assms(1)] small [OF assms(2)] by simp
  have whole: "der_signature r s = [] @ der_tlv 0x30 (?R @ ?Z) @ []"
    by (simp add: der_signature_def)
  have atR: "der_signature r s = ?pre @ der_tlv 0x02 (integer_value r) @ ?Z"
    by (simp add: der_signature_def der_tlv_def der_integer_tlv)
  have atZ: "der_signature r s = (?pre @ der_tlv 0x02 (integer_value r)) @ der_tlv 0x02 (integer_value s) @ []"
    by (simp add: der_signature_def der_tlv_def der_integer_tlv)
  note outer = read_value [OF body refl, of "[]" "0x30" "[]", folded whole]
  note R = read_value [OF ints(1) refl, of ?pre "0x02" ?Z, folded atR]
  note Z = read_value [OF ints(2) refl, of "?pre @ der_tlv 0x02 (integer_value r)" "0x02" "[]", folded atZ]
  show ?thesis
    unfolding signatureFromKmsDer_def Let_def
    using outer(1,4) R(2,3) Z(2) toPadded32_integer [OF assms(1)] toPadded32_integer [OF assms(2)]
    by simp
qed

lemma be_nat_be_fixed [simp]: "be_nat (be_fixed k n) = n"
  by (simp add: be_fixed_def be_nat_append)

lemma length_be_fixed: "n < 256 ^ k \<Longrightarrow> length (be_fixed k n) = k"
  using length_be_bytes [of n k] by (simp add: be_fixed_def)

definition read_signature :: "buffer \<Rightarrow> (nat \<times> nat) option" where
  "read_signature der = (case signatureFromKmsDer der of
     Inl _ \<Rightarrow> None | Inr (r, s) \<Rightarrow> Some (be_nat r, be_nat s))"

interpretation der: codec "\<lambda>(r, s). der_signature r s" read_signature
  "\<lambda>(r, s). r < 256 ^ 32 \<and> s < 256 ^ 32"
  by unfold_locales (auto simp: read_signature_def signature_reads_back)

lemma public_key_reads_back:
  assumes "length point = 64" and "length algorithm < 2 ^ 30"
  shows "publicKeyFromKmsDer (der_spki algorithm point) = Inr point"
proof -
  let ?A = "der_tlv 0x30 algorithm" and ?v = "0x00 # 0x04 # point"
  let ?B = "der_tlv 0x03 ?v"
  let ?pre = "0x30 # der_length (length (?A @ ?B))"
  have "length (der_length n) \<le> 5" if "n < 2 ^ 31" for n
    using that length_be_bytes [of n 4] by (simp add: der_length_def)
  from this [of "length algorithm"] assms have body: "length (?A @ ?B) < 2 ^ 31"
    by (simp add: der_tlv_def der_length_def)
  have v: "length ?v < 2 ^ 31" and alg: "length algorithm < 2 ^ 31" using assms by simp_all
  have whole: "der_spki algorithm point = [] @ der_tlv 0x30 (?A @ ?B) @ []"
    by (simp add: der_spki_def)
  have atA: "der_spki algorithm point = ?pre @ der_tlv 0x30 algorithm @ ?B"
    by (simp add: der_spki_def der_tlv_def)
  have atB: "der_spki algorithm point = (?pre @ ?A) @ der_tlv 0x03 ?v @ []"
    by (simp add: der_spki_def der_tlv_def)
  have atP: "der_spki algorithm point =
      (?pre @ ?A @ 0x03 # der_length (length ?v) @ [0x00, 0x04]) @ point @ []"
    by (simp add: der_spki_def der_tlv_def)
  note outer = read_value [OF body refl, of "[]" "0x30" "[]", folded whole]
  note A = read_value [OF alg refl, of ?pre "0x30" ?B, folded atA]
  note B = read_value [OF v refl, of "?pre @ ?A" "0x03" "[]", folded atB]
  define P where "P = ?pre @ ?A @ 0x03 # der_length (length ?v) @ [0x00, 0x04]"
  have start: "plus_off (valueOffset (readTlvHeader (der_spki algorithm point)
      (Some (int (length (?pre @ ?A)))))) (Some 2) = Some (int (length P))"
    unfolding B(4) by (simp add: P_def)
  have point: "subarray (der_spki algorithm point) (Some (int (length P))) (Some (int (length P) + 64)) = point"
    using subarray_middle [of P point "[]"] atP assms(1) by (simp add: P_def)
  show ?thesis
    unfolding publicKeyFromKmsDer_def Let_def
    using outer(1,4) A(3) B(1) start point assms(1) by simp
qed

section \<open>The promises\<close>



text \<open>
  C33 (roundtrip). For every algorithm identifier and every 64-byte point, reading the DER encoding
  of the public key gives the point: the identifier is skipped whatever its length form.
\<close>

theorem public_key_roundtrip:
  assumes "length point = 64" and "length algorithm < 2 ^ 30"
  shows "publicKeyFromKmsDer (der_spki algorithm point) = Inr point"
  using assms by (rule public_key_reads_back)

theorem public_key_roundtrip_witness:
  "publicKeyFromKmsDer (der_spki [0x06, 0x01, 0x2a] (replicate 64 7)) = Inr (replicate 64 7)"
  by (rule public_key_roundtrip) simp_all

text \<open>
  Whatever bytes come, the readers never return anything of another size: a signature
  that is accepted is two buffers of 32 bytes, a public key one of 64, and both start with the
  SEQUENCE tag.
\<close>

lemma accepted_der_sizes:
  "(\<forall>r s. signatureFromKmsDer buf = Inr (r, s) \<longrightarrow>
      length r = 32 \<and> length s = 32 \<and> buf \<noteq> [] \<and> hd buf = 0x30) \<and>
   (\<forall>p. publicKeyFromKmsDer buf = Inr p \<longrightarrow> length p = 64 \<and> buf \<noteq> [] \<and> hd buf = 0x30)"
proof -
  have tag: "tag (readTlvHeader buf (Some 0)) = Some t \<Longrightarrow> buf \<noteq> [] \<and> hd buf = t" for t
    by (auto simp: readTlvHeader_def Let_def byte_at_def hd_conv_nth split: option.splits if_splits)
  have pad: "toPadded32 b = Inr p \<Longrightarrow> length p = 32" for b p
    by (auto simp: toPadded32_def Let_def split: if_splits)
  show ?thesis
    by (auto simp: signatureFromKmsDer_def publicKeyFromKmsDer_def Let_def bind_r_Inr
        split: if_splits dest: pad dest!: tag)
qed

lemma accepted_der_sizes_example:
  "length (be_fixed 32 (2 ^ 255)) = 32"
  using accepted_der_sizes [of "der_signature (2 ^ 255) 7"] signature_reads_back [of "2 ^ 255" 7]
  by simp

text \<open>
  C34 (error). A truncated signature is not refused: a buffer that ends after the SEQUENCE tag, or
  after its length byte, is read as the signature with r and s zero, because indices beyond the
  end read undefined, the offsets become NaN and the slices come out empty.
\<close>

theorem truncated_signature_reads_as_zero:
  "signatureFromKmsDer [0x30] = Inr (replicate 32 0, replicate 32 0) \<and>
   (\<forall>n < 128. signatureFromKmsDer [0x30, word_of_nat n] = Inr (replicate 32 0, replicate 32 0))"
proof -
  have "signatureFromKmsDer [0x30, word_of_nat n] = Inr (replicate 32 0, replicate 32 0)" if "n < 128" for n
    using short_form [OF that]
    by (simp add: signatureFromKmsDer_def readTlvHeader_def byte_at_def Let_def subarray_def
        adjust_offset_def toPadded32_def plus_off_def)
  moreover have "signatureFromKmsDer [0x30] = Inr (replicate 32 0, replicate 32 0)" by code_simp
  ultimately show ?thesis by blast
qed

theorem truncated_signature_reads_as_zero_witness:
  "signatureFromKmsDer [0x30, 70] = Inr (replicate 32 0, replicate 32 0)"
  using conjunct2 [OF truncated_signature_reads_as_zero, rule_format, of 70] by simp

end
