(* ===== verification/Safe_Kms.thy ===== *)
theory Safe_Kms
  imports Safe_Der
begin

text \<open>
  \<^verbatim>\<open>src/safe-ops/src/kmsSigner.js\<close>: the signer whose key stays in AWS KMS. The KMS service and the
  cryptography of ethers (address derivation, public-key recovery, hashing, signature and
  transaction encoding) are parameters. The signer's own work is modelled: its address cache, the
  commands it sends, the low-s normalisation over unbounded integers, the printing of r and s and
  the search for the recovery id.
\<close>

definition SECP256K1_N :: int where
  "SECP256K1_N = 0xFFFFFFFFFFFFFFFFFFFFFFFFFFFFFFFEBAAEDCE6AF48A03BBFD25E8CD0364141"

definition SECP256K1_HALF_N :: int where
  "SECP256K1_HALF_N = SECP256K1_N div 2"

record ecdsa_sig =
  sig_r :: string
  sig_s :: string
  sig_v :: int

record tx_request =
  tx_from :: "string option"
  tx_fields :: string

text \<open>A message to sign is text or bytes; typed data is its domain, its types by name and its message.\<close>

datatype sign_data = MessageText string | MessageBytes buffer

record typed_data =
  td_domain :: string
  td_types :: "(string \<times> string) list"
  td_message :: string

record unsigned_tx =
  unsignedSerialized :: string

record kms_lib =
  kms_getPublicKey :: "nat \<Rightarrow> string option \<Rightarrow> js_error + buffer"
  kms_sign :: "nat \<Rightarrow> string option \<Rightarrow> buffer \<Rightarrow> js_error + buffer"
  computeAddress :: "string \<Rightarrow> js_error + string"
  signature_from :: "string \<Rightarrow> string \<Rightarrow> int \<Rightarrow> js_error + ecdsa_sig"
  recoverAddress :: "string \<Rightarrow> ecdsa_sig \<Rightarrow> js_error + string"
  sig_serialized :: "ecdsa_sig \<Rightarrow> string"
  hashMessage :: "sign_data \<Rightarrow> string"
  hashTypedData :: "typed_data \<Rightarrow> js_error + string"
  resolveProperties :: "tx_request \<Rightarrow> js_error + tx_request"
  transactionFrom :: "tx_request \<Rightarrow> js_error + unsigned_tx"
  keccak256 :: "string \<Rightarrow> string"
  tx_serialized :: "unsigned_tx \<Rightarrow> ecdsa_sig \<Rightarrow> string"

text \<open>
  The commands sent to KMS: key, and for a signature the message, its type and the algorithm. The
  key id may be \<^verbatim>\<open>undefined\<close>, when a caller reads past the end of its list of keys.
\<close>

datatype kms_command =
    GetPublicKeyCommand "string option"
  | SignCommand "string option" buffer string string

record kms_signer =
  keyId :: "string option"
  cachedAddress :: "string option"
  kms_calls :: "kms_command list"

type_synonym 'a kms = "(kms_signer, 'a) jsm"

definition new_KmsSigner :: "string option \<Rightarrow> kms_signer" where
  "new_KmsSigner k = \<lparr>keyId = k, cachedAddress = None, kms_calls = []\<rparr>"

text \<open>\<^verbatim>\<open>connect\<close>: the same client and key, a fresh cache. The log of commands belongs to the client.\<close>

definition connect :: "kms_signer \<Rightarrow> kms_signer" where
  "connect s = (new_KmsSigner (keyId s))\<lparr>kms_calls := kms_calls s\<rparr>"

definition kms_send :: "kms_command \<Rightarrow> (nat \<Rightarrow> js_error + 'a) \<Rightarrow> 'a kms" where
  "kms_send c answer = (\<lambda>s. (answer (length (kms_calls s)), s\<lparr>kms_calls := kms_calls s @ [c]\<rparr>))"

definition getAddress :: "kms_lib \<Rightarrow> string kms" where
  "getAddress K = bind_m (gets_m cachedAddress) (\<lambda>cached.
     if (case cached of Some a \<Rightarrow> a \<noteq> [] | None \<Rightarrow> False) then ret_m (the cached)
     else bind_m (gets_m keyId) (\<lambda>k.
       bind_m (kms_send (GetPublicKeyCommand k) (\<lambda>n. kms_getPublicKey K n k)) (\<lambda>pk.
       bind_m (lift_m (publicKeyFromKmsDer pk)) (\<lambda>rawPoint.
       bind_m (lift_m (computeAddress K (''0x04'' @ to_hex rawPoint))) (\<lambda>a.
       bind_m (modify_m (\<lambda>s. s\<lparr>cachedAddress := Some a\<rparr>)) (\<lambda>_. ret_m a))))))"

definition recovers :: "kms_lib \<Rightarrow> string \<Rightarrow> string \<Rightarrow> string \<Rightarrow> string \<Rightarrow> int \<Rightarrow> js_error + bool" where
  "recovers K digestHex rHex sHex expectedAddress recoveryId =
     bind_r (signature_from K rHex sHex (27 + recoveryId)) (\<lambda>candidate.
     bind_r (recoverAddress K digestHex candidate) (\<lambda>recovered.
     Inr (toLowerCase recovered = toLowerCase expectedAddress)))"

fun find_recovery_in :: "kms_lib \<Rightarrow> string \<Rightarrow> string \<Rightarrow> string \<Rightarrow> string \<Rightarrow> int list \<Rightarrow> js_error + int" where
  "find_recovery_in K digestHex rHex sHex a [] = Inl (JsError
     ''Could not determine a valid recovery id - signature does not match this signer's address'')"
| "find_recovery_in K digestHex rHex sHex a (i # is) =
     bind_r (recovers K digestHex rHex sHex a i) (\<lambda>ok.
     if ok then Inr i else find_recovery_in K digestHex rHex sHex a is)"

definition findRecoveryId :: "kms_lib \<Rightarrow> string \<Rightarrow> string \<Rightarrow> string \<Rightarrow> string \<Rightarrow> js_error + int" where
  "findRecoveryId K digestHex rHex sHex expectedAddress =
     find_recovery_in K digestHex rHex sHex expectedAddress [0, 1]"

definition low_s :: "int \<Rightarrow> int" where
  "low_s s = (if s > SECP256K1_HALF_N then SECP256K1_N - s else s)"

definition hex32 :: "int \<Rightarrow> string" where
  "hex32 n = ''0x'' @ padStart 64 (CHR ''0'') (hex n)"

definition signDigest :: "kms_lib \<Rightarrow> string \<Rightarrow> ecdsa_sig kms" where
  "signDigest K digestHex =
     (let digestBytes = from_hex (drop 2 digestHex) in
      if length digestBytes \<noteq> 32
      then throw_m (JsError (''_signDigest expects a 32-byte digest, got '' @
             dec (int (length digestBytes)) @ '' bytes''))
      else
      bind_m (gets_m keyId) (\<lambda>k.
      bind_m (kms_send (SignCommand k digestBytes ''DIGEST'' ''ECDSA_SHA_256'')
               (\<lambda>n. kms_sign K n k digestBytes)) (\<lambda>der.
      bind_m (lift_m (signatureFromKmsDer der)) (\<lambda>(r, sRaw).
      let sHex = hex32 (low_s (int (be_nat sRaw))); rHex = ''0x'' @ to_hex r in
      bind_m (getAddress K) (\<lambda>address.
      bind_m (lift_m (findRecoveryId K digestHex rHex sHex address)) (\<lambda>recoveryId.
      lift_m (signature_from K rHex sHex (27 + recoveryId))))))))"

definition signMessage :: "kms_lib \<Rightarrow> sign_data \<Rightarrow> string kms" where
  "signMessage K message =
     bind_m (signDigest K (hashMessage K message)) (\<lambda>signature. ret_m (sig_serialized K signature))"

definition signTypedData :: "kms_lib \<Rightarrow> typed_data \<Rightarrow> string kms" where
  "signTypedData K typed =
     bind_m (lift_m (hashTypedData K typed)) (\<lambda>digest.
     bind_m (signDigest K digest) (\<lambda>signature. ret_m (sig_serialized K signature)))"

definition signTransaction :: "kms_lib \<Rightarrow> tx_request \<Rightarrow> string kms" where
  "signTransaction K tx =
     bind_m (lift_m (resolveProperties K tx)) (\<lambda>resolvedTx.
     bind_m (lift_m (transactionFrom K
       (if tx_from resolvedTx \<noteq> None then resolvedTx\<lparr>tx_from := None\<rparr> else resolvedTx))) (\<lambda>unsignedTx.
     bind_m (signDigest K (keccak256 K (unsignedSerialized unsignedTx))) (\<lambda>signature.
     ret_m (tx_serialized K unsignedTx signature))))"

section \<open>Printing r and s\<close>

lemma length_to_base:
  assumes "2 \<le> b"
  shows "0 < k \<Longrightarrow> n < b ^ k \<Longrightarrow> length (to_base b n) \<le> k"
proof (induction k arbitrary: n)
  case 0
  then show ?case by simp
next
  case (Suc k)
  show ?case
  proof (cases "n < b")
    case True
    then show ?thesis by (subst to_base.simps) simp
  next
    case False
    with assms Suc.prems(2) have "n div b < b ^ k" by (simp add: less_mult_imp_div_less mult.commute)
    moreover from False Suc.prems(2) have "0 < k" by (cases k) auto
    ultimately show ?thesis using Suc.IH False assms by (subst to_base.simps) simp
  qed
qed

lemma hex32_reads_back:
  assumes "0 \<le> n" and "n < 2 ^ 256"
  shows "length (hex32 n) = 66" and "of_base 16 (drop 2 (hex32 n)) = Some (nat n)"
proof -
  have "nat n < 16 ^ 64" using assms by (simp add: nat_less_iff)
  then have "length (to_base 16 (nat n)) \<le> 64" by (intro length_to_base) simp_all
  with assms show "length (hex32 n) = 66" by (simp add: hex32_def padStart_def hex_def)
  show "of_base 16 (drop 2 (hex32 n)) = Some (nat n)"
    using assms by (simp add: hex32_def hex_def of_base_padStart)
qed

lemma half_n: "SECP256K1_N = 2 * SECP256K1_HALF_N + 1" "0 < SECP256K1_HALF_N" "SECP256K1_N < 2 ^ 256"
  by (simp_all add: SECP256K1_HALF_N_def SECP256K1_N_def)

lemma low_s_range:
  assumes "0 < s" and "s < SECP256K1_N"
  shows "0 < low_s s" and "low_s s \<le> SECP256K1_HALF_N" and "low_s s \<in> {s, SECP256K1_N - s}"
    and "low_s s < 2 ^ 256" and "low_s (SECP256K1_N - s) = low_s s"
  using assms half_n by (auto simp: low_s_def)

section \<open>The address cache\<close>

lemma getAddress_cached:
  "cachedAddress s = Some a \<Longrightarrow> a \<noteq> [] \<Longrightarrow> getAddress K s = (Inr a, s)"
  by (simp add: getAddress_def effect_simps)

lemma getAddress_Inr:
  assumes "getAddress K s = (Inr a, s')"
  shows "cachedAddress s' = Some a"
  using assms
  by (auto simp: getAddress_def effect_simps kms_send_def split: option.splits sum.splits if_splits)

lemma getAddress_calls:
  assumes "getAddress K s = (r, s')"
  shows "kms_calls s' = kms_calls s \<or> kms_calls s' = kms_calls s @ [GetPublicKeyCommand (keyId s)]"
    and "keyId s' = keyId s"
  using assms
  by (auto simp: getAddress_def effect_simps kms_send_def split: option.splits sum.splits if_splits)

section \<open>Signatures\<close>

text \<open>
  The contract of a digest signer: a signature it returns is good for the digest it was given. The
  three public methods hash their argument, sign the digest and serialise the signature, so each
  inherits the contract.
\<close>

locale digest_signer =
  fixes sign :: "string \<Rightarrow> ('s, 'g) jsm" and good :: "string \<Rightarrow> 'g \<Rightarrow> 's \<Rightarrow> bool"
  assumes sign_good: "sign d s = (Inr g, t) \<Longrightarrow> good d g t"
begin

lemma serialised_good:
  assumes "bind_m (sign d) (\<lambda>g. ret_m (ser g)) s = (Inr y, t)"
  shows "\<exists>g. y = ser g \<and> good d g t"
  using assms by (auto simp: bind_m_Inr ret_m_app dest: sign_good)

lemma hashed_good:
  assumes "bind_m (lift_m (h x)) (\<lambda>d. bind_m (sign d) (\<lambda>g. ret_m (ser g))) s = (Inr y, t)"
  shows "\<exists>d g. h x = Inr d \<and> y = ser g \<and> good d g t"
  using assms by (auto simp: bind_m_Inr [of "lift_m _"] lift_m_app dest: serialised_good)

end

definition recovers_to_signer :: "kms_lib \<Rightarrow> string \<Rightarrow> ecdsa_sig \<Rightarrow> kms_signer \<Rightarrow> bool" where
  "recovers_to_signer K digestHex g s \<longleftrightarrow> (\<exists>a b v rHex sHex. cachedAddress s = Some a \<and>
     v \<in> {27, 28} \<and> signature_from K rHex sHex v = Inr g \<and>
     recoverAddress K digestHex g = Inr b \<and> toLowerCase b = toLowerCase a)"

lemma findRecoveryId_Inr:
  assumes "findRecoveryId K d rHex sHex a = Inr i"
  shows "i \<in> {0, 1}" and "recovers K d rHex sHex a i = Inr True"
  using assms by (auto simp: findRecoveryId_def bind_r_Inr split: if_splits)

lemma recovers_Inr:
  "recovers K d rHex sHex a i = Inr True \<longleftrightarrow> (\<exists>g b. signature_from K rHex sHex (27 + i) = Inr g \<and>
     recoverAddress K d g = Inr b \<and> toLowerCase b = toLowerCase a)"
  by (auto simp: recovers_def bind_r_Inr)

lemma signDigest_Inr:
  assumes "signDigest K d s = (Inr g, t)"
  obtains der r z a i s1 s2 where "length (from_hex (drop 2 d)) = 32"
    "kms_sign K (length (kms_calls s)) (keyId s) (from_hex (drop 2 d)) = Inr der"
    "signatureFromKmsDer der = Inr (r, z)" "getAddress K s1 = (Inr a, t)"
    "s1 = s\<lparr>kms_calls := kms_calls s @ [SignCommand (keyId s) (from_hex (drop 2 d)) ''DIGEST'' ''ECDSA_SHA_256'']\<rparr>"
    "findRecoveryId K d (''0x'' @ to_hex r) (hex32 (low_s (int (be_nat z)))) a = Inr i"
    "signature_from K (''0x'' @ to_hex r) (hex32 (low_s (int (be_nat z)))) (27 + i) = Inr g"
  using assms
  by (auto simp: signDigest_def Let_def throw_m_app bind_m_Inr gets_m_app lift_m_app kms_send_def
      split: if_splits)

interpretation kms: digest_signer "signDigest K" "recovers_to_signer K" for K
proof unfold_locales
  fix d s g t
  assume "signDigest K d s = (Inr g, t)"
  then show "recovers_to_signer K d g t"
  proof (rule signDigest_Inr)
    fix der r z a i s1
    let ?r = "''0x'' @ to_hex r" and ?s = "hex32 (low_s (int (be_nat z)))"
    assume a: "getAddress K s1 = (Inr a, t)" and i: "findRecoveryId K d ?r ?s a = Inr i"
      and g: "signature_from K ?r ?s (27 + i) = Inr g"
    from findRecoveryId_Inr [OF i] g obtain b where "27 + i \<in> {27, 28}"
      "recoverAddress K d g = Inr b" "toLowerCase b = toLowerCase a"
      by (auto simp: recovers_Inr)
    with g getAddress_Inr [OF a] show "recovers_to_signer K d g t"
      unfolding recovers_to_signer_def by blast
  qed
qed

lemma signDigest_succeeds:
  assumes "length (from_hex (drop 2 d)) = 32" and "cachedAddress st = Some a" and "a \<noteq> []"
    and "kms_sign K (length (kms_calls st)) (keyId st) (from_hex (drop 2 d)) = Inr (der_signature r s)"
    and "r < 2 ^ 256" and "int s < SECP256K1_N"
    and "sHex = hex32 (low_s (int s))" and "rHex = ''0x'' @ to_hex (be_fixed 32 r)"
    and "recovers K d rHex sHex a 0 = Inr ok0" and "\<not> ok0 \<Longrightarrow> recovers K d rHex sHex a 1 = Inr True"
  shows "\<exists>g i t. signDigest K d st = (Inr g, t) \<and> i \<in> {0, 1} \<and>
     signature_from K rHex sHex (27 + i) = Inr g"
proof -
  let ?st = "st\<lparr>kms_calls := kms_calls st @ [SignCommand (keyId st) (from_hex (drop 2 d)) ''DIGEST'' ''ECDSA_SHA_256'']\<rparr>"
  have p: "(2 :: nat) ^ 256 = 256 ^ 32" by simp
  have "int s < 2 ^ 256" using assms(6) half_n by linarith
  then have "s < 2 ^ 256" by (metis of_nat_less_iff of_nat_numeral of_nat_power)
  with assms(5) have der: "signatureFromKmsDer (der_signature r s) = Inr (be_fixed 32 r, be_fixed 32 s)"
    using signature_reads_back [of r s] by (simp only: p)
  obtain i where i: "i \<in> {0, 1}" "findRecoveryId K d rHex sHex a = Inr i"
    using assms(9,10) by (cases ok0) (auto simp: findRecoveryId_def)
  from findRecoveryId_Inr(2) [OF i(2)] obtain g where g: "signature_from K rHex sHex (27 + i) = Inr g"
    by (auto simp: recovers_Inr)
  have "getAddress K ?st = (Inr a, ?st)" using assms(2,3) by (intro getAddress_cached) simp_all
  with assms(1,4,7,8) der i g have "signDigest K d st = (Inr g, ?st)"
    by (simp add: signDigest_def Let_def bind_m_app gets_m_app lift_m_app kms_send_def)
  with i(1) g show ?thesis by blast
qed

section \<open>The promises\<close>

text \<open>
  C20 (safety). No signature that recovers to another address ever leaves the signer: what
  signMessage, signTypedData and signTransaction return is the serialisation of a signature with v
  27 or 28 over the digest of their argument, from which the recovery function gives the signer's
  own address.
\<close>

theorem kms_signatures_are_the_signers:
  "(signMessage K message s = (Inr y, t) \<longrightarrow>
      (\<exists>g. y = sig_serialized K g \<and> recovers_to_signer K (hashMessage K message) g t)) \<and>
   (signTypedData K typed s = (Inr y, t) \<longrightarrow>
      (\<exists>d g. hashTypedData K typed = Inr d \<and> y = sig_serialized K g \<and> recovers_to_signer K d g t)) \<and>
   (signTransaction K tx s = (Inr y, t) \<longrightarrow>
      (\<exists>rt u g. resolveProperties K tx = Inr rt \<and> transactionFrom K (rt\<lparr>tx_from := None\<rparr>) = Inr u \<and>
         y = tx_serialized K u g \<and> recovers_to_signer K (keccak256 K (unsignedSerialized u)) g t))"
proof (intro conjI impI)
  assume "signMessage K message s = (Inr y, t)"
  then show "\<exists>g. y = sig_serialized K g \<and> recovers_to_signer K (hashMessage K message) g t"
    unfolding signMessage_def by (rule kms.serialised_good)
next
  assume "signTypedData K typed s = (Inr y, t)"
  then show "\<exists>d g. hashTypedData K typed = Inr d \<and> y = sig_serialized K g \<and> recovers_to_signer K d g t"
    unfolding signTypedData_def by (rule kms.hashed_good)
next
  assume "signTransaction K tx s = (Inr y, t)"
  then obtain rt u where rt: "resolveProperties K tx = Inr rt"
    and u: "transactionFrom K (if tx_from rt \<noteq> None then rt\<lparr>tx_from := None\<rparr> else rt) = Inr u"
    and rest: "bind_m (signDigest K (keccak256 K (unsignedSerialized u)))
      (\<lambda>g. ret_m (tx_serialized K u g)) s = (Inr y, t)"
    by (auto simp: signTransaction_def bind_m_Inr [of "lift_m _"] lift_m_app)
  have "(if tx_from rt \<noteq> None then rt\<lparr>tx_from := None\<rparr> else rt) = rt\<lparr>tx_from := None\<rparr>"
    by (cases rt) simp
  with kms.serialised_good [OF rest] rt u [unfolded this] show "\<exists>rt u g. resolveProperties K tx = Inr rt \<and>
      transactionFrom K (rt\<lparr>tx_from := None\<rparr>) = Inr u \<and> y = tx_serialized K u g \<and>
      recovers_to_signer K (keccak256 K (unsignedSerialized u)) g t" by auto
qed

definition ex_kms :: kms_lib where
  "ex_kms = \<lparr>kms_getPublicKey = (\<lambda>_ _. Inr (der_spki [6, 1, 42] (replicate 64 7))),
     kms_sign = (\<lambda>_ _ _. Inr (der_signature 5 (2 ^ 255))),
     computeAddress = (\<lambda>_. Inr ''0xabc''),
     signature_from = (\<lambda>r s v. Inr \<lparr>sig_r = r, sig_s = s, sig_v = v\<rparr>),
     recoverAddress = (\<lambda>d g. Inr (if sig_v g = 28 then ''0xABC'' else ''0xdef'')),
     sig_serialized = sig_s, hashMessage = (\<lambda>m. ''0x'' @ replicate 64 (CHR ''0'')),
     hashTypedData = (\<lambda>_. Inr (''0x'' @ replicate 64 (CHR ''0''))), resolveProperties = Inr,
     transactionFrom = (\<lambda>t. Inr \<lparr>unsignedSerialized = tx_fields t\<rparr>), keccak256 = id,
     tx_serialized = (\<lambda>u g. sig_s g)\<rparr>"

definition ex_signer :: kms_signer where
  "ex_signer = (new_KmsSigner (Some ''k''))\<lparr>cachedAddress := Some ''0xabc''\<rparr>"

definition ex_digest :: string where
  "ex_digest = ''0x'' @ replicate 64 (CHR ''0'')"

lemma ex_kms_facts:
  "length (from_hex (drop 2 ex_digest)) = 32" "int (2 ^ 255) < SECP256K1_N"
  "hashMessage ex_kms m = ex_digest" "cachedAddress ex_signer = Some ''0xabc''"
  "kms_sign ex_kms n k b = Inr (der_signature 5 (2 ^ 255))"
proof -
  show "length (from_hex (drop 2 ex_digest)) = 32" by code_simp
qed (simp_all add: SECP256K1_N_def ex_kms_def ex_digest_def ex_signer_def)

lemma ex_kms_recovers:
  "recovers ex_kms d r s ''0xabc'' 0 = Inr False" "recovers ex_kms d r s ''0xabc'' 1 = Inr True"
proof -
  have "toLowerCase ''0xABC'' = toLowerCase ''0xabc''" "toLowerCase ''0xdef'' \<noteq> toLowerCase ''0xabc''"
    by code_simp+
  then show "recovers ex_kms d r s ''0xabc'' 0 = Inr False" "recovers ex_kms d r s ''0xabc'' 1 = Inr True"
    by (simp_all add: recovers_def ex_kms_def)
qed

lemma ex_kms_signs: "\<exists>y t. signMessage ex_kms (MessageText ''hi'') ex_signer = (Inr y, t)"
proof -
  have "\<exists>g i t. signDigest ex_kms ex_digest ex_signer = (Inr g, t) \<and> i \<in> {0, 1} \<and>
     signature_from ex_kms (''0x'' @ to_hex (be_fixed 32 5)) (hex32 (low_s (int (2 ^ 255)))) (27 + i) = Inr g"
    by (rule signDigest_succeeds [OF ex_kms_facts(1) ex_kms_facts(4) _ ex_kms_facts(5) _ ex_kms_facts(2)
          refl refl ex_kms_recovers]) simp_all
  then show ?thesis by (auto simp: signMessage_def ex_kms_facts bind_m_app ret_m_app)
qed

theorem kms_signatures_are_the_signers_witness:
  "\<exists>y t g. signMessage ex_kms (MessageText ''hi'') ex_signer = (Inr y, t) \<and> y = sig_serialized ex_kms g \<and>
     recovers_to_signer ex_kms (hashMessage ex_kms (MessageText ''hi'')) g t"
  using ex_kms_signs kms_signatures_are_the_signers [of ex_kms "MessageText ''hi''"] by blast

text \<open>
  When KMS answers with the DER encoding of a signature (r, s) with s a non-zero
  scalar of the curve, and one of the two recovery ids of its low-s form recovers the signer's
  address, signing succeeds; the s that is used is at most half the curve order, it is s or N - s,
  and it is printed as 0x and exactly 64 digits that read back as that number.
\<close>

lemma signDigest_normalises:
  assumes "length (from_hex (drop 2 d)) = 32" and "cachedAddress st = Some a" and "a \<noteq> []"
    and "kms_sign K (length (kms_calls st)) (keyId st) (from_hex (drop 2 d)) = Inr (der_signature r s)"
    and "r < 2 ^ 256" and "0 < s" and "int s < SECP256K1_N"
    and "sHex = hex32 (low_s (int s))" and "rHex = ''0x'' @ to_hex (be_fixed 32 r)"
    and "\<exists>ok0. recovers K d rHex sHex a 0 = Inr ok0 \<and>
       (\<not> ok0 \<longrightarrow> recovers K d rHex sHex a 1 = Inr True)"
  shows "\<exists>g i t. signDigest K d st = (Inr g, t) \<and> i \<in> {0, 1} \<and>
     signature_from K rHex sHex (27 + i) = Inr g \<and> recovers_to_signer K d g t \<and>
     low_s (int s) \<in> {int s, SECP256K1_N - int s} \<and> low_s (int s) \<le> SECP256K1_HALF_N \<and>
     length sHex = 66 \<and> of_base 16 (drop 2 sHex) = Some (nat (low_s (int s)))"
proof -
  have s: "0 < int s" "int s < SECP256K1_N" using assms(6,7) by simp_all
  note low = low_s_range [OF s]
  from assms(10) obtain g i t where run: "signDigest K d st = (Inr g, t)" "i \<in> {0, 1}"
    "signature_from K rHex sHex (27 + i) = Inr g"
    using signDigest_succeeds [OF assms(1-5,7-9)] by blast
  with kms.sign_good [OF run(1)] low hex32_reads_back [OF _ low(4)] assms(8) show ?thesis by auto
qed

lemma signDigest_normalises_example:
  "\<exists>g i t. signDigest ex_kms ex_digest ex_signer = (Inr g, t) \<and> i \<in> {0, 1} \<and>
     signature_from ex_kms (''0x'' @ to_hex (be_fixed 32 5)) (hex32 (low_s (int (2 ^ 255)))) (27 + i) = Inr g \<and>
     recovers_to_signer ex_kms ex_digest g t \<and>
     low_s (int (2 ^ 255)) \<in> {int (2 ^ 255), SECP256K1_N - int (2 ^ 255)} \<and>
     low_s (int (2 ^ 255)) \<le> SECP256K1_HALF_N \<and> length (hex32 (low_s (int (2 ^ 255)))) = 66 \<and>
     of_base 16 (drop 2 (hex32 (low_s (int (2 ^ 255))))) = Some (nat (low_s (int (2 ^ 255))))"
  by (rule signDigest_normalises [OF ex_kms_facts(1) ex_kms_facts(4) _ ex_kms_facts(5) _ _ ex_kms_facts(2)
        refl refl]) (use ex_kms_recovers in auto)

text \<open>
  A signing operation sends KMS the one command to sign exactly the 32 bytes of its
  digest, as a digest and not as a message to hash, preceded by nothing and followed by at most
  one request for the public key, which is not sent when the address is cached. A digest of
  another length is refused before anything is sent.
\<close>

lemma kms_commands_of_a_signature:
  "let bytes = from_hex (drop 2 d); t = snd (signDigest K d s);
       sign = SignCommand (keyId s) bytes ''DIGEST'' ''ECDSA_SHA_256'' in
   if length bytes \<noteq> 32 then t = s \<and> (\<exists>e. fst (signDigest K d s) = Inl e)
   else kms_calls t = kms_calls s @ [sign] \<or>
     kms_calls t = kms_calls s @ [sign, GetPublicKeyCommand (keyId s)] \<and> cachedAddress s \<in> {None, Some []}"
proof (cases "length (from_hex (drop 2 d)) = 32")
  case False
  then show ?thesis by (simp add: signDigest_def Let_def throw_m_app)
next
  case True
  define s1 where "s1 = s\<lparr>kms_calls := kms_calls s @
    [SignCommand (keyId s) (from_hex (drop 2 d)) ''DIGEST'' ''ECDSA_SHA_256'']\<rparr>"
  have s1: "cachedAddress s1 = cachedAddress s" "keyId s1 = keyId s" by (simp_all add: s1_def)
  obtain r t where g: "getAddress K s1 = (r, t)" by fastforce
  have t: "kms_calls t = kms_calls s1 \<or>
      kms_calls t = kms_calls s1 @ [GetPublicKeyCommand (keyId s)] \<and> cachedAddress s \<in> {None, Some []}"
    using g getAddress_calls(1) [OF g] getAddress_cached [of s1 _ K] s1
    by (cases "cachedAddress s") auto
  have "snd (signDigest K d s) = s1 \<or> snd (signDigest K d s) = t"
    using True g
    by (auto simp: signDigest_def Let_def bind_m_app gets_m_app lift_m_app kms_send_def s1_def
        split: sum.splits)
  with t True show ?thesis by (auto simp: Let_def s1_def)
qed

end
