(* ===== verification/Safe_Ops.thy ===== *)
theory Safe_Ops
  imports Safe_Kms Zod_Env
begin

text \<open>
  \<^verbatim>\<open>src/safe-ops/src/config.js\<close> and \<^verbatim>\<open>src/safe-ops/src/signAndExecute.js\<close>: the operator's configuration
  and the shared loop that collects the owners' signatures and executes a Safe transaction.

  The Safe SDK is a parameter, each call with its number so that any call may fail; the actions
  the operator takes through it are logged in order.
\<close>

section \<open>Configuration\<close>

definition requireEnv :: "environment \<Rightarrow> string \<Rightarrow> js_error + string" where
  "requireEnv env name = (case env name of
       Some v \<Rightarrow> if v \<noteq> [] then Inr v
                else Inl (JsError (''Required environment variable '' @ name @ '' is not set''))
     | None \<Rightarrow> Inl (JsError (''Required environment variable '' @ name @ '' is not set'')))"

text \<open>\<^verbatim>\<open>process.env.X || fallback\<close>\<close>

definition env_or :: "environment \<Rightarrow> string \<Rightarrow> string \<Rightarrow> string" where
  "env_or env name d = (case env name of Some v \<Rightarrow> if v \<noteq> [] then v else d | None \<Rightarrow> d)"

definition env_or_null :: "environment \<Rightarrow> string \<Rightarrow> string option" where
  "env_or_null env name = (case env name of Some v \<Rightarrow> if v \<noteq> [] then Some v else None | None \<Rightarrow> None)"

text \<open>\<^verbatim>\<open>parseInt\<close> as a number: NaN when no digit is read.\<close>

definition parse_num :: "string \<Rightarrow> js_num" where
  "parse_num s = (case parseInt10 s of None \<Rightarrow> NaN | Some n \<Rightarrow> js_int n)"

record safe_config =
  sc_rpcUrl :: string
  sc_chainId :: js_num
  sc_claimRegistryAddress :: string
  awsRegion :: string
  ownerKmsKeyIds :: "string list"
  safeThreshold :: js_num
  safeAddress :: "string option"
  safeProxyFactoryAddress :: "string option"
  safeSingletonAddress :: "string option"
  safeFallbackHandlerAddress :: "string option"

definition safe_loadConfig :: "environment \<Rightarrow> js_error + safe_config" where
  "safe_loadConfig env =
     bind_r (requireEnv env ''RPC_URL'') (\<lambda>rpc.
     bind_r (requireEnv env ''CLAIM_REGISTRY_ADDRESS'') (\<lambda>reg.
     bind_r (requireEnv env ''AWS_REGION'') (\<lambda>region.
     bind_r (requireEnv env ''OWNER_KMS_KEY_IDS'') (\<lambda>keys.
     Inr \<lparr>sc_rpcUrl = rpc, sc_chainId = parse_num (env_or env ''CHAIN_ID'' ''1337''),
       sc_claimRegistryAddress = reg, awsRegion = region,
       ownerKmsKeyIds = map trim (split_on (CHR '','') keys),
       safeThreshold = parse_num (env_or env ''SAFE_THRESHOLD'' ''2''),
       safeAddress = env_or_null env ''UNDERWRITER_SAFE_ADDRESS'',
       safeProxyFactoryAddress = env_or_null env ''SAFE_PROXY_FACTORY_ADDRESS'',
       safeSingletonAddress = env_or_null env ''SAFE_SINGLETON_ADDRESS'',
       safeFallbackHandlerAddress = env_or_null env ''SAFE_FALLBACK_HANDLER_ADDRESS''\<rparr>))))"

lemma requireEnv_Inr: "requireEnv env name = Inr v \<longleftrightarrow> env name = Some v \<and> v \<noteq> []"
  by (auto simp: requireEnv_def split: option.splits if_splits)

section \<open>The SDK and the operator's state\<close>

record safe_tx =
  safe_data :: string
  safe_signers :: "string list"

record exec_response =
  exec_hash :: string
  exec_wait :: "(js_error + string option) option"

record init_args =
  ia_provider :: string
  ia_signer :: "string option"
  ia_safeAddress :: "string option"

record meta_tx =
  mt_to :: string
  mt_value :: string
  mt_data :: string

record safe_sdk =
  sdk_init :: "nat \<Rightarrow> init_args \<Rightarrow> js_error + unit"
  sdk_getThreshold :: "nat \<Rightarrow> js_error + int"
  sdk_getOwners :: "nat \<Rightarrow> js_error + string list"
  sdk_signTransaction :: "nat \<Rightarrow> string \<Rightarrow> safe_tx \<Rightarrow> js_error + safe_tx"
  sdk_executeTransaction :: "nat \<Rightarrow> safe_tx \<Rightarrow> js_error + exec_response"
  sdk_createTransaction :: "nat \<Rightarrow> meta_tx list \<Rightarrow> js_error + safe_tx"
  sdk_createAddOwnerTx :: "nat \<Rightarrow> string \<Rightarrow> js_num option \<Rightarrow> js_error + safe_tx"
  sdk_createRemoveOwnerTx :: "nat \<Rightarrow> string \<Rightarrow> js_num \<Rightarrow> js_error + safe_tx"

datatype ops_action =
    SafeSigned string safe_tx
  | SafeExecuted safe_tx
  | DeployedContract string string
  | SafeDeploymentSent "string list" js_num
  | RoleGranted string string

record ops_world =
  ops_kms_calls :: "kms_command list"
  ops_calls :: nat
  ops_actions :: "ops_action list"

type_synonym 'a ops = "(ops_world, 'a) jsm"

definition sdk_call :: "(nat \<Rightarrow> js_error + 'a) \<Rightarrow> 'a ops" where
  "sdk_call f = (\<lambda>w. (f (ops_calls w), w\<lparr>ops_calls := Suc (ops_calls w)\<rparr>))"

definition act :: "ops_action \<Rightarrow> unit ops" where
  "act a = modify_m (\<lambda>w. w\<lparr>ops_actions := ops_actions w @ [a]\<rparr>)"

text \<open>\<^verbatim>\<open>new KmsSigner(kmsClient, keyId, provider).getAddress()\<close>: a fresh signer, so an empty cache.\<close>

definition owner_address :: "kms_lib \<Rightarrow> string option \<Rightarrow> string ops" where
  "owner_address K k = (\<lambda>w.
     case getAddress K ((new_KmsSigner k)\<lparr>kms_calls := ops_kms_calls w\<rparr>) of
       (r, s) \<Rightarrow> (r, w\<lparr>ops_kms_calls := kms_calls s\<rparr>))"

text \<open>An array index: \<^verbatim>\<open>undefined\<close> past the end.\<close>

definition key_at :: "safe_config \<Rightarrow> nat \<Rightarrow> string option" where
  "key_at c i = (if i < length (ownerKmsKeyIds c) then Some (ownerKmsKeyIds c ! i) else None)"

section \<open>Collecting signatures\<close>

definition init_for :: "safe_config \<Rightarrow> string option \<Rightarrow> init_args" where
  "init_for c signer = \<lparr>ia_provider = sc_rpcUrl c, ia_signer = signer, ia_safeAddress = safeAddress c\<rparr>"

definition sign_as :: "kms_lib \<Rightarrow> safe_sdk \<Rightarrow> safe_config \<Rightarrow> nat \<Rightarrow> safe_tx \<Rightarrow> safe_tx ops" where
  "sign_as K D c i tx =
     bind_m (owner_address K (key_at c i)) (\<lambda>ownerAddress.
     bind_m (sdk_call (\<lambda>n. sdk_init D n (init_for c (Some ownerAddress)))) (\<lambda>_.
     bind_m (sdk_call (\<lambda>n. sdk_signTransaction D n ownerAddress tx)) (\<lambda>signed.
     bind_m (act (SafeSigned ownerAddress signed)) (\<lambda>_. ret_m signed))))"

fun collect :: "kms_lib \<Rightarrow> safe_sdk \<Rightarrow> safe_config \<Rightarrow> nat list \<Rightarrow> safe_tx \<Rightarrow> safe_tx ops" where
  "collect K D c [] tx = ret_m tx"
| "collect K D c (i # is) tx = bind_m (sign_as K D c i tx) (\<lambda>signed. collect K D c is signed)"

definition executed_hash :: "exec_response \<Rightarrow> js_error + string" where
  "executed_hash resp = (case exec_wait resp of
       None \<Rightarrow> Inr (exec_hash resp)
     | Some (Inl e) \<Rightarrow> Inl e
     | Some (Inr None) \<Rightarrow> Inr (exec_hash resp)
     | Some (Inr (Some h)) \<Rightarrow> Inr (if h \<noteq> [] then h else exec_hash resp))"

definition signAndExecute :: "kms_lib \<Rightarrow> safe_sdk \<Rightarrow> safe_config \<Rightarrow> safe_tx \<Rightarrow> string ops" where
  "signAndExecute K D c tx =
     bind_m (owner_address K (key_at c 0)) (\<lambda>executor.
     bind_m (sdk_call (\<lambda>n. sdk_init D n (init_for c (Some executor)))) (\<lambda>_.
     bind_m (sdk_call (sdk_getThreshold D)) (\<lambda>threshold.
     bind_m (collect K D c [0..<nat threshold] tx) (\<lambda>signed.
     bind_m (sdk_call (\<lambda>n. sdk_executeTransaction D n signed)) (\<lambda>resp.
     bind_m (act (SafeExecuted signed)) (\<lambda>_.
     lift_m (executed_hash resp)))))))"

section \<open>What is signed and executed\<close>

fun is_execution :: "ops_action \<Rightarrow> bool" where
  "is_execution (SafeExecuted tx) = True"
| "is_execution _ = False"

text \<open>
  What the loop relies on. Of the SDK: signing leaves the transaction's data alone and adds the
  signer's signature after those it has. Of KMS and the address derivation: a key has one address.
\<close>

definition sdk_signs :: "safe_sdk \<Rightarrow> bool" where
  "sdk_signs D \<longleftrightarrow> (\<forall>n a tx tx'. sdk_signTransaction D n a tx = Inr tx' \<longrightarrow>
     safe_data tx' = safe_data tx \<and> safe_signers tx' = safe_signers tx @ [a])"

definition keys_have_addresses :: "kms_lib \<Rightarrow> (string option \<Rightarrow> string) \<Rightarrow> bool" where
  "keys_have_addresses K addr \<longleftrightarrow> (\<forall>n k pk p a. kms_getPublicKey K n k = Inr pk \<longrightarrow>
     publicKeyFromKmsDer pk = Inr p \<longrightarrow> computeAddress K (''0x04'' @ to_hex p) = Inr a \<longrightarrow> addr k = a)"

lemma owner_address_Inr:
  assumes "keys_have_addresses K addr" and "owner_address K k w = (Inr a, w')"
  shows "a = addr k"
  using assms
  by (auto simp: owner_address_def keys_have_addresses_def getAddress_def new_KmsSigner_def
      effect_simps kms_send_def split: prod.splits sum.splits)

lemma act_app: "act a w = (Inr (), w\<lparr>ops_actions := ops_actions w @ [a]\<rparr>)"
  by (simp add: act_def modify_m_app)

text \<open>Steps that execute nothing: they may log signatures, and no more.\<close>

definition no_execution :: "ops_world \<Rightarrow> ops_world \<Rightarrow> bool" where
  "no_execution w w' \<longleftrightarrow>
     (\<exists>acts. ops_actions w' = ops_actions w @ acts \<and> list_all (\<lambda>a. \<not> is_execution a) acts)"

interpretation quiet: effect_order no_execution
proof unfold_locales
  show "no_execution s s" for s by (simp add: no_execution_def)
  show "no_execution s u" if "no_execution s t" "no_execution t u" for s t u
    using that unfolding no_execution_def by (metis append_assoc list_all_append)
qed

lemma quiet_same: "ops_actions w' = ops_actions w \<Longrightarrow> no_execution w w'"
  by (simp add: no_execution_def)

lemma quiet_owner: "stays no_execution (owner_address K k)"
  by (rule staysI) (auto simp: owner_address_def intro: quiet_same split: prod.split)

lemma quiet_sdk: "stays no_execution (sdk_call f)"
  by (rule staysI) (auto simp: sdk_call_def intro: quiet_same)

lemma quiet_signed: "stays no_execution (act (SafeSigned a tx))"
  by (rule staysI) (auto simp: act_def modify_m_app no_execution_def)

lemmas quiet_rules = quiet_owner quiet_sdk quiet_signed quiet.stays_rules

lemma quiet_collect: "stays no_execution (collect K D c is tx)"
  by (induction "is" arbitrary: tx) (auto simp: sign_as_def intro!: quiet_rules)

lemma collect_signers:
  assumes sdk: "sdk_signs D" and keys: "keys_have_addresses K addr"
  shows "collect K D c is tx w = (Inr stx, w') \<Longrightarrow> safe_data stx = safe_data tx \<and>
    safe_signers stx = safe_signers tx @ map (\<lambda>i. addr (key_at c i)) is"
proof (induction "is" arbitrary: tx w)
  case Nil
  then show ?case by (simp add: ret_m_app)
next
  case (Cons i "is")
  from Cons.prems obtain tx' w1 where one: "sign_as K D c i tx w = (Inr tx', w1)"
    and rest: "collect K D c is tx' w1 = (Inr stx, w')" by (auto simp: bind_m_Inr)
  from one obtain a n v where a: "owner_address K (key_at c i) w = (Inr a, v)"
    and s: "sdk_signTransaction D n a tx = Inr tx'"
    by (auto simp: sign_as_def bind_m_Inr sdk_call_def ret_m_app)
  have "safe_data tx' = safe_data tx" "safe_signers tx' = safe_signers tx @ [addr (key_at c i)]"
    using sdk s owner_address_Inr [OF keys a] by (auto simp: sdk_signs_def)
  with Cons.IH [OF rest] show ?case by simp
qed

text \<open>The two halves of \<open>signAndExecute\<close>.\<close>

definition gather :: "kms_lib \<Rightarrow> safe_sdk \<Rightarrow> safe_config \<Rightarrow> safe_tx \<Rightarrow> safe_tx ops" where
  "gather K D c tx =
     bind_m (owner_address K (key_at c 0)) (\<lambda>executor.
     bind_m (sdk_call (\<lambda>n. sdk_init D n (init_for c (Some executor)))) (\<lambda>_.
     bind_m (sdk_call (sdk_getThreshold D)) (\<lambda>threshold. collect K D c [0..<nat threshold] tx)))"

definition execute :: "safe_sdk \<Rightarrow> safe_tx \<Rightarrow> string ops" where
  "execute D stx =
     bind_m (sdk_call (\<lambda>n. sdk_executeTransaction D n stx)) (\<lambda>resp.
     bind_m (act (SafeExecuted stx)) (\<lambda>_. lift_m (executed_hash resp)))"

lemma signAndExecute_halves: "signAndExecute K D c tx = bind_m (gather K D c tx) (execute D)"
  by (simp add: signAndExecute_def gather_def execute_def [abs_def] bind_m_assoc)

lemma quiet_gather: "stays no_execution (gather K D c tx)"
  unfolding gather_def by (intro quiet_rules quiet_collect)

lemma gather_signers:
  assumes "sdk_signs D" and "keys_have_addresses K addr" and "gather K D c tx w = (Inr stx, w')"
  obtains n t where "sdk_getThreshold D n = Inr t" "safe_data stx = safe_data tx"
    "safe_signers stx = safe_signers tx @ map (\<lambda>i. addr (key_at c i)) [0..<nat t]"
  using assms(3) collect_signers [OF assms(1,2)]
  by (auto simp: gather_def bind_m_Inr sdk_call_def)

lemma execute_actions:
  assumes "execute D stx w = (r, w')"
  shows "ops_actions w' = ops_actions w \<and> (\<exists>e. r = Inl e) \<or>
     ops_actions w' = ops_actions w @ [SafeExecuted stx]"
  using assms
  by (auto simp: execute_def bind_m_app sdk_call_def act_app lift_m_app split: sum.splits)

text \<open>Everything a run may do: signatures, then at most one execution, as the very last action.\<close>

lemma signAndExecute_effect:
  assumes sdk: "sdk_signs D" and keys: "keys_have_addresses K addr"
    and run: "signAndExecute K D c tx w = (r, w')"
  shows "\<exists>acts. list_all (\<lambda>a. \<not> is_execution a) acts \<and>
     (ops_actions w' = ops_actions w @ acts \<and> (\<exists>e. r = Inl e) \<or>
      (\<exists>t n stx. ops_actions w' = ops_actions w @ acts @ [SafeExecuted stx] \<and>
         sdk_getThreshold D n = Inr t \<and> safe_data stx = safe_data tx \<and>
         safe_signers stx = safe_signers tx @ map (\<lambda>i. addr (key_at c i)) [0..<nat t]))"
proof -
  obtain q v where q: "gather K D c tx w = (q, v)" by fastforce
  from staysE [OF quiet_gather q] obtain acts where acts: "ops_actions v = ops_actions w @ acts"
    "list_all (\<lambda>a. \<not> is_execution a) acts" by (auto simp: no_execution_def)
  show ?thesis
  proof (cases q)
    case (Inl e)
    with run q acts show ?thesis by (auto simp: signAndExecute_halves bind_m_app)
  next
    case (Inr stx)
    obtain n t where st: "sdk_getThreshold D n = Inr t" "safe_data stx = safe_data tx"
      "safe_signers stx = safe_signers tx @ map (\<lambda>i. addr (key_at c i)) [0..<nat t]"
      using gather_signers [OF sdk keys q [unfolded Inr]] by metis
    from run q Inr have "execute D stx v = (r, w')" by (simp add: signAndExecute_halves bind_m_app)
    from execute_actions [OF this] acts st show ?thesis by (metis append_assoc)
  qed
qed

end
