(* ===== verification/Safe_Scripts.thy ===== *)
theory Safe_Scripts
  imports Safe_Ops
begin

text \<open>
  The operator's scripts, \<^verbatim>\<open>src/safe-ops/scripts/01\<close> to \<^verbatim>\<open>06\<close>: each \<^verbatim>\<open>main\<close> as an effect on the log of
  actions. What the scripts print is not modelled, long error messages are shortened to what they
  report, and a usage message with exit is an error.

  Deployment artifacts, the deployer's wallet, the registry contract and the ABI encoder are
  parameters.
\<close>

section \<open>01: deploying the Safe contracts\<close>

record artifact =
  art_canonical :: "string option"
  art_eip155 :: "string option"

record chain_lib =
  cl_deployment :: "string \<Rightarrow> artifact option"
  cl_wallet :: "string \<Rightarrow> js_error + string"
  cl_deploy :: "nat \<Rightarrow> string \<Rightarrow> js_error + string"
  cl_predict :: "nat \<Rightarrow> string list \<Rightarrow> js_num \<Rightarrow> js_error + string"
  cl_send :: "nat \<Rightarrow> js_error + unit"
  cl_wait :: "nat \<Rightarrow> js_error + string option"
  cl_underwriterRole :: "nat \<Rightarrow> js_error + string"
  cl_hasRole :: "nat \<Rightarrow> string \<Rightarrow> string \<Rightarrow> js_error + bool"
  cl_encode :: "string \<Rightarrow> js_num list \<Rightarrow> js_error + string"

text \<open>\<^verbatim>\<open>a || b\<close> on strings that may be undefined: the empty string is falsy.\<close>

definition truthy :: "string option \<Rightarrow> string option" where
  "truthy v = (if v = Some [] then None else v)"

definition artifact_bytecode :: "artifact \<Rightarrow> string option" where
  "artifact_bytecode a = (case truthy (art_canonical a) of Some b \<Rightarrow> Some b | None \<Rightarrow> truthy (art_eip155 a))"

definition deployFromArtifact :: "chain_lib \<Rightarrow> string \<Rightarrow> string ops" where
  "deployFromArtifact L label = (case cl_deployment L label of
       None \<Rightarrow> throw_m (JsError (''No '' @ label @ '' deployment artifact found for Safe version 1.4.1''))
     | Some a \<Rightarrow> (case artifact_bytecode a of
         None \<Rightarrow> throw_m (JsError (''No deployable bytecode found in the '' @ label @ '' artifact''))
       | Some bytecode \<Rightarrow>
           bind_m (sdk_call (\<lambda>n. cl_deploy L n bytecode)) (\<lambda>address.
           bind_m (act (DeployedContract label address)) (\<lambda>_. ret_m address))))"

definition deploy_infrastructure :: "chain_lib \<Rightarrow> environment \<Rightarrow> (string \<times> string \<times> string) ops" where
  "deploy_infrastructure L env =
     bind_m (lift_m (safe_loadConfig env)) (\<lambda>config.
     bind_m (lift_m (requireEnv env ''DEPLOYER_PRIVATE_KEY'')) (\<lambda>key.
     bind_m (lift_m (cl_wallet L key)) (\<lambda>_.
     bind_m (deployFromArtifact L ''Safe singleton'') (\<lambda>singleton.
     bind_m (deployFromArtifact L ''SafeProxyFactory'') (\<lambda>factory.
     bind_m (deployFromArtifact L ''CompatibilityFallbackHandler'') (\<lambda>handler.
     ret_m (singleton, factory, handler)))))))"

section \<open>02: creating the Safe\<close>

fun resolve_owners :: "kms_lib \<Rightarrow> string list \<Rightarrow> string list ops" where
  "resolve_owners K [] = ret_m []"
| "resolve_owners K (k # ks) =
     bind_m (owner_address K (Some k)) (\<lambda>a. bind_m (resolve_owners K ks) (\<lambda>as. ret_m (a # as)))"

definition create_underwriter_safe :: "kms_lib \<Rightarrow> chain_lib \<Rightarrow> environment \<Rightarrow> string ops" where
  "create_underwriter_safe K L env =
     bind_m (lift_m (safe_loadConfig env)) (\<lambda>config.
     if safeProxyFactoryAddress config = None \<or> safeSingletonAddress config = None
     then throw_m (JsError ''SAFE_PROXY_FACTORY_ADDRESS / SAFE_SINGLETON_ADDRESS are not set'')
     else
     bind_m (lift_m (requireEnv env ''DEPLOYER_PRIVATE_KEY'')) (\<lambda>key.
     bind_m (lift_m (cl_wallet L key)) (\<lambda>_.
     bind_m (resolve_owners K (ownerKmsKeyIds config)) (\<lambda>ownerAddresses.
     if num_less (js_int (int (length ownerAddresses))) (safeThreshold config)
     then throw_m (JsError ''SAFE_THRESHOLD cannot exceed the number of owners'')
     else
     bind_m (sdk_call (\<lambda>n. cl_predict L n ownerAddresses (safeThreshold config))) (\<lambda>predictedAddress.
     bind_m (sdk_call (cl_send L)) (\<lambda>_.
     bind_m (act (SafeDeploymentSent ownerAddresses (safeThreshold config))) (\<lambda>_.
     bind_m (sdk_call (cl_wait L)) (\<lambda>rc. case rc of
         None \<Rightarrow> throw_m (JsTypeError ''Cannot read properties of null'')
       | Some _ \<Rightarrow> ret_m predictedAddress))))))))"

section \<open>03: granting the role\<close>

definition grant_underwriter_role :: "chain_lib \<Rightarrow> environment \<Rightarrow> unit ops" where
  "grant_underwriter_role L env =
     bind_m (lift_m (safe_loadConfig env)) (\<lambda>config.
     case safeAddress config of
       None \<Rightarrow> throw_m (JsError ''UNDERWRITER_SAFE_ADDRESS is not set'')
     | Some safe \<Rightarrow>
       bind_m (lift_m (requireEnv env ''DEPLOYER_PRIVATE_KEY'')) (\<lambda>key.
       bind_m (lift_m (cl_wallet L key)) (\<lambda>_.
       bind_m (sdk_call (cl_underwriterRole L)) (\<lambda>role.
       bind_m (sdk_call (\<lambda>n. cl_hasRole L n role safe)) (\<lambda>alreadyGranted.
       if alreadyGranted then ret_m ()
       else
       bind_m (sdk_call (cl_send L)) (\<lambda>_.
       bind_m (act (RoleGranted role safe)) (\<lambda>_.
       bind_m (sdk_call (cl_wait L)) (\<lambda>rc. case rc of
           None \<Rightarrow> throw_m (JsTypeError ''Cannot read properties of null'')
         | Some _ \<Rightarrow> bind_m (sdk_call (\<lambda>n. cl_hasRole L n role safe)) (\<lambda>_. ret_m ())))))))))"

section \<open>04: proposing and executing a claim action\<close>

definition CLAIM_STATUS :: "string \<Rightarrow> js_num" where
  "CLAIM_STATUS name = (case map_of [(''SUBMITTED'', 0), (''UNDER_REVIEW'', 1), (''APPROVED'', 2),
     (''PAID'', 3), (''REJECTED'', 4)] name of Some n \<Rightarrow> js_int n | None \<Rightarrow> NaN)"

definition buildCalldata :: "chain_lib \<Rightarrow> string \<Rightarrow> js_num \<Rightarrow> js_error + string" where
  "buildCalldata L action claim =
     (if action = ''approve'' then cl_encode L ''setClaimStatus'' [claim, CLAIM_STATUS ''APPROVED'']
      else if action = ''reject'' then cl_encode L ''setClaimStatus'' [claim, CLAIM_STATUS ''REJECTED'']
      else if action = ''payout'' then cl_encode L ''payoutClaim'' [claim]
      else Inl (JsError (''Unknown action '' @ action)))"

text \<open>A missing or empty command-line argument.\<close>

definition absent :: "string option \<Rightarrow> bool" where
  "absent v \<longleftrightarrow> truthy v = None"

definition propose_and_execute :: "kms_lib \<Rightarrow> safe_sdk \<Rightarrow> chain_lib \<Rightarrow> environment \<Rightarrow>
  string option \<Rightarrow> string option \<Rightarrow> string ops" where
  "propose_and_execute K D L env claimIdArg action =
     (if absent claimIdArg \<or> absent action then throw_m (JsError ''Usage'')
      else
      bind_m (lift_m (safe_loadConfig env)) (\<lambda>config.
      if safeAddress config = None then throw_m (JsError ''UNDERWRITER_SAFE_ADDRESS is not set'')
      else
      bind_m (lift_m (buildCalldata L (the action) (parse_num (the claimIdArg)))) (\<lambda>calldata.
      bind_m (sdk_call (\<lambda>n. sdk_init D n (init_for config None))) (\<lambda>_.
      bind_m (sdk_call (\<lambda>n. sdk_createTransaction D n
        [\<lparr>mt_to = sc_claimRegistryAddress config, mt_value = ''0'', mt_data = calldata\<rparr>])) (\<lambda>tx.
      signAndExecute K D config tx)))))"

section \<open>05 and 06: changing the owners\<close>

definition add_owner :: "kms_lib \<Rightarrow> safe_sdk \<Rightarrow> environment \<Rightarrow> string option \<Rightarrow> string option \<Rightarrow> string ops" where
  "add_owner K D env newOwnerKmsKeyId newThresholdArg =
     (if absent newOwnerKmsKeyId then throw_m (JsError ''Usage'')
      else
      bind_m (lift_m (safe_loadConfig env)) (\<lambda>config.
      bind_m (owner_address K newOwnerKmsKeyId) (\<lambda>newOwnerAddress.
      bind_m (sdk_call (\<lambda>n. sdk_init D n (init_for config None))) (\<lambda>_.
      bind_m (sdk_call (\<lambda>n. sdk_createAddOwnerTx D n newOwnerAddress
        (if absent newThresholdArg then None else Some (parse_num (the newThresholdArg))))) (\<lambda>tx.
      signAndExecute K D config tx)))))"

definition remove_owner :: "kms_lib \<Rightarrow> safe_sdk \<Rightarrow> environment \<Rightarrow> string option \<Rightarrow> string option \<Rightarrow> string ops" where
  "remove_owner K D env departingOwnerAddress newThresholdArg =
     (if absent departingOwnerAddress then throw_m (JsError ''Usage'')
      else
      bind_m (lift_m (safe_loadConfig env)) (\<lambda>config.
      bind_m (sdk_call (\<lambda>n. sdk_init D n (init_for config None))) (\<lambda>_.
      bind_m (sdk_call (sdk_getOwners D)) (\<lambda>currentOwners.
      if toLowerCase (the departingOwnerAddress) \<notin> set (map toLowerCase currentOwners)
      then throw_m (JsError ''not currently an owner of this Safe'')
      else
      bind_m (sdk_call (sdk_getThreshold D)) (\<lambda>currentThreshold.
      let remainingOwnerCount = int (length currentOwners) - 1;
          newThreshold = (if absent newThresholdArg then js_int currentThreshold
                          else parse_num (the newThresholdArg)) in
      if num_less (js_int remainingOwnerCount) newThreshold
      then throw_m (JsError ''Threshold would exceed the remaining owners after removal'')
      else
      bind_m (sdk_call (\<lambda>n. sdk_createRemoveOwnerTx D n (the departingOwnerAddress) newThreshold)) (\<lambda>tx.
      signAndExecute K D config tx))))))"

end
