(* ===== verification/Safe_Properties.thy ===== *)
theory Safe_Properties
  imports Safe_Scripts
begin

text \<open>
  What the operator's tools promise: whose signatures an executed Safe transaction carries, when
  the owner and role scripts send anything at all, and how the list of keys is read.
\<close>

section \<open>An operator with two keys\<close>

definition ex_ops_env :: environment where
  "ex_ops_env = map_of [(''RPC_URL'', ''http://node''), (''CLAIM_REGISTRY_ADDRESS'', ''0xreg''),
     (''AWS_REGION'', ''eu''), (''OWNER_KMS_KEY_IDS'', ''k1, k2''),
     (''UNDERWRITER_SAFE_ADDRESS'', ''0xsafe''), (''SAFE_PROXY_FACTORY_ADDRESS'', ''0xf''),
     (''SAFE_SINGLETON_ADDRESS'', ''0xs''), (''DEPLOYER_PRIVATE_KEY'', ''0xkey'')]"

definition ex_ops_config :: safe_config where
  "ex_ops_config = \<lparr>sc_rpcUrl = ''http://node'', sc_chainId = js_int 1337,
     sc_claimRegistryAddress = ''0xreg'', awsRegion = ''eu'', ownerKmsKeyIds = [''k1'', ''k2''],
     safeThreshold = js_int 2, safeAddress = Some ''0xsafe'', safeProxyFactoryAddress = Some ''0xf'',
     safeSingletonAddress = Some ''0xs'', safeFallbackHandlerAddress = None\<rparr>"

lemma ex_ops_loads: "safe_loadConfig ex_ops_env = Inr ex_ops_config"
  by code_simp

text \<open>Every key has the address that is its name; the public key spells it in its bytes.\<close>

definition ex_point :: "string option \<Rightarrow> buffer" where
  "ex_point k = replicate 63 0 @ [if k = Some ''k2'' then 2 else 1]"

definition ex_address :: "string option \<Rightarrow> string" where
  "ex_address k = (if k = Some ''k2'' then ''0xb2'' else ''0xa1'')"

definition ex_ops_kms :: kms_lib where
  "ex_ops_kms = ex_kms\<lparr>kms_getPublicKey := (\<lambda>n k. Inr (der_spki [6, 1, 42] (ex_point k))),
     computeAddress := (\<lambda>h. Inr (if last h = CHR ''2'' then ''0xb2'' else ''0xa1''))\<rparr>"

definition ex_sdk :: safe_sdk where
  "ex_sdk = \<lparr>sdk_init = (\<lambda>n a. Inr ()), sdk_getThreshold = (\<lambda>n. Inr 2),
     sdk_getOwners = (\<lambda>n. Inr [''0xA1'', ''0xb2'', ''0xc3'']),
     sdk_signTransaction = (\<lambda>n a tx. Inr (tx\<lparr>safe_signers := safe_signers tx @ [a]\<rparr>)),
     sdk_executeTransaction = (\<lambda>n tx. Inr \<lparr>exec_hash = ''0xdead'', exec_wait = None\<rparr>),
     sdk_createTransaction = (\<lambda>n ts. Inr \<lparr>safe_data = concat (map mt_data ts), safe_signers = []\<rparr>),
     sdk_createAddOwnerTx = (\<lambda>n a t. Inr \<lparr>safe_data = ''add'' @ a, safe_signers = []\<rparr>),
     sdk_createRemoveOwnerTx = (\<lambda>n a t. Inr \<lparr>safe_data = ''remove'' @ a, safe_signers = []\<rparr>)\<rparr>"

definition ex_ops :: ops_world where
  "ex_ops = \<lparr>ops_kms_calls = [], ops_calls = 0, ops_actions = []\<rparr>"

definition ex_tx :: safe_tx where
  "ex_tx = \<lparr>safe_data = ''d'', safe_signers = []\<rparr>"

lemma ex_sdk_signs: "sdk_signs ex_sdk"
  by (simp add: sdk_signs_def ex_sdk_def)

lemma ex_point_reads: "publicKeyFromKmsDer (der_spki [6, 1, 42] (ex_point k)) = Inr (ex_point k)"
  by (rule public_key_reads_back) (simp_all add: ex_point_def)

lemma ex_last_digit:
  "last (''0x04'' @ to_hex (ex_point k)) = (if k = Some ''k2'' then CHR ''2'' else CHR ''1'')"
proof -
  have app: "to_hex (xs @ [b]) = to_hex xs @ [digit_char (unat b div 16), digit_char (unat b mod 16)]" for xs b
    by (simp add: to_hex_def byte_hex_def)
  have "digit_char 2 = CHR ''2''" "digit_char 1 = CHR ''1''" by code_simp+
  then show ?thesis by (simp add: ex_point_def app)
qed

lemma ex_keys: "keys_have_addresses ex_ops_kms ex_address"
  by (auto simp: keys_have_addresses_def ex_ops_kms_def ex_point_reads ex_address_def ex_last_digit
      split: if_splits simp del: append.simps)

lemma ex_owner_address: "owner_address ex_ops_kms k w =
    (Inr (ex_address k), w\<lparr>ops_kms_calls := ops_kms_calls w @ [GetPublicKeyCommand k]\<rparr>)"
  by (simp add: owner_address_def getAddress_def effect_simps kms_send_def new_KmsSigner_def
      ex_ops_kms_def ex_point_reads ex_address_def ex_last_digit del: append.simps)

lemmas ops_eval = bind_m_app ret_m_app lift_m_app throw_m_app sdk_call_def act_app ex_owner_address
  ex_sdk_def init_for_def key_at_def

lemma ex_execution: "\<exists>w'. signAndExecute ex_ops_kms ex_sdk ex_ops_config ex_tx ex_ops = (Inr ''0xdead'', w')"
proof -
  have "[0..<nat 2] = [0, 1]" by code_simp
  then show ?thesis
    by (simp add: signAndExecute_def sign_as_def ops_eval executed_hash_def)
qed

section \<open>The promises\<close>

text \<open>
  C21 (safety). A run of signAndExecute executes at most one transaction, as its last action, and
  only after every signature was collected: the executed transaction has the data it was given and
  exactly the signatures of the first t configured keys, in order, where t is the threshold read
  from the Safe. A run that fails before executes nothing, and a run that succeeds executed.
\<close>

theorem executed_with_threshold_signatures:
  assumes "sdk_signs D" and "keys_have_addresses K addr" and "signAndExecute K D c tx w = (r, w')"
  shows "\<exists>acts. list_all (\<lambda>a. \<not> is_execution a) acts \<and>
     (ops_actions w' = ops_actions w @ acts \<and> (\<exists>e. r = Inl e) \<or>
      (\<exists>t n stx. ops_actions w' = ops_actions w @ acts @ [SafeExecuted stx] \<and>
         sdk_getThreshold D n = Inr t \<and> safe_data stx = safe_data tx \<and>
         safe_signers stx = safe_signers tx @ map (\<lambda>i. addr (key_at c i)) [0..<nat t]))"
  using assms by (rule signAndExecute_effect)

theorem executed_with_threshold_signatures_witness:
  "\<exists>w' acts t stx. signAndExecute ex_ops_kms ex_sdk ex_ops_config ex_tx ex_ops = (Inr ''0xdead'', w') \<and>
     ops_actions w' = acts @ [SafeExecuted stx] \<and>
     safe_signers stx = map (\<lambda>i. ex_address (key_at ex_ops_config i)) [0..<nat t]"
proof -
  obtain w' where run: "signAndExecute ex_ops_kms ex_sdk ex_ops_config ex_tx ex_ops = (Inr ''0xdead'', w')"
    using ex_execution by blast
  with executed_with_threshold_signatures [OF ex_sdk_signs ex_keys run] show ?thesis
    by (auto simp: ex_ops_def ex_tx_def)
qed

lemma remove_owner_cases:
  assumes "remove_owner K D env dep thr w = (r, w')"
  obtains (stopped) e where "r = Inl e" "ops_actions w' = ops_actions w"
  | (proceeded) c owners new n m tx v where "safe_loadConfig env = Inr c"
      "sdk_getOwners D n = Inr owners" "toLowerCase (the dep) \<in> set (map toLowerCase owners)"
      "\<not> num_less (js_int (int (length owners) - 1)) new"
      "sdk_createRemoveOwnerTx D m (the dep) new = Inr tx" "ops_actions v = ops_actions w"
      "signAndExecute K D c tx v = (r, w')"
proof -
  have "(\<exists>e. r = Inl e \<and> ops_actions w' = ops_actions w) \<or>
    (\<exists>c owners new n m tx v. safe_loadConfig env = Inr c \<and> sdk_getOwners D n = Inr owners \<and>
       toLowerCase (the dep) \<in> set (map toLowerCase owners) \<and>
       \<not> num_less (js_int (int (length owners) - 1)) new \<and>
       sdk_createRemoveOwnerTx D m (the dep) new = Inr tx \<and> ops_actions v = ops_actions w \<and>
       signAndExecute K D c tx v = (r, w'))"
    using assms
    by (clarsimp simp: remove_owner_def bind_m_app sdk_call_def lift_m_app throw_m_app Let_def
        simp del: set_map split: sum.splits if_splits; fastforce simp del: set_map)
  with stopped proceeded show thesis by blast
qed


lemma ex_removal: "\<exists>w'. remove_owner ex_ops_kms ex_sdk ex_ops_env (Some ''0xa1'') None ex_ops = (Inr ''0xdead'', w')"
proof -
  have "[0..<nat 2] = [0, 1]" "toLowerCase ''0xa1'' \<in> set (map toLowerCase [''0xA1'', ''0xb2'', ''0xc3''])"
    by code_simp+
  then show ?thesis
    by (simp add: remove_owner_def ex_ops_loads absent_def truthy_def signAndExecute_def sign_as_def
        ops_eval executed_hash_def Let_def js_int_def)
qed


text \<open>
  The guard of 06-remove-owner compares with a number that parseInt may not have read: a
  threshold argument without a leading digit is NaN, no comparison with NaN holds, so the check of
  06-remove-owner passes for every list of owners and the SDK is asked for a removal with threshold
  NaN.
\<close>

lemma unreadable_threshold_passes_the_guard:
  assumes "safe_loadConfig env = Inr c" and "\<not> absent dep" and "\<not> absent thr"
    and "parseInt10 (the thr) = None"
    and "\<forall>n. sdk_init D n (init_for c None) = Inr ()" and "\<forall>n. sdk_getOwners D n = Inr owners"
    and "\<forall>n. sdk_getThreshold D n = Inr t" and "toLowerCase (the dep) \<in> set (map toLowerCase owners)"
  shows "remove_owner K D env dep thr w =
     bind_m (sdk_call (\<lambda>n. sdk_createRemoveOwnerTx D n (the dep) NaN)) (\<lambda>tx. signAndExecute K D c tx)
       (w\<lparr>ops_calls := Suc (Suc (Suc (ops_calls w)))\<rparr>)"
  using assms
  by (simp add: remove_owner_def bind_m_app lift_m_app sdk_call_def Let_def parse_num_def js_int_def
      split: sum.split)

lemma unreadable_threshold_passes_the_guard_example:
  "remove_owner ex_ops_kms ex_sdk ex_ops_env (Some ''0xa1'') (Some ''two'') ex_ops =
     bind_m (sdk_call (\<lambda>n. sdk_createRemoveOwnerTx ex_sdk n ''0xa1'' NaN))
       (\<lambda>tx. signAndExecute ex_ops_kms ex_sdk ex_ops_config tx)
       (ex_ops\<lparr>ops_calls := Suc (Suc (Suc (ops_calls ex_ops)))\<rparr>)"
proof -
  have "toLowerCase (the (Some ''0xa1'')) \<in> set (map toLowerCase [''0xA1'', ''0xb2'', ''0xc3''])"
    "parseInt10 (the (Some ''two'')) = None" by code_simp+
  from unreadable_threshold_passes_the_guard [OF ex_ops_loads, of "Some ''0xa1''" "Some ''two''" ex_sdk
      "[''0xA1'', ''0xb2'', ''0xc3'']" 2, OF _ _ this(2) _ _ _ this(1)]
  show ?thesis by (simp add: absent_def truthy_def ex_sdk_def)
qed

lemma resolve_owners_addresses:
  assumes "keys_have_addresses K addr"
  shows "resolve_owners K ks w = (Inr as, w') \<Longrightarrow> as = map (\<lambda>k. addr (Some k)) ks"
  by (induction ks arbitrary: w "as")
    (auto simp: bind_m_Inr ret_m_app dest: owner_address_Inr [OF assms])

lemma resolve_owners_actions: "resolve_owners K ks w = (r, w') \<Longrightarrow> ops_actions w' = ops_actions w"
proof (induction ks arbitrary: w r w')
  case (Cons k ks)
  obtain q v where q: "owner_address K (Some k) w = (q, v)" by fastforce
  then have v: "ops_actions v = ops_actions w" by (auto simp: owner_address_def split: prod.splits)
  obtain p u where p: "resolve_owners K ks v = (p, u)" by fastforce
  from Cons.IH [OF p] v q p Cons.prems show ?case
    by (cases q; cases p) (auto simp: bind_m_app ret_m_app)
qed (simp add: ret_m_app)

text \<open>
  Creating the Safe resolves the addresses of all configured keys, in their order,
  and sends a deployment only for exactly these owners and the configured threshold, when both
  contract addresses are known and the threshold is not above their number; on every other path
  no deployment is sent.
\<close>

lemma safe_created_for_configured_owners:
  assumes "keys_have_addresses K addr" and "create_underwriter_safe K L env w = (r, w')"
  shows "ops_actions w' = ops_actions w \<and> (\<exists>e. r = Inl e) \<or>
     (\<exists>c owners. safe_loadConfig env = Inr c \<and> safeProxyFactoryAddress c \<noteq> None \<and>
        safeSingletonAddress c \<noteq> None \<and> owners = map (\<lambda>k. addr (Some k)) (ownerKmsKeyIds c) \<and>
        ops_actions w' = ops_actions w @ [SafeDeploymentSent owners (safeThreshold c)] \<and>
        \<not> num_less (js_int (int (length (ownerKmsKeyIds c)))) (safeThreshold c))"
proof (cases "safe_loadConfig env")
  case (Inl e)
  with assms(2) show ?thesis by (auto simp: create_underwriter_safe_def bind_m_app lift_m_app)
next
  case (Inr c)
  obtain q v where q: "resolve_owners K (ownerKmsKeyIds c) w = (q, v)" by fastforce
  note v = resolve_owners_actions [OF q]
  have own: "q = Inr as \<Longrightarrow> as = map (\<lambda>k. addr (Some k)) (ownerKmsKeyIds c)" for "as"
    using q resolve_owners_addresses [OF assms(1)] by blast
  have left: "Inl e = x \<Longrightarrow> \<exists>e. x = Inl e" for e and x :: "js_error + string" by auto
  from assms(2) Inr q v show ?thesis
    by (cases q) (auto dest!: own intro: left simp: create_underwriter_safe_def bind_m_app lift_m_app throw_m_app ret_m_app act_app
        sdk_call_def split: sum.splits if_splits option.splits)
qed

definition ex_chain_lib :: chain_lib where
  "ex_chain_lib = \<lparr>cl_deployment = (\<lambda>l. Some \<lparr>art_canonical = None, art_eip155 = Some ''0x60''\<rparr>),
     cl_wallet = Inr, cl_deploy = (\<lambda>n b. Inr ''0xnew''), cl_predict = (\<lambda>n os t. Inr ''0xsafe''),
     cl_send = (\<lambda>n. Inr ()), cl_wait = (\<lambda>n. Inr (Some ''0xhash'')),
     cl_underwriterRole = (\<lambda>n. Inr ''0xrole''), cl_hasRole = (\<lambda>n r a. Inr True),
     cl_encode = (\<lambda>f as. Inr f)\<rparr>"

lemma ex_creation: "\<exists>w'. create_underwriter_safe ex_ops_kms ex_chain_lib ex_ops_env ex_ops = (Inr ''0xsafe'', w')"
proof -
  have "requireEnv ex_ops_env ''DEPLOYER_PRIVATE_KEY'' = Inr ''0xkey''" by code_simp
  then show ?thesis
    by (simp add: create_underwriter_safe_def ex_ops_loads ops_eval ex_ops_config_def ex_chain_lib_def js_int_def)
qed

lemma safe_created_example:
  "\<exists>w'. create_underwriter_safe ex_ops_kms ex_chain_lib ex_ops_env ex_ops = (Inr ''0xsafe'', w') \<and>
     ops_actions w' = [SafeDeploymentSent [ex_address (Some ''k1''), ex_address (Some ''k2'')] (js_int 2)]"
proof -
  obtain w' where run: "create_underwriter_safe ex_ops_kms ex_chain_lib ex_ops_env ex_ops = (Inr ''0xsafe'', w')"
    using ex_creation by blast
  with safe_created_for_configured_owners [OF ex_keys run] show ?thesis
    by (auto simp: ex_ops_loads ex_ops_config_def ex_ops_def)
qed

text \<open>
  Granting the role is idempotent: when the Safe has the role already the script
  succeeds without sending anything; otherwise it sends at most one grant, of the role the registry
  names to the configured Safe.
\<close>

lemma role_granted_once:
  assumes "safe_loadConfig env = Inr c" and "grant_underwriter_role L env w = (r, w')"
  shows "ops_actions w' = ops_actions w \<or>
     (\<exists>role safe n m. ops_actions w' = ops_actions w @ [RoleGranted role safe] \<and>
        safeAddress c = Some safe \<and> cl_underwriterRole L n = Inr role \<and>
        cl_hasRole L m role safe = Inr False)"
  using assms
  by (auto simp: grant_underwriter_role_def bind_m_app lift_m_app throw_m_app ret_m_app act_app
      sdk_call_def split: sum.splits if_splits option.splits)

lemma role_granted_example:
  "\<exists>r w'. grant_underwriter_role (ex_chain_lib\<lparr>cl_hasRole := (\<lambda>n r a. Inr (n \<noteq> 1))\<rparr>) ex_ops_env ex_ops = (r, w') \<and>
     (ops_actions w' = [] \<or> ops_actions w' = [RoleGranted ''0xrole'' ''0xsafe''])"
proof -
  obtain r w' where run: "grant_underwriter_role (ex_chain_lib\<lparr>cl_hasRole := (\<lambda>n r a. Inr (n \<noteq> 1))\<rparr>)
      ex_ops_env ex_ops = (r, w')" by fastforce
  with role_granted_once [OF ex_ops_loads run] show ?thesis
    by (auto simp: ex_ops_def ex_ops_config_def ex_chain_lib_def)
qed

text \<open>
  The claim action of 04-propose-and-execute-transaction is one of three: approve and
  reject encode setClaimStatus with the codes 2 and 4 that the indexer's table names approved and
  rejected, payout encodes payoutClaim; any other word stops the script before the Safe is even
  opened, so nothing is signed or executed.
\<close>

lemma only_three_claim_actions:
  "buildCalldata L ''approve'' i = cl_encode L ''setClaimStatus'' [i, js_int 2] \<and>
   buildCalldata L ''reject'' i = cl_encode L ''setClaimStatus'' [i, js_int 4] \<and>
   buildCalldata L ''payout'' i = cl_encode L ''payoutClaim'' [i] \<and>
   (action \<notin> {''approve'', ''reject'', ''payout''} \<longrightarrow>
      (\<exists>e. propose_and_execute K D L env claim (Some action) w = (Inl e, w)))"
  by (auto simp: buildCalldata_def CLAIM_STATUS_def propose_and_execute_def bind_m_app lift_m_app
      throw_m_app split: sum.split)

lemma other_action_example:
  "\<exists>e. propose_and_execute ex_ops_kms ex_sdk ex_chain_lib ex_ops_env (Some ''7'') (Some ''burn'') ex_ops =
     (Inl e, ex_ops)"
  using only_three_claim_actions [of ex_chain_lib NaN "''burn''" ex_ops_kms ex_sdk ex_ops_env "Some ''7''" ex_ops]
  by simp

lemma split_on_append:
  "c \<notin> set k \<Longrightarrow> split_on c (k @ c # rest) = k # split_on c rest" "c \<notin> set k \<Longrightarrow> split_on c k = [k]"
  by (induction k) auto

fun join :: "char \<Rightarrow> string list \<Rightarrow> string" where
  "join c [] = []"
| "join c [k] = k"
| "join c (k # ks) = k @ c # join c ks"

lemma split_on_join:
  "ks \<noteq> [] \<Longrightarrow> \<forall>k \<in> set ks. c \<notin> set k \<Longrightarrow> split_on c (join c ks) = ks"
  by (induction c ks rule: join.induct) (auto simp: split_on_append)

lemma trim_id: "\<forall>c \<in> set k. \<not> is_space c \<Longrightarrow> trim k = k"
proof -
  have "\<forall>c \<in> set k. \<not> is_space c \<Longrightarrow> dropWhile is_space k = k" for k by (cases k) auto
  from this [of k] this [of "rev k"] show "\<forall>c \<in> set k. \<not> is_space c \<Longrightarrow> trim k = k"
    by (simp add: trim_def)
qed

text \<open>
  The list of key ids survives the environment variable: any non-empty list of non-empty ids
  without commas or white space is read back as that list, in order.
\<close>

lemma key_ids_roundtrip:
  assumes "ks \<noteq> []" and "\<forall>k \<in> set ks. k \<noteq> [] \<and> CHR '','' \<notin> set k \<and> (\<forall>c \<in> set k. \<not> is_space c)"
    and "env ''OWNER_KMS_KEY_IDS'' = Some (join (CHR '','') ks)" and "safe_loadConfig env = Inr c"
  shows "ownerKmsKeyIds c = ks \<and> key_at c 0 = Some (hd ks)"
proof -
  have "map trim ks = ks" using assms(2) by (intro map_idI) (simp add: trim_id)
  moreover have "split_on (CHR '','') (join (CHR '','') ks) = ks" using assms(1,2) by (intro split_on_join) auto
  ultimately have "ownerKmsKeyIds c = ks"
    using assms(3,4) by (auto simp: safe_loadConfig_def bind_r_Inr requireEnv_Inr)
  with assms(1) show ?thesis by (cases ks) (auto simp: key_at_def)
qed

end
