(* ===== verification/Frontend_Contract.thy ===== *)
theory Frontend_Contract
  imports Js_Values
begin

text \<open>
  \<^verbatim>\<open>src/frontend/src/api/contract.js\<close>: the wallet transactions of the frontend and the evidence
  hash of a claim. The wallet, the chain and ethers' hashing, unit and encoding functions are
  parameters; the order of the transactions, the address checks and the salt are modelled.
\<close>

section \<open>The browser\<close>

datatype wallet_tx =
    Approve (spender: string) (approved_wei: int)
  | SubscribeToPolicy (template: int)
  | PayPremium (policy: js_num)
  | SubmitClaim (claim_policy: js_num) (claim_root: string) (claim_wei: int)

record policy_template =
  tpl_coverageAmount :: int
  tpl_premiumAmountPerPeriod :: int
  tpl_periodSeconds :: int
  tpl_termSeconds :: int
  tpl_active :: bool

record browser_lib =
  CLAIM_REGISTRY :: "string option"
  INSURANCE_POLICY :: "string option"
  STABLECOIN :: "string option"
  CHAIN_RPC :: "string option"
  getSigner :: "nat \<Rightarrow> js_error + unit"
  sendTx :: "nat \<Rightarrow> wallet_tx \<Rightarrow> js_error + unit"
  waitTx :: "nat \<Rightarrow> js_error + string option"
  policyTemplates :: "nat \<Rightarrow> int \<Rightarrow> js_error + policy_template"
  parseEther :: "string \<Rightarrow> js_error + int"
  formatEther :: "int \<Rightarrow> string"
  parseWei :: "string \<Rightarrow> js_error + int"
  getRandomValues :: "nat \<Rightarrow> buffer"
  randomUUID :: "nat \<Rightarrow> string"
  getBytes :: "string \<Rightarrow> js_error + buffer"
  toUtf8Bytes :: "string \<Rightarrow> buffer"
  keccak :: "buffer \<Rightarrow> string"

text \<open>Transactions sent, in order, and those that were mined.\<close>

record browser =
  sent :: "wallet_tx list"
  mined :: "wallet_tx list"
  wallet_calls :: nat
  randoms :: nat

type_synonym 'a page = "(browser, 'a) jsm"

definition zero_address :: string where
  "zero_address = ''0x'' @ replicate 40 (CHR ''0'')"

definition requireAddress :: "string option \<Rightarrow> string \<Rightarrow> js_error + string" where
  "requireAddress address envVarName = (case address of
       None \<Rightarrow> Inl (JsError (envVarName @ '' is not configured.''))
     | Some a \<Rightarrow> if a = [] \<or> a = zero_address then Inl (JsError (envVarName @ '' is not configured.''))
               else Inr a)"

definition getReadProvider :: "browser_lib \<Rightarrow> js_error + string" where
  "getReadProvider B = (case CHAIN_RPC B of
       Some u \<Rightarrow> if u \<noteq> [] then Inr u else Inl (JsError ''VITE_CHAIN_RPC_URL is not configured.'')
     | None \<Rightarrow> Inl (JsError ''VITE_CHAIN_RPC_URL is not configured.''))"

definition wallet_call :: "(nat \<Rightarrow> js_error + 'a) \<Rightarrow> 'a page" where
  "wallet_call f = (\<lambda>b. (f (wallet_calls b), b\<lparr>wallet_calls := Suc (wallet_calls b)\<rparr>))"

text \<open>
  \<^verbatim>\<open>const tx = await contract.f(..); const receipt = await tx.wait()\<close>: a transaction that was sent
  stays sent when the wait fails. The receipt may be \<^verbatim>\<open>null\<close>; reading its hash then throws.
\<close>

definition send_and_wait :: "browser_lib \<Rightarrow> wallet_tx \<Rightarrow> string option page" where
  "send_and_wait B tx =
     bind_m (wallet_call (\<lambda>n. sendTx B n tx)) (\<lambda>_.
     bind_m (modify_m (\<lambda>b. b\<lparr>sent := sent b @ [tx]\<rparr>)) (\<lambda>_.
     bind_m (wallet_call (waitTx B)) (\<lambda>receipt.
     bind_m (modify_m (\<lambda>b. b\<lparr>mined := mined b @ [tx]\<rparr>)) (\<lambda>_. ret_m receipt))))"

definition receipt_hash_of :: "string option \<Rightarrow> js_error + string" where
  "receipt_hash_of receipt = (case receipt of
     None \<Rightarrow> Inl (JsTypeError ''Cannot read properties of null'') | Some h \<Rightarrow> Inr h)"

section \<open>Transactions\<close>

definition submitClaimOnChain :: "browser_lib \<Rightarrow> js_num \<Rightarrow> string \<Rightarrow> string \<Rightarrow> string page" where
  "submitClaimOnChain B policyId merkleRoot amountEther =
     bind_m (lift_m (requireAddress (CLAIM_REGISTRY B) ''VITE_CLAIM_REGISTRY_ADDRESS'')) (\<lambda>_.
     bind_m (lift_m (parseEther B amountEther)) (\<lambda>amountWei.
     bind_m (send_and_wait B (SubmitClaim policyId merkleRoot amountWei)) (\<lambda>receipt.
     lift_m (receipt_hash_of receipt))))"

record template_view =
  coverageAmountEther :: string
  premiumAmountPerPeriodEther :: string
  periodSeconds :: int
  termSeconds :: int
  tv_active :: bool

definition getPolicyTemplate :: "browser_lib \<Rightarrow> int \<Rightarrow> template_view page" where
  "getPolicyTemplate B templateId =
     bind_m (lift_m (requireAddress (INSURANCE_POLICY B) ''VITE_INSURANCE_POLICY_ADDRESS'')) (\<lambda>_.
     bind_m (lift_m (getReadProvider B)) (\<lambda>_.
     bind_m (wallet_call (\<lambda>n. policyTemplates B n templateId)) (\<lambda>t.
     ret_m \<lparr>coverageAmountEther = formatEther B (tpl_coverageAmount t),
       premiumAmountPerPeriodEther = formatEther B (tpl_premiumAmountPerPeriod t),
       periodSeconds = tpl_periodSeconds t, termSeconds = tpl_termSeconds t, tv_active = tpl_active t\<rparr>)))"

text \<open>Both payments: the address checks, the approval, then the call that spends it.\<close>

definition approve_then :: "browser_lib \<Rightarrow> string \<Rightarrow> wallet_tx \<Rightarrow> (string option \<times> string option) page" where
  "approve_then B premiumAmountEther pay =
     bind_m (lift_m (requireAddress (INSURANCE_POLICY B) ''VITE_INSURANCE_POLICY_ADDRESS'')) (\<lambda>policyAddress.
     bind_m (lift_m (requireAddress (STABLECOIN B) ''VITE_STABLECOIN_ADDRESS'')) (\<lambda>_.
     bind_m (lift_m (parseEther B premiumAmountEther)) (\<lambda>amountWei.
     bind_m (send_and_wait B (Approve policyAddress amountWei)) (\<lambda>approveReceipt.
     bind_m (send_and_wait B pay) (\<lambda>payReceipt. ret_m (approveReceipt, payReceipt))))))"

definition subscribeToPolicyOnChain :: "browser_lib \<Rightarrow> int \<Rightarrow> string \<Rightarrow> (string \<times> string) page" where
  "subscribeToPolicyOnChain B templateId premiumAmountEther =
     bind_m (approve_then B premiumAmountEther (SubscribeToPolicy templateId)) (\<lambda>(approveReceipt, subscribeReceipt).
     bind_m (lift_m (receipt_hash_of approveReceipt)) (\<lambda>approveTxHash.
     bind_m (lift_m (receipt_hash_of subscribeReceipt)) (\<lambda>subscribeTxHash.
     ret_m (approveTxHash, subscribeTxHash))))"

definition payPremiumOnChain :: "browser_lib \<Rightarrow> js_num \<Rightarrow> string \<Rightarrow> string page" where
  "payPremiumOnChain B policyId premiumAmountEther =
     bind_m (approve_then B premiumAmountEther (PayPremium policyId)) (\<lambda>(_, receipt).
     lift_m (receipt_hash_of receipt))"

section \<open>The evidence hash\<close>

definition salt_hex :: "buffer \<Rightarrow> string" where
  "salt_hex bytes = ''0x'' @ concat (map (\<lambda>b. padStart 2 (CHR ''0'') (to_base 16 (unat b))) bytes)"

definition generateClaimSalt :: "browser_lib \<Rightarrow> string page" where
  "generateClaimSalt B = (\<lambda>b.
     (Inr (salt_hex (getRandomValues B (randoms b))), b\<lparr>randoms := Suc (randoms b)\<rparr>))"

definition evidence_bytes :: "browser_lib \<Rightarrow> string \<Rightarrow> string \<Rightarrow> js_error + buffer" where
  "evidence_bytes B claimDescription salt = bind_r (getBytes B salt) (\<lambda>saltBytes.
     Inr (saltBytes @ toUtf8Bytes B (if claimDescription = [] then ''no-description-provided'' else claimDescription)))"

definition placeholderMerkleRoot :: "browser_lib \<Rightarrow> string \<Rightarrow> string \<Rightarrow> js_error + string" where
  "placeholderMerkleRoot B claimDescription salt =
     (if salt = [] then Inl (JsError ''placeholderMerkleRoot requires a salt - call generateClaimSalt() first.'')
      else bind_r (evidence_bytes B claimDescription salt) (\<lambda>bs. Inr (keccak B bs)))"

section \<open>Lemmas\<close>

lemma byte_digits: "padStart 2 (CHR ''0'') (to_base 16 (unat b)) = byte_hex (b :: byte)"
proof -
  have b: "unat b < 256" by (rule unat_byte_less)
  show ?thesis
  proof (cases "unat b < 16")
    case True
    then show ?thesis
      by (simp add: to_base.simps [of 16 "unat b"] padStart_def byte_hex_def digit_char_def)
  next
    case False
    then have "unat b div 16 < 16" using b by simp
    with False show ?thesis
      by (simp add: to_base.simps [of 16 "unat b"] to_base.simps [of 16 "unat b div 16"] padStart_def
          byte_hex_def)
  qed
qed

lemma salt_hex_to_hex: "salt_hex bytes = ''0x'' @ to_hex bytes"
  by (simp add: salt_hex_def to_hex_def byte_digits)

lemma to_hex_digits: "list_all (\<lambda>c. digit_val c \<noteq> None) (to_hex bs)"
proof (induction bs)
  case (Cons b bs)
  have "unat b div 16 < 16" using unat_byte_less [of b] by simp
  with Cons show ?case by (simp add: digit_val_char)
qed simp

text \<open>A reading of hex strings, with which the law of \<^verbatim>\<open>ethers.getBytes\<close> holds.\<close>

definition hex_bytes :: "string \<Rightarrow> js_error + buffer" where
  "hex_bytes s = (if take 2 s = ''0x'' \<and> even (length s) \<and> list_all (\<lambda>c. digit_val c \<noteq> None) (drop 2 s)
     then Inr (from_hex (drop 2 s)) else Inl (JsError ''invalid BytesLike value''))"

lemma hex_bytes_hex: "hex_bytes (''0x'' @ to_hex bytes) = Inr bytes"
  using to_hex_digits [of bytes] by (simp add: hex_bytes_def)

lemma requireAddress_Inr: "requireAddress a nm = Inr x \<longleftrightarrow> a = Some x \<and> x \<noteq> [] \<and> x \<noteq> zero_address"
  by (auto simp: requireAddress_def split: option.splits if_splits)

text \<open>What a send may leave behind.\<close>

lemma send_and_wait_cases:
  assumes "send_and_wait B tx b = (r, b')"
  obtains (unsent) e where "r = Inl e" "sent b' = sent b" "mined b' = mined b"
  | (pending) e where "r = Inl e" "sent b' = sent b @ [tx]" "mined b' = mined b"
  | (mined_ok) h where "r = Inr h" "sent b' = sent b @ [tx]" "mined b' = mined b @ [tx]"
proof (cases "sendTx B (wallet_calls b) tx")
  case (Inl e)
  with assms show thesis
    by (intro unsent [of e]) (auto simp: send_and_wait_def bind_m_app wallet_call_def)
next
  case (Inr x)
  show thesis
  proof (cases "waitTx B (Suc (wallet_calls b))")
    case (Inl e)
    with assms Inr show thesis
      by (intro pending [of e]) (auto simp: send_and_wait_def effect_simps wallet_call_def)
  next
    case (Inr h)
    with assms \<open>sendTx B (wallet_calls b) tx = Inr x\<close> show thesis
      by (intro mined_ok [of h]) (auto simp: send_and_wait_def effect_simps wallet_call_def)
  qed
qed

lemma approve_then_cases:
  assumes "approve_then B amt pay b = (r, b')"
  obtains (nothing_sent) e where "r = Inl e" "sent b' = sent b"
  | (only_approved) e p wei where "r = Inl e" "INSURANCE_POLICY B = Some p" "p \<noteq> zero_address" "parseEther B amt = Inr wei"
      "sent b' = sent b @ [Approve p wei]"
  | (paid) p wei where "INSURANCE_POLICY B = Some p" "parseEther B amt = Inr wei"
      "p \<noteq> zero_address"
      "sent b' = sent b @ [Approve p wei, pay]" "mined b' = mined b @ [Approve p wei] \<and> isl r \<or>
         mined b' = mined b @ [Approve p wei, pay] \<and> \<not> isl r"
proof -
  consider (bad) e where "approve_then B amt pay b = (Inl e, b)"
    | (good) p c wei where "requireAddress (INSURANCE_POLICY B) ''VITE_INSURANCE_POLICY_ADDRESS'' = Inr p"
        "requireAddress (STABLECOIN B) ''VITE_STABLECOIN_ADDRESS'' = Inr c" "parseEther B amt = Inr wei"
    by (cases "requireAddress (INSURANCE_POLICY B) ''VITE_INSURANCE_POLICY_ADDRESS''";
        cases "requireAddress (STABLECOIN B) ''VITE_STABLECOIN_ADDRESS''"; cases "parseEther B amt")
      (auto simp: approve_then_def bind_m_app lift_m_app)
  then show thesis
  proof cases
    case bad
    with assms show thesis by (intro nothing_sent) auto
  next
    case good
    then have p: "INSURANCE_POLICY B = Some p" "p \<noteq> zero_address" by (simp_all add: requireAddress_Inr)
    obtain q v where q: "send_and_wait B (Approve p wei) b = (q, v)" by fastforce
    obtain s u where s: "send_and_wait B pay v = (s, u)" by fastforce
    from assms good q s have run: "(r, b') = (case q of Inl e \<Rightarrow> (Inl e, v)
        | Inr x \<Rightarrow> (case s of Inl e \<Rightarrow> (Inl e, u) | Inr y \<Rightarrow> (Inr (x, y), u)))"
      by (cases q; cases s) (simp_all add: approve_then_def bind_m_app lift_m_app ret_m_app)
    from q show thesis
    proof (cases rule: send_and_wait_cases)
      case (unsent e)
      with run show thesis by (intro nothing_sent) auto
    next
      case (pending e)
      with run p good(3) show thesis by (intro only_approved) auto
    next
      case (mined_ok h)
      from s show thesis
        by (cases rule: send_and_wait_cases)
          (use run mined_ok p good(3) in \<open>auto intro: only_approved paid\<close>)
    qed
  qed
qed

end
