(* ===== verification/Frontend_Pages.thy ===== *)
theory Frontend_Pages
  imports Frontend_Contract
begin

text \<open>
  The pages of the frontend: \<^verbatim>\<open>hooks/useWallet.js\<close>, \<^verbatim>\<open>context/AuthContext.jsx\<close>, \<^verbatim>\<open>api/client.js\<close>,
  \<^verbatim>\<open>pages/*.jsx\<close>, \<^verbatim>\<open>components/*.jsx\<close> and \<^verbatim>\<open>App.jsx\<close> under \<^verbatim>\<open>src/frontend/src\<close>.

  A component's hooks are a record, its event handlers effects on it, its rendering a function to
  the controls it shows. A handler runs to its end before the next event, since the controls that would
  start another are disabled meanwhile; the one page where they are not is taken up in
  \<^verbatim>\<open>Frontend_Async\<close>. The backend's answers, the
  wallet and \<^verbatim>\<open>Number(..)\<close> of an input field are parameters.
\<close>

section \<open>Handlers that show they are busy\<close>

text \<open>
  The shape of the asynchronous handlers: set the flag, run the body, keep its error for the user,
  and clear the flag in \<^verbatim>\<open>finally\<close>.
\<close>

definition busy_run :: "('s \<Rightarrow> 's) \<Rightarrow> ('s, unit) jsm \<Rightarrow> (js_error \<Rightarrow> 's \<Rightarrow> 's) \<Rightarrow> ('s \<Rightarrow> 's) \<Rightarrow> ('s, unit) jsm" where
  "busy_run start body failed finish =
     bind_m (modify_m start) (\<lambda>_.
     finally_m (try_m body (\<lambda>e. modify_m (failed e))) (modify_m finish))"

locale busy_flag =
  fixes busy :: "'s \<Rightarrow> bool" and finish :: "'s \<Rightarrow> 's"
  assumes finish_clears: "\<not> busy (finish s)"
begin

lemma run_finishes: "\<exists>t. busy_run start body failed finish s = (Inr (), t) \<and> \<not> busy t"
  by (cases "body (start s)")
    (auto simp: busy_run_def effect_simps finish_clears split: sum.split)

end

text \<open>The outcome of such a handler: the body's, or the failure recorded after it.\<close>

lemma busy_run_app:
  "busy_run start body failed finish s = (case body (start s) of
     (Inl e, t) \<Rightarrow> (Inr (), finish (failed e t)) | (Inr _, t) \<Rightarrow> (Inr (), finish t))"
  by (cases "body (start s)") (auto simp: busy_run_def effect_simps split: sum.split)

section \<open>State\<close>

record claim_data =
  cd_id :: int
  cd_policy_id :: int
  cd_status :: string
  cd_onchain_claim_id :: "int option"

record claim_post =
  policy_id :: js_num
  declared_amount :: js_num
  merkle_root :: string
  merkle_salt :: string

record catalog_entry =
  template_id :: int
  premium_amount_per_period_wei :: int
  coverage_amount_wei :: int

record premium_status =
  premium_current :: bool
  ps_premium_wei :: int

datatype api_call =
    GetNonce string
  | LoginWallet string string
  | ListClaims string
  | GetClaim string string
  | CreateClaim string claim_post
  | TriggerVerification string int string
  | GetPolicyCatalog
  | GetPolicyStatus int

datatype step = Idle | Creating | SubmittingOnchain | Done

record auth_state =
  account :: "string option"
  wallet_error :: "string option"
  token :: "string option"
  loginError :: "string option"
  loggingIn :: bool

record buy_state =
  templates :: "catalog_entry list option"
  buy_error :: "string option"
  subscribing :: "int option"
  buy_result :: "(int \<times> string \<times> string) option"

record file_state =
  in_policyId :: string
  in_amount :: string
  in_description :: string
  file_step :: step
  file_error :: "string option"
  file_result :: "(int \<times> string) option"

record status_state =
  in_claimId :: string
  claim :: "claim_data option"
  status_error :: "string option"
  verifying :: bool
  idempotencyKey :: "string option"

record badge_state =
  badge_policy :: int
  status :: "premium_status option"
  loadError :: "string option"
  payError :: "string option"
  paying :: bool
  txHash :: "string option"

record dash_state =
  claims :: "claim_data list option"
  dash_error :: "string option"

record app =
  browser :: browser
  api_log :: "api_call list"
  auth :: auth_state
  buy :: buy_state
  filing :: file_state
  lookup :: status_state
  badge :: badge_state
  dash :: dash_state

record backend_lib =
  be_nonce :: "nat \<Rightarrow> js_error + string"
  be_login :: "nat \<Rightarrow> js_error + string"
  be_claims :: "nat \<Rightarrow> js_error + claim_data list"
  be_claim :: "nat \<Rightarrow> js_error + claim_data"
  be_create :: "nat \<Rightarrow> js_error + claim_data"
  be_trigger :: "nat \<Rightarrow> js_error + unit"
  be_catalog :: "nat \<Rightarrow> js_error + catalog_entry list"
  be_policy :: "nat \<Rightarrow> js_error + premium_status"
  window_ethereum :: bool
  requestAccounts :: "nat \<Rightarrow> js_error + string list"
  wallet_sign :: "nat \<Rightarrow> string \<Rightarrow> js_error + string"
  numberOf :: "string \<Rightarrow> js_num"

definition in_browser :: "'a page \<Rightarrow> (app, 'a) jsm" where
  "in_browser m = (\<lambda>s. case m (browser s) of (r, b) \<Rightarrow> (r, s\<lparr>browser := b\<rparr>))"

text \<open>A call of \<^verbatim>\<open>api/client.js\<close>: it is logged, and answered by the backend.\<close>

definition api :: "api_call \<Rightarrow> (nat \<Rightarrow> js_error + 'a) \<Rightarrow> (app, 'a) jsm" where
  "api c answer = (\<lambda>s. (answer (length (api_log s)), s\<lparr>api_log := api_log s @ [c]\<rparr>))"

text \<open>\<^verbatim>\<open>err?.response?.data?.detail || err?.message || fallback\<close>, and the two shorter forms.\<close>

definition or_text :: "string option \<Rightarrow> string \<Rightarrow> string" where
  "or_text v d = (case v of None \<Rightarrow> d | Some t \<Rightarrow> if t = [] then d else t)"

fun error_detail :: "js_error \<Rightarrow> string option" where
  "error_detail (HttpError d m) = d"
| "error_detail _ = None"

definition detail_or_message :: "js_error \<Rightarrow> string \<Rightarrow> string" where
  "detail_or_message e d = or_text (error_detail e) (or_text (Some (error_message e)) d)"

definition message_or :: "js_error \<Rightarrow> string \<Rightarrow> string" where
  "message_or e d = or_text (Some (error_message e)) d"

definition detail_or :: "js_error \<Rightarrow> string \<Rightarrow> string" where
  "detail_or e d = or_text (error_detail e) d"

text \<open>A message is rendered when it is truthy.\<close>

definition shown :: "string option \<Rightarrow> string option" where
  "shown e = (case e of None \<Rightarrow> None | Some t \<Rightarrow> if t = [] then None else Some t)"

text \<open>
  The \<^verbatim>\<open>useEffect\<close> that loads a page's data: the answer is dropped when the effect was cancelled
  (the component unmounted, or its inputs changed) before it arrived.
\<close>

definition load_effect :: "bool \<Rightarrow> (app, 'a) jsm \<Rightarrow> ('a \<Rightarrow> app \<Rightarrow> app) \<Rightarrow> (js_error \<Rightarrow> app \<Rightarrow> app) \<Rightarrow> (app, unit) jsm" where
  "load_effect cancelled request store failed =
     try_m (bind_m request (\<lambda>r. if cancelled then ret_m () else modify_m (store r)))
       (\<lambda>e. if cancelled then ret_m () else modify_m (failed e))"

abbreviation set_auth :: "(auth_state \<Rightarrow> auth_state) \<Rightarrow> app \<Rightarrow> app" where
  "set_auth f s \<equiv> s\<lparr>auth := f (auth s)\<rparr>"

abbreviation set_buy :: "(buy_state \<Rightarrow> buy_state) \<Rightarrow> app \<Rightarrow> app" where
  "set_buy f s \<equiv> s\<lparr>buy := f (buy s)\<rparr>"

abbreviation set_file :: "(file_state \<Rightarrow> file_state) \<Rightarrow> app \<Rightarrow> app" where
  "set_file f s \<equiv> s\<lparr>filing := f (filing s)\<rparr>"

abbreviation set_lookup :: "(status_state \<Rightarrow> status_state) \<Rightarrow> app \<Rightarrow> app" where
  "set_lookup f s \<equiv> s\<lparr>lookup := f (lookup s)\<rparr>"

abbreviation set_dash :: "(dash_state \<Rightarrow> dash_state) \<Rightarrow> app \<Rightarrow> app" where
  "set_dash f s \<equiv> s\<lparr>dash := f (dash s)\<rparr>"

abbreviation set_badge :: "(badge_state \<Rightarrow> badge_state) \<Rightarrow> app \<Rightarrow> app" where
  "set_badge f s \<equiv> s\<lparr>badge := f (badge s)\<rparr>"

section \<open>Wallet and session\<close>

definition wallet_connect :: "backend_lib \<Rightarrow> (app, string option) jsm" where
  "wallet_connect E =
     bind_m (modify_m (set_auth (\<lambda>a. a\<lparr>wallet_error := None\<rparr>))) (\<lambda>_.
     if \<not> window_ethereum E
     then bind_m (modify_m (set_auth (\<lambda>a. a\<lparr>wallet_error := Some ''No wallet extension detected (e.g. MetaMask).''\<rparr>)))
            (\<lambda>_. ret_m None)
     else try_m
       (bind_m (in_browser (wallet_call (requestAccounts E))) (\<lambda>accounts.
        let first = (case accounts of [] \<Rightarrow> None | x # _ \<Rightarrow> Some x) in
        bind_m (modify_m (set_auth (\<lambda>a. a\<lparr>account := first\<rparr>))) (\<lambda>_. ret_m first)))
       (\<lambda>e. bind_m (modify_m (set_auth (\<lambda>a. a\<lparr>wallet_error := Some (message_or e ''Wallet connection was rejected.'')\<rparr>)))
          (\<lambda>_. ret_m None)))"

definition getSignerOf :: "backend_lib \<Rightarrow> browser_lib \<Rightarrow> (app, unit) jsm" where
  "getSignerOf E B = (if \<not> window_ethereum E then throw_m (JsError ''No wallet extension detected.'')
     else in_browser (wallet_call (getSigner B)))"

definition signMessageWith :: "backend_lib \<Rightarrow> browser_lib \<Rightarrow> string \<Rightarrow> (app, string) jsm" where
  "signMessageWith E B message =
     bind_m (getSignerOf E B) (\<lambda>_.
     try_m (in_browser (wallet_call (\<lambda>n. wallet_sign E n message)))
       (\<lambda>e. throw_m (JsError (message_or e ''Signature request was rejected.''))))"

text \<open>\<^verbatim>\<open>wallet.account || (await wallet.connect())\<close>\<close>

definition login_address :: "backend_lib \<Rightarrow> (app, string option) jsm" where
  "login_address E = bind_m (gets_m (\<lambda>s. account (auth s))) (\<lambda>a.
     case a of Some x \<Rightarrow> if x \<noteq> [] then ret_m (Some x) else wallet_connect E
     | None \<Rightarrow> wallet_connect E)"

definition login :: "backend_lib \<Rightarrow> browser_lib \<Rightarrow> (app, unit) jsm" where
  "login E B = busy_run (set_auth (\<lambda>a. a\<lparr>loginError := None, loggingIn := True\<rparr>))
     (bind_m (login_address E) (\<lambda>address.
      if address = None \<or> address = Some [] then throw_m (JsError ''Wallet not connected.'')
      else
      bind_m (api (GetNonce (the address)) (be_nonce E)) (\<lambda>message.
      bind_m (signMessageWith E B message) (\<lambda>signature.
      bind_m (api (LoginWallet (the address) signature) (be_login E)) (\<lambda>access_token.
      modify_m (set_auth (\<lambda>a. a\<lparr>token := Some access_token\<rparr>)))))))
     (\<lambda>e. set_auth (\<lambda>a. a\<lparr>loginError := Some (detail_or_message e ''Login failed.''), token := None\<rparr>))
     (set_auth (\<lambda>a. a\<lparr>loggingIn := False\<rparr>))"

definition logout :: "(app, unit) jsm" where
  "logout = modify_m (set_auth (\<lambda>a. a\<lparr>token := None\<rparr>))"

definition isAuthenticated :: "app \<Rightarrow> bool" where
  "isAuthenticated s = (case token (auth s) of None \<Rightarrow> False | Some t \<Rightarrow> t \<noteq> [])"

text \<open>\<^verbatim>\<open>WalletConnectButton\<close>: log out when there is a session, else the login button and the last error.\<close>

datatype wallet_view = LoggedIn | ConnectButton bool "string option"

definition WalletConnectButton :: "app \<Rightarrow> wallet_view" where
  "WalletConnectButton s = (if isAuthenticated s then LoggedIn
     else ConnectButton (\<not> loggingIn (auth s))
       (case shown (loginError (auth s)) of Some e \<Rightarrow> Some e | None \<Rightarrow> shown (wallet_error (auth s))))"

section \<open>Buying a policy\<close>

definition load_catalog :: "backend_lib \<Rightarrow> bool \<Rightarrow> (app, unit) jsm" where
  "load_catalog E cancelled = load_effect cancelled (api GetPolicyCatalog (be_catalog E))
     (\<lambda>ts. set_buy (\<lambda>p. p\<lparr>templates := Some ts\<rparr>))
     (\<lambda>e. set_buy (\<lambda>p. p\<lparr>buy_error := Some (detail_or e ''Could not load the policy catalog.'')\<rparr>))"

definition handleSubscribe :: "browser_lib \<Rightarrow> catalog_entry \<Rightarrow> (app, unit) jsm" where
  "handleSubscribe B t = busy_run
     (set_buy (\<lambda>p. p\<lparr>buy_error := None, buy_result := None, subscribing := Some (template_id t)\<rparr>))
     (bind_m (in_browser (wallet_call (getSigner B))) (\<lambda>_.
      bind_m (in_browser (subscribeToPolicyOnChain B (template_id t)
        (formatEther B (premium_amount_per_period_wei t)))) (\<lambda>(approveTx, subscribeTx).
      modify_m (set_buy (\<lambda>p. p\<lparr>buy_result := Some (template_id t, approveTx, subscribeTx)\<rparr>)))))
     (\<lambda>e. set_buy (\<lambda>p. p\<lparr>buy_error := Some (message_or e ''Subscription failed.'')\<rparr>))
     (set_buy (\<lambda>p. p\<lparr>subscribing := None\<rparr>))"

text \<open>What \<^verbatim>\<open>BuyPolicy\<close> shows: the button of a plan is enabled when nothing is in flight.\<close>

datatype buy_view = BuyError string | BuyLoading
  | BuyPlans "(int \<times> bool) list" "string option" "(int \<times> string \<times> string) option"

definition render_buy :: "buy_state \<Rightarrow> buy_view" where
  "render_buy p = (case templates p of
       None \<Rightarrow> (case shown (buy_error p) of Some e \<Rightarrow> BuyError e | None \<Rightarrow> BuyLoading)
     | Some ts \<Rightarrow> BuyPlans (map (\<lambda>t. (template_id t, subscribing p = None)) ts) (shown (buy_error p)) (buy_result p))"

section \<open>Filing a claim\<close>

text \<open>The part of the submission inside its \<^verbatim>\<open>try\<close>.\<close>

definition submission_body :: "backend_lib \<Rightarrow> browser_lib \<Rightarrow> string option \<Rightarrow> file_state \<Rightarrow> string \<Rightarrow> string \<Rightarrow> (app, unit) jsm" where
  "submission_body E B tok inp salt merkleRoot =
     bind_m (modify_m (set_file (\<lambda>f. f\<lparr>file_step := Creating\<rparr>))) (\<lambda>_.
     bind_m (api (CreateClaim (case tok of None \<Rightarrow> ''null'' | Some t \<Rightarrow> t)
       \<lparr>policy_id = numberOf E (in_policyId inp), declared_amount = numberOf E (in_amount inp),
        merkle_root = merkleRoot, merkle_salt = salt\<rparr>) (be_create E)) (\<lambda>backendClaim.
     bind_m (modify_m (set_file (\<lambda>f. f\<lparr>file_step := SubmittingOnchain\<rparr>))) (\<lambda>_.
     bind_m (in_browser (wallet_call (getSigner B))) (\<lambda>_.
     bind_m (in_browser (submitClaimOnChain B (numberOf E (in_policyId inp)) merkleRoot (in_amount inp))) (\<lambda>tx.
     modify_m (set_file (\<lambda>f. f\<lparr>file_step := Done, file_result := Some (cd_id backendClaim, tx)\<rparr>)))))))"

definition handleSubmit :: "backend_lib \<Rightarrow> browser_lib \<Rightarrow> (app, unit) jsm" where
  "handleSubmit E B =
     bind_m (modify_m (set_file (\<lambda>f. f\<lparr>file_error := None, file_result := None\<rparr>))) (\<lambda>_.
     bind_m (gets_m filing) (\<lambda>inp.
     if in_policyId inp = [] \<or> in_amount inp = []
     then modify_m (set_file (\<lambda>f. f\<lparr>file_error := Some ''Policy ID and amount are required.''\<rparr>))
     else
     bind_m (in_browser (generateClaimSalt B)) (\<lambda>salt.
     bind_m (lift_m (placeholderMerkleRoot B (in_description inp) salt)) (\<lambda>merkleRoot.
     bind_m (gets_m (\<lambda>s. token (auth s))) (\<lambda>tok.
     try_m (submission_body E B tok inp salt merkleRoot)
       (\<lambda>e. modify_m (set_file (\<lambda>f. f\<lparr>file_step := Idle,
          file_error := Some (detail_or_message e ''Claim submission failed.'')\<rparr>))))))))"

definition submit_disabled :: "file_state \<Rightarrow> bool" where
  "submit_disabled f \<longleftrightarrow> file_step f \<noteq> Idle \<and> file_step f \<noteq> Done"

section \<open>Looking a claim up\<close>

definition handleSearch :: "backend_lib \<Rightarrow> browser_lib \<Rightarrow> (app, unit) jsm" where
  "handleSearch E B =
     bind_m (modify_m (set_lookup (\<lambda>l. l\<lparr>status_error := None, claim := None\<rparr>))) (\<lambda>_.
     bind_m (gets_m (\<lambda>s. (token (auth s), in_claimId (lookup s)))) (\<lambda>(tok, cid).
     try_m
       (bind_m (api (GetClaim (case tok of None \<Rightarrow> ''null'' | Some t \<Rightarrow> t) cid) (be_claim E)) (\<lambda>c.
        bind_m (modify_m (set_lookup (\<lambda>l. l\<lparr>claim := Some c\<rparr>))) (\<lambda>_.
        bind_m (in_browser (\<lambda>b. (Inr (randomUUID B (randoms b)), b\<lparr>randoms := Suc (randoms b)\<rparr>))) (\<lambda>k.
        modify_m (set_lookup (\<lambda>l. l\<lparr>idempotencyKey := Some k\<rparr>))))))
       (\<lambda>e. modify_m (set_lookup (\<lambda>l. l\<lparr>status_error := Some (detail_or e ''Claim not found.'')\<rparr>)))))"

text \<open>The button that calls it is only there with a claim on the page.\<close>

definition handleTriggerVerification :: "backend_lib \<Rightarrow> (app, unit) jsm" where
  "handleTriggerVerification E = busy_run
     (set_lookup (\<lambda>l. l\<lparr>verifying := True, status_error := None\<rparr>))
     (bind_m (gets_m (\<lambda>s. (token (auth s), lookup s))) (\<lambda>(tok, l).
      case claim l of
        None \<Rightarrow> throw_m (JsTypeError ''Cannot read properties of null'')
      | Some c \<Rightarrow>
          let t = (case tok of None \<Rightarrow> ''null'' | Some t \<Rightarrow> t) in
          bind_m (api (TriggerVerification t (cd_id c) (case idempotencyKey l of None \<Rightarrow> ''null'' | Some k \<Rightarrow> k))
            (be_trigger E)) (\<lambda>_.
          bind_m (api (GetClaim t (dec (cd_id c))) (be_claim E)) (\<lambda>refreshed.
          modify_m (set_lookup (\<lambda>l. l\<lparr>claim := Some refreshed\<rparr>))))))
     (\<lambda>e. set_lookup (\<lambda>l. l\<lparr>status_error := Some (detail_or e ''Verification request failed.'')\<rparr>))
     (set_lookup (\<lambda>l. l\<lparr>verifying := False\<rparr>))"

definition verify_button :: "status_state \<Rightarrow> bool option" where
  "verify_button l = (case claim l of
       Some c \<Rightarrow> if cd_status c = ''submitted'' then Some (\<not> verifying l) else None
     | None \<Rightarrow> None)"

section \<open>The premium badge\<close>

definition load_status :: "backend_lib \<Rightarrow> bool \<Rightarrow> (app, unit) jsm" where
  "load_status E cancelled = bind_m (gets_m (\<lambda>s. badge_policy (badge s))) (\<lambda>policyId.
     load_effect cancelled (api (GetPolicyStatus policyId) (be_policy E))
     (\<lambda>st. set_badge (\<lambda>b. b\<lparr>status := Some st\<rparr>))
     (\<lambda>e. set_badge (\<lambda>b. b\<lparr>loadError := Some (detail_or e ''Could not load premium status.'')\<rparr>)))"

text \<open>The one place that shows the badge passes no \<^verbatim>\<open>onPaid\<close>.\<close>

definition handlePay :: "browser_lib \<Rightarrow> (app, unit) jsm" where
  "handlePay B = busy_run (set_badge (\<lambda>b. b\<lparr>payError := None, paying := True\<rparr>))
     (bind_m (in_browser (wallet_call (getSigner B))) (\<lambda>_.
      bind_m (gets_m badge) (\<lambda>b.
      case status b of
        None \<Rightarrow> throw_m (JsTypeError ''Cannot read properties of null'')
      | Some st \<Rightarrow>
          bind_m (in_browser (payPremiumOnChain B (js_int (badge_policy b)) (formatEther B (ps_premium_wei st)))) (\<lambda>h.
          modify_m (set_badge (\<lambda>b. b\<lparr>txHash := Some h\<rparr>))))))
     (\<lambda>e. set_badge (\<lambda>b. b\<lparr>payError := Some (message_or e ''Payment failed.'')\<rparr>))
     (set_badge (\<lambda>b. b\<lparr>paying := False\<rparr>))"

datatype badge_view = BadgeError string | BadgeChecking | BadgeCurrent
  | BadgeLapsed (pay_enabled: bool) (pay_error: "string option")

definition render_badge :: "badge_state \<Rightarrow> badge_view" where
  "render_badge b = (case shown (loadError b) of
       Some e \<Rightarrow> BadgeError e
     | None \<Rightarrow> (case status b of
         None \<Rightarrow> BadgeChecking
       | Some st \<Rightarrow> if premium_current st then BadgeCurrent
                   else BadgeLapsed (\<not> paying b) (shown (payError b))))"

definition STATUS_LABELS :: "(string \<times> string) list" where
  "STATUS_LABELS = [(''draft'', ''Draft''), (''submitted'', ''Submitted''),
     (''under_review'', ''Under Review''), (''approved'', ''Approved''), (''rejected'', ''Rejected''),
     (''paid'', ''Paid'')]"

definition ClaimStatusBadge :: "string \<Rightarrow> string" where
  "ClaimStatusBadge st = (case map_of STATUS_LABELS st of None \<Rightarrow> st | Some l \<Rightarrow> l)"

text \<open>Every flag of a handler of this shape is cleared when it ends.\<close>

interpretation login_flag: busy_flag "\<lambda>s. loggingIn (auth s)" "set_auth (\<lambda>a. a\<lparr>loggingIn := False\<rparr>)"
  by unfold_locales simp

interpretation subscribe_flag: busy_flag "\<lambda>s. subscribing (buy s) \<noteq> None" "set_buy (\<lambda>p. p\<lparr>subscribing := None\<rparr>)"
  by unfold_locales simp

interpretation verify_flag: busy_flag "\<lambda>s. verifying (lookup s)" "set_lookup (\<lambda>l. l\<lparr>verifying := False\<rparr>)"
  by unfold_locales simp

interpretation pay_flag: busy_flag "\<lambda>s. paying (badge s)" "set_badge (\<lambda>b. b\<lparr>paying := False\<rparr>)"
  by unfold_locales simp

section \<open>The dashboard\<close>

definition load_claims :: "backend_lib \<Rightarrow> bool \<Rightarrow> (app, unit) jsm" where
  "load_claims E cancelled = bind_m (gets_m (\<lambda>s. token (auth s))) (\<lambda>tok.
     load_effect cancelled (api (ListClaims (case tok of None \<Rightarrow> ''null'' | Some t \<Rightarrow> t)) (be_claims E))
     (\<lambda>cs. set_dash (\<lambda>d. d\<lparr>claims := Some cs\<rparr>))
     (\<lambda>e. set_dash (\<lambda>d. d\<lparr>dash_error := Some (detail_or e ''Could not load claims.'')\<rparr>)))"

text \<open>A card of the list: the claim, its status label, its identifier on chain, the policy of its badge.\<close>

datatype dash_view = DashError string | DashLoading | DashCards "(int \<times> string \<times> int option \<times> int) list"

definition render_dashboard :: "dash_state \<Rightarrow> dash_view" where
  "render_dashboard d = (case shown (dash_error d) of
       Some e \<Rightarrow> DashError e
     | None \<Rightarrow> (case claims d of
         None \<Rightarrow> DashLoading
       | Some cs \<Rightarrow> DashCards (map (\<lambda>c. (cd_id c, ClaimStatusBadge (cd_status c),
           cd_onchain_claim_id c, cd_policy_id c)) cs)))"

section \<open>Routes\<close>

datatype screen = ConnectWallet | DashboardPage | BuyPolicyPage | FileClaimPage | ClaimStatusPage | NoRoute

definition RequireAuth :: "app \<Rightarrow> screen \<Rightarrow> screen" where
  "RequireAuth s children = (if \<not> isAuthenticated s then ConnectWallet else children)"

definition Shell :: "app \<Rightarrow> string \<Rightarrow> screen" where
  "Shell s path = (if path = ''/'' then RequireAuth s DashboardPage
     else if path = ''/buy-policy'' then BuyPolicyPage
     else if path = ''/file-claim'' then RequireAuth s FileClaimPage
     else if path = ''/claim-status'' then RequireAuth s ClaimStatusPage
     else NoRoute)"

end
