(* ===== verification/Frontend_Properties.thy ===== *)
theory Frontend_Properties
  imports Frontend_Pages
begin

text \<open>
  The properties of the frontend: what the payment handlers send to the wallet, the evidence hash,
  the order of the two records of a claim, and the session.
\<close>

section \<open>Payments\<close>

text \<open>
  What a payment of \<^verbatim>\<open>wei\<close> through \<^verbatim>\<open>pay\<close> may have sent: nothing, the approval alone, or the
  approval of exactly that amount to the configured policy contract and then, once it was mined, the
  payment. The page reports success only when both were mined.
\<close>

definition payment_outcome :: "browser_lib \<Rightarrow> int \<Rightarrow> wallet_tx \<Rightarrow> bool \<Rightarrow> browser \<Rightarrow> browser \<Rightarrow> bool" where
  "payment_outcome B wei pay success b b' \<longleftrightarrow>
     \<not> success \<and> sent b' = sent b \<or>
     (\<exists>p. INSURANCE_POLICY B = Some p \<and> p \<noteq> zero_address \<and>
       (\<not> success \<and> sent b' = sent b @ [Approve p wei] \<or>
        sent b' = sent b @ [Approve p wei, pay] \<and>
        (\<not> success \<and> mined b' = mined b @ [Approve p wei] \<or> mined b' = mined b @ [Approve p wei, pay])))"

lemma payment_outcome_wallet_calls [simp]:
  "payment_outcome B wei pay ok (b\<lparr>wallet_calls := n\<rparr>) b' = payment_outcome B wei pay ok b b'"
  "payment_outcome B wei pay ok b (b\<lparr>wallet_calls := n\<rparr>) \<longleftrightarrow> \<not> ok"
  by (auto simp: payment_outcome_def)

lemma approve_then_outcome:
  assumes "parseEther B (formatEther B wei) = Inr wei"
    and "approve_then B (formatEther B wei) pay b = (r, b')"
  shows "payment_outcome B wei pay False b b'" and "r = Inr h \<Longrightarrow> payment_outcome B wei pay ok b b'"
  using assms(2) by (cases rule: approve_then_cases; use assms(1) in \<open>auto simp: payment_outcome_def\<close>)+

lemma subscribe_outcome:
  assumes "parseEther B (formatEther B wei) = Inr wei"
    and "subscribeToPolicyOnChain B tid (formatEther B wei) b = (r, b')"
  shows "payment_outcome B wei (SubscribeToPolicy tid) (\<not> isl r) b b'"
proof -
  obtain q c where q: "approve_then B (formatEther B wei) (SubscribeToPolicy tid) b = (q, c)" by fastforce
  from approve_then_outcome [OF assms(1) q] assms(2) q show ?thesis
    by (cases q; cases r)
      (auto simp: subscribeToPolicyOnChain_def effect_simps split: sum.splits)
qed

lemma pay_outcome:
  assumes "parseEther B (formatEther B wei) = Inr wei"
    and "payPremiumOnChain B pid (formatEther B wei) b = (r, b')"
  shows "payment_outcome B wei (PayPremium pid) (\<not> isl r) b b'"
proof -
  obtain q c where q: "approve_then B (formatEther B wei) (PayPremium pid) b = (q, c)" by fastforce
  from approve_then_outcome [OF assms(1) q] assms(2) q show ?thesis
    by (cases q; cases r) (auto simp: payPremiumOnChain_def effect_simps split: sum.splits)
qed

lemma in_browser_app [effect_simps]:
  "in_browser m s = (case m (browser s) of (r, b) \<Rightarrow> (r, s\<lparr>browser := b\<rparr>))"
  by (simp add: in_browser_def)

lemma wallet_call_app [effect_simps]:
  "wallet_call f b = (f (wallet_calls b), b\<lparr>wallet_calls := Suc (wallet_calls b)\<rparr>)"
  by (simp add: wallet_call_def)

text \<open>
  A click on Subscribe sends the wallet at most an approval of exactly the plan's premium
  to the configured, non-zero policy contract and, after that approval was mined, the subscription; a
  result is shown only when both were mined, an error whenever there is no result, and the buttons
  are enabled again. The wei amount survives the trip through a decimal string.
\<close>

lemma subscription_pays_exactly_the_premium:
  assumes law: "\<And>w. parseEther B (formatEther B w) = Inr w"
    and run: "handleSubscribe B t s = (r, s')"
  shows "r = Inr () \<and> subscribing (buy s') = None \<and>
     (buy_result (buy s') = None \<longleftrightarrow> buy_error (buy s') \<noteq> None) \<and>
     payment_outcome B (premium_amount_per_period_wei t) (SubscribeToPolicy (template_id t))
       (buy_result (buy s') \<noteq> None) (browser s) (browser s')"
proof (cases "getSigner B (wallet_calls (browser s))")
  case (Inl e)
  with run show ?thesis by (auto simp: handleSubscribe_def busy_run_app effect_simps)
next
  case (Inr u)
  let ?b = "(browser s)\<lparr>wallet_calls := Suc (wallet_calls (browser s))\<rparr>"
  let ?w = "premium_amount_per_period_wei t"
  obtain q c where q: "subscribeToPolicyOnChain B (template_id t) (formatEther B ?w) ?b = (q, c)"
    by fastforce
  from subscribe_outcome [OF law q] run Inr q show ?thesis
    by (cases q) (auto simp: handleSubscribe_def busy_run_app effect_simps)
qed

text \<open>
  A click on Pay Premium sends at most an approval of exactly the premium the badge has
  loaded and, after it was mined, the payment for the badge's own policy; a new transaction hash is
  recorded only when both were mined, every other outcome leaves the hash as it was and an error, and
  a badge that showed the lapsed premium still shows an enabled button, so the payment can be tried
  again.
\<close>

lemma failed_payment_can_be_retried:
  assumes law: "\<And>w. parseEther B (formatEther B w) = Inr w"
    and shown: "render_badge (badge s) = BadgeLapsed en err" and st: "status (badge s) = Some st"
    and run: "handlePay B s = (r, s')"
  shows "r = Inr () \<and> (\<exists>err'. render_badge (badge s') = BadgeLapsed True err') \<and>
     (payError (badge s') \<noteq> None \<longrightarrow> txHash (badge s') = txHash (badge s)) \<and>
     payment_outcome B (ps_premium_wei st) (PayPremium (js_int (badge_policy (badge s))))
       (payError (badge s') = None) (browser s) (browser s')"
proof (cases "getSigner B (wallet_calls (browser s))")
  case (Inl e)
  with run shown st show ?thesis
    by (auto simp: handlePay_def busy_run_app effect_simps render_badge_def split: option.splits if_splits)
next
  case (Inr u)
  let ?b = "(browser s)\<lparr>wallet_calls := Suc (wallet_calls (browser s))\<rparr>"
  obtain q c where q: "payPremiumOnChain B (js_int (badge_policy (badge s))) (formatEther B (ps_premium_wei st)) ?b = (q, c)"
    by fastforce
  from pay_outcome [OF law q] run shown st Inr q show ?thesis
    by (cases q)
      (auto simp: handlePay_def busy_run_app effect_simps render_badge_def split: option.splits if_splits)
qed

section \<open>The evidence hash and the two records of a claim\<close>

definition described :: "string \<Rightarrow> string" where
  "described d = (if d = [] then ''no-description-provided'' else d)"

lemma salt_hex_length: "length (salt_hex bs) = 2 + 2 * length bs"
  by (simp add: salt_hex_to_hex)

lemma salt_hex_nonempty [simp]: "salt_hex bs \<noteq> []"
  by (simp add: salt_hex_to_hex)

lemma root_of_salt:
  assumes "\<And>bs. getBytes B (''0x'' @ to_hex bs) = Inr bs"
  shows "placeholderMerkleRoot B d (salt_hex bs) = Inr (keccak B (bs @ toUtf8Bytes B (described d)))"
  using assms [of bs]
  by (simp add: placeholderMerkleRoot_def evidence_bytes_def described_def salt_hex_to_hex del: append.simps)

lemma generateClaimSalt_app [effect_simps]:
  "generateClaimSalt B b = (Inr (salt_hex (getRandomValues B (randoms b))), b\<lparr>randoms := Suc (randoms b)\<rparr>)"
  by (simp add: generateClaimSalt_def)


lemma submitClaim_cases:
  assumes "submitClaimOnChain B pid rt amt b = (r, b')"
  obtains (unsent) e where "r = Inl e" "sent b' = sent b"
  | (pending) e wei where "r = Inl e" "parseEther B amt = Inr wei" "sent b' = sent b @ [SubmitClaim pid rt wei]"
  | (confirmed) h wei where "r = Inr h" "parseEther B amt = Inr wei"
      "sent b' = sent b @ [SubmitClaim pid rt wei]" "mined b' = mined b @ [SubmitClaim pid rt wei]"
proof -
  consider (bad) e where "submitClaimOnChain B pid rt amt b = (Inl e, b)"
    | (good) a wei where "requireAddress (CLAIM_REGISTRY B) ''VITE_CLAIM_REGISTRY_ADDRESS'' = Inr a"
        "parseEther B amt = Inr wei"
    by (cases "requireAddress (CLAIM_REGISTRY B) ''VITE_CLAIM_REGISTRY_ADDRESS''"; cases "parseEther B amt")
      (auto simp: submitClaimOnChain_def effect_simps)
  then show thesis
  proof cases
    case bad
    with assms show thesis by (intro unsent) auto
  next
    case good
    obtain q c where q: "send_and_wait B (SubmitClaim pid rt wei) b = (q, c)" by fastforce
    from assms good q have "(r, b') = (case q of Inl e \<Rightarrow> (Inl e, c) | Inr x \<Rightarrow> (receipt_hash_of x, c))"
      by (cases q) (simp_all add: submitClaimOnChain_def effect_simps)
    with q good(2) show thesis
      by (cases rule: send_and_wait_cases) (auto intro: unsent pending confirmed simp: receipt_hash_of_def split: option.splits)
  qed
qed

abbreviation claim_posted :: "backend_lib \<Rightarrow> string option \<Rightarrow> file_state \<Rightarrow> string \<Rightarrow> string \<Rightarrow> api_call" where
  "claim_posted E tok inp salt rt \<equiv> CreateClaim (case tok of None \<Rightarrow> ''null'' | Some t \<Rightarrow> t)
     \<lparr>policy_id = numberOf E (in_policyId inp), declared_amount = numberOf E (in_amount inp),
      merkle_root = rt, merkle_salt = salt\<rparr>"

lemma api_app [effect_simps]:
  "api c answer s = (answer (length (api_log s)), s\<lparr>api_log := api_log s @ [c]\<rparr>)"
  by (simp add: api_def)

lemma submission_body_cases:
  assumes "submission_body E B tok inp salt rt s = (r, s')"
  obtains (unsent) e where "r = Inl e" "sent (browser s') = sent (browser s)"
      "file_result (filing s') = file_result (filing s)"
  | (posted) c wei where "be_create E (length (api_log s)) = Inr c" "parseEther B (in_amount inp) = Inr wei"
      "api_log s' = api_log s @ [claim_posted E tok inp salt rt]"
      "sent (browser s') = sent (browser s) @ [SubmitClaim (numberOf E (in_policyId inp)) rt wei]"
      "isl r \<and> file_result (filing s') = file_result (filing s) \<or>
       \<not> isl r \<and> file_step (filing s') = Done \<and>
       mined (browser s') = mined (browser s) @ [SubmitClaim (numberOf E (in_policyId inp)) rt wei]"
proof (cases "be_create E (length (api_log s))")
  case (Inl e)
  with assms show thesis by (intro unsent) (auto simp: submission_body_def effect_simps)
next
  case (Inr c)
  note c = this
  show thesis
  proof (cases "getSigner B (wallet_calls (browser s))")
    case (Inl e)
    with assms c show thesis by (intro unsent [of e]) (auto simp: submission_body_def effect_simps)
  next
    case (Inr u)
    obtain q b' where q: "submitClaimOnChain B (numberOf E (in_policyId inp)) rt (in_amount inp)
        ((browser s)\<lparr>wallet_calls := Suc (wallet_calls (browser s))\<rparr>) = (q, b')" by fastforce
    then show thesis
    proof (cases rule: submitClaim_cases)
      case (unsent e)
      with q assms c Inr show thesis by (intro that(1)) (auto simp: submission_body_def effect_simps)
    next
      case (pending e wei)
      with q assms c Inr show thesis by (intro posted) (auto simp: submission_body_def effect_simps)
    next
      case (confirmed h wei)
      with q assms c Inr have "(r, s') = (Inr (), s\<lparr>api_log := api_log s @ [claim_posted E tok inp salt rt],
          browser := b', filing := (filing s)\<lparr>file_step := Done, file_result := Some (cd_id c, h)\<rparr>\<rparr>)"
        by (simp add: submission_body_def effect_simps)
      with confirmed c show thesis by (intro posted) auto
    qed
  qed
qed

text \<open>The outcomes of a submission.\<close>

lemma handleSubmit_outcome:
  assumes law: "\<And>bs. getBytes B (''0x'' @ to_hex bs) = Inr bs"
    and run: "handleSubmit E B s = (r, s')"
  shows "r = Inr ()" and "\<not> submit_disabled (filing s) \<Longrightarrow> \<not> submit_disabled (filing s')"
    and "sent (browser s') = sent (browser s) \<and> file_result (filing s') = None \<or>
      (\<exists>c salt rt wei. be_create E (length (api_log s)) = Inr c \<and>
         placeholderMerkleRoot B (in_description (filing s)) salt = Inr rt \<and>
         parseEther B (in_amount (filing s)) = Inr wei \<and>
         api_log s' = api_log s @ [claim_posted E (token (auth s)) (filing s) salt rt] \<and>
         sent (browser s') = sent (browser s) @ [SubmitClaim (numberOf E (in_policyId (filing s))) rt wei] \<and>
         (file_result (filing s') \<noteq> None \<longrightarrow>
          mined (browser s') = mined (browser s) @ [SubmitClaim (numberOf E (in_policyId (filing s))) rt wei]))"
    (is "?sent")
proof -
  have "r = Inr () \<and> (\<not> submit_disabled (filing s) \<longrightarrow> \<not> submit_disabled (filing s')) \<and> ?sent"
  proof (cases "in_policyId (filing s) = [] \<or> in_amount (filing s) = []")
    case True
    with run show ?thesis by (auto simp: handleSubmit_def effect_simps submit_disabled_def)
  next
    case False
    let ?salt = "salt_hex (getRandomValues B (randoms (browser s)))"
    let ?inp = "(filing s)\<lparr>file_error := None, file_result := None\<rparr>"
    let ?s = "s\<lparr>filing := ?inp, browser := (browser s)\<lparr>randoms := Suc (randoms (browser s))\<rparr>\<rparr>"
    obtain rt where rt: "placeholderMerkleRoot B (in_description (filing s)) ?salt = Inr rt"
      using root_of_salt [OF law] by blast
    obtain q u where q: "submission_body E B (token (auth s)) ?inp ?salt rt ?s = (q, u)" by fastforce
    have res: "(r, s') = (case q of Inl e \<Rightarrow> (Inr (), set_file (\<lambda>f. f\<lparr>file_step := Idle,
            file_error := Some (detail_or_message e ''Claim submission failed.'')\<rparr>) u) | Inr _ \<Rightarrow> (Inr (), u))"
      using run False rt q by (cases q) (auto simp: handleSubmit_def effect_simps)
    from q show ?thesis
    proof (cases rule: submission_body_cases)
      case (unsent e)
      with res show ?thesis by (auto simp: submit_disabled_def)
    next
      case (posted c wei)
      with res rt show ?thesis
        by (cases q) (auto simp: submit_disabled_def intro!: exI [of _ ?salt])
    qed
  qed
  then show "r = Inr ()" "\<not> submit_disabled (filing s) \<Longrightarrow> \<not> submit_disabled (filing s')" ?sent by blast+
qed

text \<open>
  C37 (safety). Filing a claim sends at most one transaction, and only after the backend stored the
  claim: the record it was asked to store and the transaction carry the same policy and the same
  evidence root, and the record carries the salt that the root was computed with from the
  description on the form. A result is shown only for a mined transaction, nothing escapes the
  handler, and the submit button is enabled again.
\<close>

theorem claim_recorded_before_submitted:
  assumes law: "\<And>bs. getBytes B (''0x'' @ to_hex bs) = Inr bs"
    and enabled: "\<not> submit_disabled (filing s)"
    and run: "handleSubmit E B s = (r, s')"
  shows "r = Inr () \<and> \<not> submit_disabled (filing s') \<and>
     (sent (browser s') = sent (browser s) \<and> file_result (filing s') = None \<or>
      (\<exists>c salt rt wei. be_create E (length (api_log s)) = Inr c \<and>
         placeholderMerkleRoot B (in_description (filing s)) salt = Inr rt \<and>
         parseEther B (in_amount (filing s)) = Inr wei \<and>
         api_log s' = api_log s @ [claim_posted E (token (auth s)) (filing s) salt rt] \<and>
         sent (browser s') = sent (browser s) @ [SubmitClaim (numberOf E (in_policyId (filing s))) rt wei] \<and>
         (file_result (filing s') \<noteq> None \<longrightarrow>
          mined (browser s') = mined (browser s) @ [SubmitClaim (numberOf E (in_policyId (filing s))) rt wei])))"
  using handleSubmit_outcome [OF law run] enabled by blast

section \<open>The session\<close>

lemma login_address_app:
  obtains a t where "login_address E s = (Inr a, t)" "api_log t = api_log s"
    "loginError (auth t) = loginError (auth s)" "a \<noteq> None \<Longrightarrow> account (auth t) = a"
proof -
  have "\<exists>a t. login_address E s = (Inr a, t) \<and> api_log t = api_log s \<and>
      loginError (auth t) = loginError (auth s) \<and> (a \<noteq> None \<longrightarrow> account (auth t) = a)"
    by (cases "account (auth s)"; cases "requestAccounts E (wallet_calls (browser s))")
      (auto simp: login_address_def wallet_connect_def effect_simps Let_def)
  with that show thesis by blast
qed

lemma signMessageWith_cases:
  obtains (rejected) e t where "signMessageWith E B m s = (Inl e, t)"
  | (signed_by_wallet) sig n t where "signMessageWith E B m s = (Inr sig, t)" "wallet_sign E n m = Inr sig"
      "api_log t = api_log s" "auth t = auth s"
proof (cases "window_ethereum E")
  case False
  then show thesis by (intro rejected) (simp add: signMessageWith_def getSignerOf_def effect_simps)
next
  case True
  show thesis
  proof (cases "getSigner B (wallet_calls (browser s))")
    case (Inl e)
    with True show thesis by (intro rejected) (simp add: signMessageWith_def getSignerOf_def effect_simps)
  next
    case (Inr u)
    let ?n = "Suc (wallet_calls (browser s))"
    have run: "signMessageWith E B m s = (case wallet_sign E ?n m of
        Inl e \<Rightarrow> (Inl (JsError (message_or e ''Signature request was rejected.'')),
          s\<lparr>browser := (browser s)\<lparr>wallet_calls := Suc ?n\<rparr>\<rparr>)
      | Inr sig \<Rightarrow> (Inr sig, s\<lparr>browser := (browser s)\<lparr>wallet_calls := Suc ?n\<rparr>\<rparr>))"
      using True Inr by (simp add: signMessageWith_def getSignerOf_def effect_simps split: sum.split)
    show thesis
    proof (cases "wallet_sign E ?n m")
      case (Inl e)
      with run show thesis by (intro rejected) simp
    next
      case (Inr sig)
      with run show thesis by (intro signed_by_wallet [of sig "s\<lparr>browser := (browser s)\<lparr>wallet_calls := Suc ?n\<rparr>\<rparr>" ?n]) simp_all
    qed
  qed
qed

lemma shown_reason_nonempty: "d \<noteq> [] \<Longrightarrow> detail_or_message e d \<noteq> []"
  by (simp add: detail_or_message_def or_text_def split: option.split)

text \<open>What the body of \<^verbatim>\<open>login\<close> has done when it did not throw.\<close>

definition session_opened :: "backend_lib \<Rightarrow> app \<Rightarrow> app \<Rightarrow> bool" where
  "session_opened E s s' \<longleftrightarrow> (\<exists>addr message sig n t. account (auth s') = Some addr \<and> addr \<noteq> [] \<and>
     be_nonce E (length (api_log s)) = Inr message \<and> wallet_sign E n message = Inr sig \<and>
     be_login E (Suc (length (api_log s))) = Inr t \<and>
     api_log s' = api_log s @ [GetNonce addr, LoginWallet addr sig] \<and> token (auth s') = Some t)"

lemma login_cases:
  assumes "login E B s = (r, s')"
  shows "session_opened E s s' \<and> loginError (auth s') = None \<or>
     token (auth s') = None \<and> (\<exists>e. loginError (auth s') = Some (detail_or_message e ''Login failed.''))"
proof -
  let ?s = "set_auth (\<lambda>a. a\<lparr>loginError := None, loggingIn := True\<rparr>) s"
  obtain a t where a: "login_address E ?s = (Inr a, t)" "api_log t = api_log s"
    "loginError (auth t) = None" "a \<noteq> None \<Longrightarrow> account (auth t) = a"
    by (rule login_address_app [of E ?s]) auto
  show ?thesis
  proof (cases "a = None \<or> a = Some []")
    case True
    with assms a show ?thesis by (auto simp: login_def busy_run_app effect_simps)
  next
    case False
    then obtain addr where addr: "a = Some addr" "addr \<noteq> []" by auto
    let ?t = "t\<lparr>api_log := api_log t @ [GetNonce addr]\<rparr>"
    show ?thesis
    proof (cases "be_nonce E (length (api_log s))")
      case (Inl e)
      with assms a addr show ?thesis by (auto simp: login_def busy_run_app effect_simps)
    next
      case (Inr m)
      note m = this
      show ?thesis
      proof (rule signMessageWith_cases [of E B m ?t])
        fix e u assume "signMessageWith E B m ?t = (Inl e, u)"
        with assms a addr m show ?thesis by (auto simp: login_def busy_run_app effect_simps)
      next
        fix sig n u
        assume u: "signMessageWith E B m ?t = (Inr sig, u)" "wallet_sign E n m = Inr sig"
          "api_log u = api_log ?t" "auth u = auth ?t"
        show ?thesis
          using assms a addr m u
          by (cases "be_login E (Suc (length (api_log s)))")
            (auto simp: login_def busy_run_app effect_simps session_opened_def)
      qed
    qed
  qed
qed

text \<open>
  A login always ends with the button enabled again and in one of two states: a session
  whose token the backend gave for the signature of the wallet on the nonce it had just issued for the
  same, connected address, with exactly these two requests made; or no session at all, even if there
  was one before, and a non-empty reason for the user.
\<close>

lemma session_follows_signed_nonce:
  assumes run: "login E B s = (r, s')"
  shows "r = Inr () \<and> \<not> loggingIn (auth s') \<and>
     (session_opened E s s' \<and> loginError (auth s') = None \<or>
      \<not> isAuthenticated s' \<and> token (auth s') = None \<and>
      (\<exists>reason. reason \<noteq> [] \<and> WalletConnectButton s' = ConnectButton True (Some reason)))"
proof -
  have "\<exists>t. login E B s = (Inr (), t) \<and> \<not> loggingIn (auth t)"
    unfolding login_def by (rule login_flag.run_finishes)
  with run have "r = Inr () \<and> \<not> loggingIn (auth s')" by simp
  with login_cases [OF run] show ?thesis
    by (auto simp: isAuthenticated_def WalletConnectButton_def shown_def shown_reason_nonempty)
qed

section \<open>Concrete runs\<close>

text \<open>A configured frontend, a wallet and a backend that answer, and a page in its initial state.\<close>

definition ex_B :: browser_lib where
  "ex_B = \<lparr>CLAIM_REGISTRY = Some ''0xA1'', INSURANCE_POLICY = Some ''0xB2'', STABLECOIN = Some ''0xC3'',
     CHAIN_RPC = Some ''http://localhost:8545'', getSigner = (\<lambda>_. Inr ()), sendTx = (\<lambda>_ _. Inr ()),
     waitTx = (\<lambda>_. Inr (Some ''0xfeed'')),
     policyTemplates = (\<lambda>_ _. Inl (Rejected ''no such template'')),
     parseEther = (\<lambda>s. case parse_dec s of None \<Rightarrow> Inl (JsTypeError ''invalid FixedNumber string value'') | Some n \<Rightarrow> Inr n),
     formatEther = dec, parseWei = (\<lambda>s. case parse_dec s of None \<Rightarrow> Inl (JsTypeError ''invalid'') | Some n \<Rightarrow> Inr n),
     getRandomValues = (\<lambda>n. replicate 32 (of_nat n)), randomUUID = (\<lambda>n. ''uuid-'' @ dec (int n)),
     getBytes = hex_bytes, toUtf8Bytes = map (\<lambda>c. of_nat (of_char c)), keccak = (\<lambda>bs. ''0x'' @ to_hex bs)\<rparr>"

definition ex_E :: backend_lib where
  "ex_E = \<lparr>be_nonce = (\<lambda>_. Inr ''Sign in: 17''), be_login = (\<lambda>_. Inr ''jwt''), be_claims = (\<lambda>_. Inr []),
     be_claim = (\<lambda>_. Inr \<lparr>cd_id = 9, cd_policy_id = 3, cd_status = ''submitted'', cd_onchain_claim_id = None\<rparr>),
     be_create = (\<lambda>_. Inr \<lparr>cd_id = 9, cd_policy_id = 3, cd_status = ''draft'', cd_onchain_claim_id = None\<rparr>),
     be_trigger = (\<lambda>_. Inr ()), be_catalog = (\<lambda>_. Inr []),
     be_policy = (\<lambda>_. Inl (HttpError None ''timeout'')), window_ethereum = True,
     requestAccounts = (\<lambda>_. Inr [''0xabc'']), wallet_sign = (\<lambda>_ m. Inr (''sig of '' @ m)),
     numberOf = (\<lambda>s. case parse_dec s of None \<Rightarrow> NaN | Some n \<Rightarrow> js_int n)\<rparr>"

definition ex_app :: app where
  "ex_app = \<lparr>browser = \<lparr>sent = [], mined = [], wallet_calls = 0, randoms = 0\<rparr>, api_log = [],
     auth = \<lparr>account = None, wallet_error = None, token = None, loginError = None, loggingIn = False\<rparr>,
     buy = \<lparr>templates = None, buy_error = None, subscribing = None, buy_result = None\<rparr>,
     filing = \<lparr>in_policyId = ''3'', in_amount = ''250'', in_description = ''hail'', file_step = Idle,
       file_error = None, file_result = None\<rparr>,
     lookup = \<lparr>in_claimId = [], claim = None, status_error = None, verifying = False, idempotencyKey = None\<rparr>,
     badge = \<lparr>badge_policy = 3, status = Some \<lparr>premium_current = False, ps_premium_wei = 40\<rparr>, loadError = None,
       payError = None, paying = False, txHash = None\<rparr>,
     dash = \<lparr>claims = None, dash_error = None\<rparr>\<rparr>"

definition ex_plan :: catalog_entry where
  "ex_plan = \<lparr>template_id = 7, premium_amount_per_period_wei = 40, coverage_amount_wei = 1000\<rparr>"

lemma ex_parseEther: "parseEther ex_B (formatEther ex_B w) = Inr w"
  by (simp add: ex_B_def)

lemma ex_getBytes: "getBytes ex_B (''0x'' @ to_hex bs) = Inr bs"
  using hex_bytes_hex [of bs] by (simp add: ex_B_def)

lemma subscription_pays_exactly_the_premium_example:
  "payment_outcome ex_B 40 (SubscribeToPolicy 7) True (browser ex_app)
     (browser (snd (handleSubscribe ex_B ex_plan ex_app))) \<and>
   sent (browser (snd (handleSubscribe ex_B ex_plan ex_app))) = [Approve ''0xB2'' 40, SubscribeToPolicy 7]"
proof -
  have "buy_result (buy (snd (handleSubscribe ex_B ex_plan ex_app))) \<noteq> None" by code_simp
  moreover have "sent (browser (snd (handleSubscribe ex_B ex_plan ex_app))) =
      [Approve ''0xB2'' 40, SubscribeToPolicy 7]" by code_simp
  ultimately show ?thesis
    using subscription_pays_exactly_the_premium [OF ex_parseEther surjective_pairing [of "handleSubscribe ex_B ex_plan ex_app"]]
    by (simp add: ex_plan_def)
qed

text \<open>The wallet refuses the approval: nothing is sent, and the button is enabled for another try.\<close>

definition ex_refusing :: browser_lib where
  "ex_refusing = ex_B\<lparr>sendTx := (\<lambda>_ _. Inl (Rejected ''user rejected transaction''))\<rparr>"

lemma failed_payment_can_be_retried_example:
  "(\<exists>err. render_badge (badge (snd (handlePay ex_refusing ex_app))) = BadgeLapsed True err) \<and>
   payment_outcome ex_refusing 40 (PayPremium (js_int 3)) False (browser ex_app)
     (browser (snd (handlePay ex_refusing ex_app)))"
proof -
  have law: "parseEther ex_refusing (formatEther ex_refusing w) = Inr w" for w
    by (simp add: ex_refusing_def ex_B_def)
  have view: "render_badge (badge ex_app) = BadgeLapsed True None" by code_simp
  have st: "status (badge ex_app) = Some \<lparr>premium_current = False, ps_premium_wei = 40\<rparr>" by code_simp
  have err: "payError (badge (snd (handlePay ex_refusing ex_app))) \<noteq> None" by code_simp
  have "badge_policy (badge ex_app) = 3" by code_simp
  with err failed_payment_can_be_retried [OF law view st surjective_pairing [of "handlePay ex_refusing ex_app"]]
  show ?thesis by auto
qed


theorem claim_recorded_before_submitted_witness:
  "\<exists>rt. sent (browser (snd (handleSubmit ex_E ex_B ex_app))) = [SubmitClaim (js_int 3) rt 250] \<and>
     placeholderMerkleRoot ex_B ''hail'' (salt_hex (replicate 32 0)) = Inr rt \<and>
     file_result (filing (snd (handleSubmit ex_E ex_B ex_app))) = Some (9, ''0xfeed'')"
proof -
  have en: "\<not> submit_disabled (filing ex_app)" by code_simp
  have res: "file_result (filing (snd (handleSubmit ex_E ex_B ex_app))) = Some (9, ''0xfeed'')" by code_simp
  have calls: "map (\<lambda>c. case c of CreateClaim t p \<Rightarrow> merkle_salt p | _ \<Rightarrow> []) (api_log (snd (handleSubmit ex_E ex_B ex_app))) =
      [salt_hex (replicate 32 0)]" by code_simp
  have inputs: "in_description (filing ex_app) = ''hail''" "numberOf ex_E (in_policyId (filing ex_app)) = js_int 3"
    "parseEther ex_B (in_amount (filing ex_app)) = Inr 250" "sent (browser ex_app) = []" "api_log ex_app = []"
    by code_simp+
  show ?thesis
    using claim_recorded_before_submitted [OF ex_getBytes en surjective_pairing [of "handleSubmit ex_E ex_B ex_app"]]
      res calls inputs by auto
qed

lemma session_follows_signed_nonce_example:
  "session_opened ex_E ex_app (snd (login ex_E ex_B ex_app)) \<and>
   api_log (snd (login ex_E ex_B ex_app)) = [GetNonce ''0xabc'', LoginWallet ''0xabc'' ''sig of Sign in: 17'']"
proof -
  have "token (auth (snd (login ex_E ex_B ex_app))) = Some ''jwt''" by code_simp
  moreover have "api_log (snd (login ex_E ex_B ex_app)) =
      [GetNonce ''0xabc'', LoginWallet ''0xabc'' ''sig of Sign in: 17'']" by code_simp
  ultimately show ?thesis
    using session_follows_signed_nonce [OF surjective_pairing [of "login ex_E ex_B ex_app"]] by simp
qed

end
