(* ===== verification/System_Properties.thy ===== *)
theory System_Properties
  imports Indexer_Properties Oracle_Properties Safe_Properties Frontend_Properties
begin

text \<open>
  Properties that span the services: what the frontend files, what the operators of the Safe decide
  and what the indexer then stores and reports. The contracts between them are what the hypotheses
  say of a log: that a submission emits the root it was called with, a status change its code.
\<close>

section \<open>From the form to the webhook\<close>

text \<open>With services that answer, a new submission is stored and reported.\<close>

lemma submission_stored_and_reported:
  assumes "calm S" and "backendUrl (config S) = Some url"
    and "int8 (blockNumber lg)" and "int8 cid" and "int8 pid" and "onchain_claims (database t) cid = None"
  shows "\<exists>w' row. aftermath S lg (ClaimSubmitted cid pid who mroot amt ts) t = (Inr (), w') \<and>
     posts w' = posts t @ [\<lparr>post_url = url @ ''/internal/onchain-events'',
       post_key = backendWebhookApiKey (config S),
       post_body = claim_report ''ClaimSubmitted'' (dec cid) mroot (transactionHash lg) ''submitted''\<rparr>] \<and>
     onchain_claims (database w') cid = Some row \<and> cl_merkle_root row = mroot \<and> cl_status row = ''submitted''"
proof -
  let ?t = "t\<lparr>pool_open := True\<rparr>"
  let ?s = "insert_claim (dec cid) (dec pid) (toLowerCase who) mroot (dec amt) (transactionHash lg) (blockNumber lg)"
  obtain d where d: "?s (clock S (queries ?t)) (database ?t) = Inr ((), d)"
    using assms(3-5) by (simp add: insert_claim_def)
  then obtain row where row: "onchain_claims d cid = Some row" "cl_merkle_root row = mroot" "cl_status row = ''submitted''"
    using assms(3-6) by (auto simp: insert_claim_def split: if_splits)
  have q: "pool_query S [] ?s ?t = (Inr (), ?t\<lparr>queries := Suc (queries ?t), database := d\<rparr>)"
    by (rule calm_query [OF assms(1)]) (use d in simp_all)
  obtain c body where "fetch S (fetches t) = Response c body"
    using assms(1) by (cases "fetch S (fetches t)") (auto simp: calm_def)
  with q row assms(2) show ?thesis
    by (simp add: getPool_then bind_m_app [of "pool_query _ _ _"] reportClaimEvent_def Let_def)
qed

text \<open>
  C8 (functional). The correlation between the two records of a claim works: when a form was submitted and
  the transaction it sent is mined as a ClaimSubmitted log with the root of that transaction, the indexer,
  with services that answer, counts the log, stores a submitted claim under that root and sends the backend
  one notification, whose root is the one in the record the frontend asked the backend to store.
\<close>

theorem filed_claim_is_reported_by_its_root:
  assumes law: "\<And>bs. getBytes B (''0x'' @ to_hex bs) = Inr bs"
    and filed: "handleSubmit E B s = (r, s')" "sent (browser s') = sent (browser s) @ [SubmitClaim pol rt wei]"
    and decoded: "parseLog C lg = Parsed (ClaimSubmitted cid pid who rt amt ts)"
    and services: "calm S" "backendUrl (config S) = Some url"
    and fresh: "\<not> seen (database w) (log_key lg)" "onchain_claims (database w) cid = None"
    and fits: "int4 (log_index lg)" "int8 (blockNumber lg)" "int8 cid" "int8 pid"
  shows "\<exists>tok record w' row post. api_log s' = api_log s @ [CreateClaim tok record] \<and>
     processLog S C lg w = (Inr 1, w') \<and> onchain_claims (database w') cid = Some row \<and>
     cl_merkle_root row = merkle_root record \<and> cl_status row = ''submitted'' \<and>
     posts w' = posts w @ [post] \<and> field (post_body post) ''merkleRoot'' = JString (merkle_root record) \<and>
     field (post_body post) ''onchainClaimId'' = JString (dec cid)"
proof -
  let ?ev = "ClaimSubmitted cid pid who rt amt ts"
  obtain salt where api: "api_log s' = api_log s @ [claim_posted E (Frontend_Pages.token (auth s)) (filing s) salt rt]"
    using handleSubmit_outcome(3) [OF law filed(1)] filed(2) by auto
  have ran: "query_fates S (queries w) = Ran" using services(1) by (simp add: calm_def)
  have j: "json_ok (event_json ?ev)" by simp
  obtain t e where p: "persistRawEventOnce S lg (event_title ?ev) (contract_address C) (event_json ?ev) w = (Inr True, t)"
    and t: "posts t = posts w" "database t = (database w)\<lparr>onchain_events := onchain_events (database w) @ [e]\<rparr>"
    using persist_first_ran [OF ran fresh(1) fits(1,2) j] by blast
  then have "onchain_claims (database t) cid = None" using fresh(2) by simp
  from submission_stored_and_reported [OF services fits(2-4) this]
  obtain w' row where w': "aftermath S lg ?ev t = (Inr (), w')"
      "posts w' = posts t @ [\<lparr>post_url = url @ ''/internal/onchain-events'',
         post_key = backendWebhookApiKey (config S),
         post_body = claim_report ''ClaimSubmitted'' (dec cid) rt (transactionHash lg) ''submitted''\<rparr>]"
      "onchain_claims (database w') cid = Some row" "cl_merkle_root row = rt" "cl_status row = ''submitted''"
    by blast
  have "handleClaimSubmitted S lg cid pid who rt amt ts (contract_address C) w =
      once S lg (event_title ?ev) (contract_address C) (event_json ?ev) (aftermath S lg ?ev) w"
    by (rule handler_once [of S ?ev, THEN fun_cong]) simp
  then have "handleClaimSubmitted S lg cid pid who rt amt ts (contract_address C) w = (Inr (), w')"
    unfolding once_def using p w'(1) by (simp add: bind_m_app)
  then have "processLog S C lg w = (Inr 1, w')" using decoded by (simp add: processLog_def bind_m_app ret_m_app)
  with api w' t show ?thesis by (simp add: claim_report_def)
qed

section \<open>From the operator's script to the page\<close>

lemma strip_claim_update:
  "strip_claim a = (strip_claim b)\<lparr>cl_status := x, cl_last_status_tx_hash := y\<rparr> \<Longrightarrow>
     cl_status a = x \<and> cl_merkle_root a = cl_merkle_root b \<and> cl_last_status_tx_hash a = y"
  by (cases a; cases b) (simp add: strip_claim_def)

lemma decision_labels:
  "ClaimStatusBadge (status_name (StatusNumber 2)) = ''Approved''"
  "ClaimStatusBadge (status_name (StatusNumber 4)) = ''Rejected''"
  by code_simp+


section \<open>Concrete runs\<close>

text \<open>The form of the frontend's example, submitted, mined, and picked up by the indexer's.\<close>

abbreviation ex_filed :: app where
  "ex_filed \<equiv> snd (handleSubmit ex_E ex_B ex_app)"

definition ex_root :: string where
  "ex_root = keccak ex_B (replicate 32 0 @ toUtf8Bytes ex_B ''hail'')"

definition ex_mined_contract :: contract where
  "ex_mined_contract = \<lparr>contract_address = ex_registry,
     parseLog = (\<lambda>_. Parsed (ClaimSubmitted 9 3 ''0xAb'' ex_root 250 100))\<rparr>"

theorem filed_claim_is_reported_by_its_root_witness:
  "\<exists>tok record w' row post. api_log ex_filed = [CreateClaim tok record] \<and>
     processLog ex_services ex_mined_contract ex_submitted ex_world = (Inr 1, w') \<and>
     onchain_claims (database w') 9 = Some row \<and> cl_merkle_root row = merkle_root record \<and>
     posts w' = [post] \<and> field (post_body post) ''merkleRoot'' = JString (merkle_root record)"
proof -
  have sent: "sent (browser ex_filed) = sent (browser ex_app) @ [SubmitClaim (js_int 3) ex_root 250]" by code_simp
  have log: "parseLog ex_mined_contract ex_submitted = Parsed (ClaimSubmitted 9 3 ''0xAb'' ex_root 250 100)"
    by (simp add: ex_mined_contract_def)
  have url: "backendUrl (config ex_services) = Some (the (backendUrl (config ex_services)))"
    by (simp add: ex_services_def ex_config_def)
  have new: "\<not> seen (database ex_world) (log_key ex_submitted)" "onchain_claims (database ex_world) 9 = None"
    by (simp_all add: ex_world_def empty_db_def seen_def)
  have fits: "int4 (log_index ex_submitted)" "int8 (blockNumber ex_submitted)" "int8 9" "int8 3"
    by (simp_all add: ex_submitted_def ex_log_def int4_def int8_def)
  have none: "api_log ex_app = []" "posts ex_world = []" by (simp_all add: ex_app_def ex_world_def)
  show ?thesis
    using filed_claim_is_reported_by_its_root [OF ex_getBytes surjective_pairing sent log ex_calm url new fits]
    unfolding none by auto
qed


end
