(* ===== verification/Oracle_Async.thy ===== *)
theory Oracle_Async
  imports Oracle_Properties
begin

text \<open>
  The running oracle service. Requests overlap: \<^verbatim>\<open>POST /verify\<close> gives up control when it waits for the
  signature and for the transaction, so the handler is cut there. Its first piece checks the request,
  draws the identifier, stamps the response and opens the signing wallet; what is left is a task that
  signs and relays at any later time. The two pieces without a pause are the handler of
  \<^verbatim>\<open>Oracle_Server\<close>.
\<close>

section \<open>The handler in two pieces\<close>

record relay_task =
  rt_claim :: js_num
  rt_decision :: decision
  rt_payload :: oracle_payload
  rt_signer :: wallet

datatype started = Answered "js_error + response" | Pending relay_task

definition prepare :: "oracle_services \<Rightarrow> js_num \<Rightarrow> decision \<Rightarrow> string \<Rightarrow> (oracle_world, relay_task) jsm" where
  "prepare S claim d requestId =
     bind_m (nowSeconds S) (\<lambda>ts.
     bind_m oracle_getProvider (\<lambda>_.
     bind_m (lift_m (getSigningWallet (lib S) (cfg S))) (\<lambda>signer.
     ret_m \<lparr>rt_claim = claim, rt_decision = d, rt_payload = \<lparr>pl_claimId = claim, pl_requestId = requestId,
       pl_approved = approved d, pl_timestamp = ts\<rparr>, rt_signer = signer\<rparr>)))"

definition relay :: "oracle_services \<Rightarrow> (js_num \<Rightarrow> string) \<Rightarrow> relay_task \<Rightarrow> (oracle_world, response) jsm" where
  "relay S num t =
     bind_m (lift_m (signOracleResponse (lib S) (cfg S) (rt_signer t) (rt_payload t))) (\<lambda>signature.
     bind_m (submitVerificationOnChain S (rt_payload t) signature) (\<lambda>rc.
     case rc of
       None \<Rightarrow> throw_m (JsTypeError ''Cannot read properties of null'')
     | Some r \<Rightarrow> ret_m \<lparr>http_status = 200, http_body = JObject
         [(''claimId'', JNumber (rt_claim t)), (''requestId'', JString (pl_requestId (rt_payload t))),
          (''approved'', JBool (approved (rt_decision t))), (''reason'', JString (reason_text num (reason (rt_decision t)))),
          (''txHash'', JString (receipt_hash r)),
          (''blockNumber'', JNumber (js_int (receipt_blockNumber r)))]\<rparr>))"

definition verify_arrives :: "oracle_services \<Rightarrow> (js_value \<Rightarrow> js_value) \<Rightarrow> string option \<Rightarrow> js_value \<Rightarrow>
  oracle_world \<Rightarrow> (started \<times> oracle_world) option" where
  "verify_arrives S issues header body w = (case requireApiKey (cfg S) header of
       Inl e \<Rightarrow> Some (Answered (Inl e), w)
     | Inr (Respond r) \<Rightarrow> Some (Answered (Inr r), w)
     | Inr Next \<Rightarrow> (case verifyRequestSchema body of
         None \<Rightarrow> Some (Answered (Inr \<lparr>http_status = 400, http_body = JObject
                   [(''error'', JString ''invalid_request''), (''details'', issues body)]\<rparr>), w)
       | Some req \<Rightarrow> (case generateRequestId S w of
           None \<Rightarrow> None
         | Some (requestId, w1) \<Rightarrow>
             (case prepare S (vr_claimId req) (evaluateClaim (JNumber (vr_declaredAmount req))) requestId w1 of
                (Inl e, w2) \<Rightarrow> (case relay_failed e w2 of (r, w3) \<Rightarrow> Some (Answered r, w3))
              | (Inr t, w2) \<Rightarrow> Some (Pending t, w2)))))"

definition verify_settles :: "oracle_services \<Rightarrow> (js_num \<Rightarrow> string) \<Rightarrow> relay_task \<Rightarrow> (oracle_world, response) jsm" where
  "verify_settles S num t = try_m (relay S num t) relay_failed"

lemma bind_m_ret: "bind_m (ret_m a) f = f a"
  by (rule ext) (simp add: effect_simps)

lemma sign_and_relay_pieces: "sign_and_relay S num claim d i = bind_m (prepare S claim d i) (relay S num)"
  by (simp add: sign_and_relay_def prepare_def relay_def Let_def bind_m_assoc bind_m_ret cong: option.case_cong)

lemma post_verify_pieces:
  "post_verify S num issues header body w = (case verify_arrives S issues header body w of
       None \<Rightarrow> None
     | Some (Answered r, w1) \<Rightarrow> Some (r, w1)
     | Some (Pending t, w1) \<Rightarrow> Some (verify_settles S num t w1))"
  by (auto simp: post_verify_def verify_arrives_def verify_settles_def sign_and_relay_pieces Let_def try_m_app
      bind_m_app split: sum.split option.split gate.split prod.split)

section \<open>Overlapping requests\<close>

inductive serving :: "oracle_services \<Rightarrow> (js_num \<Rightarrow> string) \<Rightarrow> (js_value \<Rightarrow> js_value) \<Rightarrow>
  oracle_world \<Rightarrow> oracle_world \<Rightarrow> relay_task list \<Rightarrow> bool" for S num issues w0 where
  idle: "serving S num issues w0 w0 []"
| answered: "serving S num issues w0 w ts \<Longrightarrow> verify_arrives S issues header body w = Some (Answered r, w') \<Longrightarrow>
    serving S num issues w0 w' ts"
| accepted: "serving S num issues w0 w ts \<Longrightarrow> verify_arrives S issues header body w = Some (Pending t, w') \<Longrightarrow>
    serving S num issues w0 w' (t # ts)"
| relayed: "serving S num issues w0 w ts \<Longrightarrow> t \<in> set ts \<Longrightarrow> verify_settles S num t w = (r, w') \<Longrightarrow>
    serving S num issues w0 w' (remove1 t ts)"

text \<open>Requests that do not overlap are a special case.\<close>

lemma serving_post_verify:
  assumes "serving S num issues w0 w ts" and "post_verify S num issues header body w = Some (r, w')"
  shows "serving S num issues w0 w' ts"
proof -
  from assms(2) consider (a) "verify_arrives S issues header body w = Some (Answered r, w')"
    | (b) t w1 where "verify_arrives S issues header body w = Some (Pending t, w1)" "verify_settles S num t w1 = (r, w')"
    by (auto simp: post_verify_pieces split: option.splits prod.splits started.splits)
  then show ?thesis
  proof cases
    case a
    with assms(1) show ?thesis by (rule answered)
  next
    case b
    from relayed [OF accepted [OF assms(1) b(1)] _ b(2)] show ?thesis by simp
  qed
qed

definition submitted_ids :: "oracle_world \<Rightarrow> string list" where
  "submitted_ids w = map (\<lambda>s. pl_requestId (sub_response s)) (submissions w)"

abbreviation task_id :: "relay_task \<Rightarrow> string" where
  "task_id t \<equiv> pl_requestId (rt_payload t)"

definition oracle_inv :: "oracle_services \<Rightarrow> oracle_world \<Rightarrow> relay_task list \<Rightarrow> bool" where
  "oracle_inv S w ts \<longleftrightarrow> distinct (submitted_ids w @ map task_id ts) \<and>
     set (submitted_ids w @ map task_id ts) \<subseteq> issuedRequestIds w \<and>
     list_all (genuine S) (submissions w) \<and>
     list_all (\<lambda>t. getSigningWallet (lib S) (cfg S) = Inr (rt_signer t)) ts"

section \<open>What the pieces do\<close>

lemma prepare_effect:
  assumes "prepare S claim d i w = (r, w')"
  shows "issuedRequestIds w' = issuedRequestIds w" "submissions w' = submissions w"
    "r = Inr t \<Longrightarrow> task_id t = i \<and> getSigningWallet (lib S) (cfg S) = Inr (rt_signer t)"
  using assms
  by (auto simp: prepare_def nowSeconds_def oracle_getProvider_def effect_simps split: sum.splits if_splits)

lemma verify_arrives_cases:
  assumes "verify_arrives S issues header body w = Some (x, w')"
  obtains (refused) r where "x = Answered r" "submissions w' = submissions w" "issuedRequestIds w' = issuedRequestIds w"
  | (drawn) i w1 where "generateRequestId S w = Some (i, w1)" "submissions w' = submissions w"
      "issuedRequestIds w' = issuedRequestIds w1"
      "\<And>t. x = Pending t \<Longrightarrow> task_id t = i \<and> getSigningWallet (lib S) (cfg S) = Inr (rt_signer t)"
proof (cases "requireApiKey (cfg S) header = Inr Next \<and> verifyRequestSchema body \<noteq> None")
  case False
  with assms have "\<exists>r. x = Answered r \<and> w' = w"
    by (auto simp: verify_arrives_def split: sum.splits gate.splits option.splits)
  then show thesis using refused by blast
next
  case True
  then obtain req where req: "verifyRequestSchema body = Some req" by auto
  with True assms obtain i w1 where g: "generateRequestId S w = Some (i, w1)"
    by (auto simp: verify_arrives_def split: option.splits)
  let ?d = "evaluateClaim (JNumber (vr_declaredAmount req))"
  obtain q w2 where q: "prepare S (vr_claimId req) ?d i w1 = (q, w2)" by fastforce
  have "submissions w1 = submissions w" using g by (auto simp: generateRequestId_def split: option.splits)
  note kept = prepare_effect(1,2) [OF q] this
  show thesis
  proof (cases q)
    case (Inl e)
    with q g req True assms have "(\<exists>r. x = Answered r) \<and> w' = w2\<lparr>error_log := error_log w2 @ [e]\<rparr>"
      by (auto simp: verify_arrives_def relay_failed_def)
    with kept show thesis by (intro drawn [OF g]) auto
  next
    case (Inr t)
    with q g req True assms have "x = Pending t" "w' = w2" by (auto simp: verify_arrives_def)
    with kept prepare_effect(3) [OF q Inr] show thesis by (intro drawn [OF g]) auto
  qed
qed

lemma verify_settles_cases:
  assumes "verify_settles S num t w = (r, w')" and "getSigningWallet (lib S) (cfg S) = Inr (rt_signer t)"
  shows "issuedRequestIds w' = issuedRequestIds w"
    and "submissions w' = submissions w \<or>
      (\<exists>s. submissions w' = submissions w @ [s] \<and> sub_response s = rt_payload t \<and> genuine S s)"
  using assms
  by (auto simp: verify_settles_def relay_def relay_failed_def submitVerificationOnChain_def genuine_def
      getOracleAdapterContract_def oracle_getProvider_def send_transaction_def Let_def effect_simps
      split: sum.splits option.splits prod.splits if_splits)

section \<open>The invariant\<close>

lemma distinct_move:
  assumes "distinct (xs @ map f ts)" and "t \<in> set ts"
  shows "distinct ((xs @ [f t]) @ map f (remove1 t ts))" "set ((xs @ [f t]) @ map f (remove1 t ts)) = set (xs @ map f ts)"
proof -
  obtain as bs where ts: "ts = as @ t # bs" "t \<notin> set as" using split_list_first [OF assms(2)] by blast
  with assms(1) show "distinct ((xs @ [f t]) @ map f (remove1 t ts))"
      "set ((xs @ [f t]) @ map f (remove1 t ts)) = set (xs @ map f ts)"
    by (auto simp: remove1_append)
qed

lemma arrives_inv:
  assumes "verify_arrives S issues header body w = Some (x, w')" and "oracle_inv S w ts"
  shows "oracle_inv S w' (case x of Answered r \<Rightarrow> ts | Pending t \<Rightarrow> t # ts)"
  using assms(1)
proof (cases rule: verify_arrives_cases)
  case (refused r)
  with assms(2) show ?thesis by (simp add: oracle_inv_def submitted_ids_def)
next
  case (drawn i w1)
  have "submitted_ids w' = submitted_ids w" using drawn by (simp add: submitted_ids_def)
  with drawn assms(2) ids.issue_fresh [OF drawn(1)] ids.issue_adds [OF drawn(1)] show ?thesis
    by (cases x) (auto simp: oracle_inv_def)
qed

lemma settles_inv:
  assumes "verify_settles S num t w = (r, w')" and "t \<in> set ts" and inv: "oracle_inv S w ts"
  shows "oracle_inv S w' (remove1 t ts)"
proof -
  have signer: "getSigningWallet (lib S) (cfg S) = Inr (rt_signer t)"
    using assms(2) inv by (simp add: oracle_inv_def list_all_iff)
  note eff = verify_settles_cases [OF assms(1) signer]
  have ids: "distinct (submitted_ids w @ map task_id ts)" "set (submitted_ids w @ map task_id ts) \<subseteq> issuedRequestIds w"
    using inv by (simp_all add: oracle_inv_def)
  note moved = distinct_move [OF ids(1) assms(2)]
  have rest: "list_all (\<lambda>t. getSigningWallet (lib S) (cfg S) = Inr (rt_signer t)) (remove1 t ts)"
    using inv by (auto simp: oracle_inv_def list_all_iff dest: notin_set_remove1)
  have sub: "set (map task_id (remove1 t ts)) \<subseteq> issuedRequestIds w"
    using ids(2) set_remove1_subset [of t ts] by auto
  from eff(2) show ?thesis
  proof
    assume "submissions w' = submissions w"
    then have "submitted_ids w' = submitted_ids w" by (simp add: submitted_ids_def)
    with moved ids sub eff(1) rest inv \<open>submissions w' = submissions w\<close> show ?thesis by (auto simp: oracle_inv_def)
  next
    assume "\<exists>s. submissions w' = submissions w @ [s] \<and> sub_response s = rt_payload t \<and> genuine S s"
    then obtain s where s: "submissions w' = submissions w @ [s]" "sub_response s = rt_payload t" "genuine S s" by blast
    then have "submitted_ids w' = submitted_ids w @ [task_id t]" by (simp add: submitted_ids_def)
    with moved ids sub eff(1) rest inv s show ?thesis by (auto simp: oracle_inv_def)
  qed
qed

lemma serving_inv:
  assumes "submissions w0 = []" and "serving S num issues w0 w ts"
  shows "oracle_inv S w ts"
  using assms(2)
proof induction
  case idle
  then show ?case by (simp add: oracle_inv_def submitted_ids_def assms(1))
next
  case (answered w ts header body r w')
  from arrives_inv [OF answered.hyps(2) answered.IH] show ?case by simp
next
  case (accepted w ts header body t w')
  from arrives_inv [OF accepted.hyps(2) accepted.IH] show ?case by simp
next
  case (relayed w ts t r w')
  then show ?case by (intro settles_inv)
qed

section \<open>The promises\<close>

text \<open>
  C5 (invariant). Over the whole life of the service, however its requests overlap and whatever fails, no
  two transactions that it has sent or has still to send carry the same request identifier, every such
  identifier is in its set of issued ones, and every transaction goes from the relayer to the
  adapter with a signature of the signing wallet over exactly the response it carries.
\<close>

theorem service_never_reuses_an_identifier:
  assumes "submissions w0 = []" and "serving S num issues w0 w ts"
  shows "distinct (submitted_ids w @ map task_id ts) \<and>
     set (submitted_ids w @ map task_id ts) \<subseteq> issuedRequestIds w \<and> list_all (genuine S) (submissions w)"
  using serving_inv [OF assms] by (simp add: oracle_inv_def)

text \<open>
  What the service has sent, its own recovery function and anyone else who builds
  the same domain attributes to the signing wallet, given that ethers' verification undoes ethers'
  signing for a wallet, a domain, types and a payload.
\<close>

lemma signature_recovers_to_signer:
  assumes "\<forall>w d ty p sig. wallet_signTypedData (lib S) w d ty p = Inr sig \<longrightarrow>
       verifyTypedData (lib S) d ty p sig = Inr (wallet_address w)"
    and "submissions w0 = []" and "serving S num issues w0 w ts" and "s \<in> set (submissions w)"
  shows "\<exists>signer. getSigningWallet (lib S) (cfg S) = Inr signer \<and>
     recoverSigner (lib S) (cfg S) (sub_response s) (sub_signature s) = Inr (wallet_address signer)"
proof -
  have "genuine S s" using serving_inv [OF assms(2,3)] assms(4) by (auto simp: oracle_inv_def list_all_iff)
  with assms(1) show ?thesis by (auto simp: genuine_def signOracleResponse_def recoverSigner_def)
qed

section \<open>Concrete runs\<close>

text \<open>Two requests arrive before either is relayed; the second one is relayed first.\<close>

abbreviation ex_arrival :: "oracle_world \<Rightarrow> (started \<times> oracle_world) option" where
  "ex_arrival w \<equiv> verify_arrives ex_oracle id (Some ''0123456789abcdef'') ex_body w"

fun the_task :: "started \<Rightarrow> relay_task option" where
  "the_task (Pending t) = Some t"
| "the_task (Answered r) = None"

lemma the_task_Some [simp]: "the_task x = Some t \<longleftrightarrow> x = Pending t"
  by (cases x) auto

definition ex_task1 :: relay_task where
  "ex_task1 = the (the_task (fst (the (ex_arrival ex_oracle_world))))"

definition ex_world1 :: oracle_world where
  "ex_world1 = snd (the (ex_arrival ex_oracle_world))"

definition ex_task2 :: relay_task where
  "ex_task2 = the (the_task (fst (the (ex_arrival ex_world1))))"

definition ex_world2 :: oracle_world where
  "ex_world2 = snd (the (ex_arrival ex_world1))"

definition ex_after_one :: oracle_world where
  "ex_after_one = snd (verify_settles ex_oracle (\<lambda>_. []) ex_task2 ex_world2)"

lemma ex_arrivals:
  "ex_arrival ex_oracle_world = Some (Pending ex_task1, ex_world1)"
  "ex_arrival ex_world1 = Some (Pending ex_task2, ex_world2)"
proof -
  have "map_option (\<lambda>p. the_task (fst p) \<noteq> None) (ex_arrival ex_oracle_world) = Some True"
    "map_option (\<lambda>p. the_task (fst p) \<noteq> None) (ex_arrival ex_world1) = Some True" by code_simp+
  then show "ex_arrival ex_oracle_world = Some (Pending ex_task1, ex_world1)"
    "ex_arrival ex_world1 = Some (Pending ex_task2, ex_world2)"
    unfolding ex_task1_def ex_world1_def ex_task2_def ex_world2_def by auto
qed

lemma ex_serving: "serving ex_oracle (\<lambda>_. []) id ex_oracle_world ex_after_one (remove1 ex_task2 [ex_task2, ex_task1])"
proof -
  have "serving ex_oracle (\<lambda>_. []) id ex_oracle_world ex_world2 [ex_task2, ex_task1]"
    by (intro accepted [OF accepted [OF idle ex_arrivals(1)] ex_arrivals(2)])
  then show ?thesis unfolding ex_after_one_def by (rule relayed [OF _ _ surjective_pairing]) simp
qed

lemma ex_nothing_sent: "submissions ex_oracle_world = []"
  by (simp add: ex_oracle_world_def)

lemma ex_one_submission: "length (submissions ex_after_one) = 1"
  by code_simp

theorem service_never_reuses_an_identifier_witness:
  "length (submissions ex_after_one) = 1 \<and> distinct (submitted_ids ex_after_one @ [task_id ex_task1]) \<and>
   list_all (genuine ex_oracle) (submissions ex_after_one)"
  using service_never_reuses_an_identifier [OF ex_nothing_sent ex_serving] ex_one_submission by simp

lemma signature_recovers_to_signer_example:
  "recoverSigner (lib ex_oracle) (cfg ex_oracle) (sub_response (hd (submissions ex_after_one)))
     (sub_signature (hd (submissions ex_after_one))) = Inr ''0x11''"
proof -
  have s: "hd (submissions ex_after_one) \<in> set (submissions ex_after_one)"
    using ex_one_submission by (intro hd_in_set) auto
  have law: "\<forall>w d ty p sig. wallet_signTypedData (lib ex_oracle) w d ty p = Inr sig \<longrightarrow>
      verifyTypedData (lib ex_oracle) d ty p sig = Inr (wallet_address w)"
    by (simp add: ex_oracle_def ex_ethers_def ex_sign_def)
  from signature_recovers_to_signer [OF law ex_nothing_sent ex_serving s] show ?thesis
    by (auto simp: getSigningWallet_def ex_oracle_def ex_ethers_def ex_oracle_config_def numeral_2_eq_2)
qed

end
