(* ===== verification/Safe_Eip1193.thy ===== *)
theory Safe_Eip1193
  imports Safe_Kms
begin

text \<open>
  \<^verbatim>\<open>src/safe-ops/src/eip1193FromKmsSigner.js\<close>: the adapter that makes a KMS signer answer the JSON-RPC
  requests of a browser wallet. \<^verbatim>\<open>JSON.parse\<close> of typed data, the RPC node and \<^verbatim>\<open>sendTransaction\<close>,
  which the signer inherits from ethers, are parameters; the dispatch on the method, what is taken
  from the parameters and the second address cache are modelled.
\<close>

section \<open>Requests\<close>

record tx_params =
  tp_to :: "string option"
  tp_data :: "string option"
  tp_value :: "string option"

text \<open>A parameter of a request is a string or an object; of an object only transaction fields are read.\<close>

datatype rpc_param = PString string | PObject tx_params

datatype tx_value = GivenValue string | ZeroBigInt

record out_tx =
  ot_to :: "string option"
  ot_data :: "string option"
  ot_value :: tx_value

datatype rpc_answer = Accounts "string list" | Text string | Forwarded string

record eip1193 =
  e_signer :: kms_signer
  e_chainId :: int
  e_address :: "string option"
  rpc_log :: "(string \<times> rpc_param list) list"

record eip1193_lib =
  parse_typed :: "string \<Rightarrow> js_error + typed_data"
  signer_sendTransaction :: "out_tx \<Rightarrow> string kms"
  rpc_send :: "nat \<Rightarrow> string \<Rightarrow> rpc_param list \<Rightarrow> js_error + string"

definition new_Eip1193 :: "kms_signer \<Rightarrow> int \<Rightarrow> eip1193" where
  "new_Eip1193 sg c = \<lparr>e_signer = sg, e_chainId = c, e_address = None, rpc_log = []\<rparr>"

definition on_signer :: "'a kms \<Rightarrow> (eip1193, 'a) jsm" where
  "on_signer m = (\<lambda>e. case m (e_signer e) of (r, sg) \<Rightarrow> (r, e\<lparr>e_signer := sg\<rparr>))"

definition adapter_address :: "kms_lib \<Rightarrow> (eip1193, string) jsm" where
  "adapter_address K = bind_m (gets_m e_address) (\<lambda>cached.
     if (case cached of Some a \<Rightarrow> a \<noteq> [] | None \<Rightarrow> False) then ret_m (the cached)
     else bind_m (on_signer (getAddress K)) (\<lambda>a.
          bind_m (modify_m (\<lambda>e. e\<lparr>e_address := Some a\<rparr>)) (\<lambda>_. ret_m a)))"

text \<open>
  Destructuring \<^verbatim>\<open>params\<close>: a missing array throws, a missing element is \<^verbatim>\<open>undefined\<close>.
\<close>

definition param_at :: "nat \<Rightarrow> rpc_param list option \<Rightarrow> js_error + rpc_param option" where
  "param_at i params = (case params of
     None \<Rightarrow> Inl (JsTypeError ''undefined is not iterable'')
   | Some ps \<Rightarrow> Inr (if i < length ps then Some (ps ! i) else None))"

text \<open>\<^verbatim>\<open>Buffer.from(messageHex.slice(2), 'hex')\<close>: only a string has \<^verbatim>\<open>slice\<close>.\<close>

fun message_bytes :: "rpc_param option \<Rightarrow> js_error + buffer" where
  "message_bytes (Some (PString h)) = Inr (from_hex (drop 2 h))"
| "message_bytes _ = Inl (JsTypeError ''messageHex.slice is not a function'')"

text \<open>\<^verbatim>\<open>JSON.parse\<close> reads its argument as a string: undefined and objects are not JSON.\<close>

fun typed_of :: "eip1193_lib \<Rightarrow> rpc_param option \<Rightarrow> js_error + typed_data" where
  "typed_of R (Some (PString j)) = parse_typed R j"
| "typed_of R _ = Inl (JsError ''SyntaxError: not valid JSON'')"

definition without_domain_type :: "typed_data \<Rightarrow> typed_data" where
  "without_domain_type d = d\<lparr>td_types := filter (\<lambda>(n, _). n \<noteq> ''EIP712Domain'') (td_types d)\<rparr>"

fun tx_of :: "rpc_param option \<Rightarrow> js_error + out_tx" where
  "tx_of None = Inl (JsTypeError ''Cannot read properties of undefined'')"
| "tx_of (Some (PString _)) = Inr \<lparr>ot_to = None, ot_data = None, ot_value = ZeroBigInt\<rparr>"
| "tx_of (Some (PObject t)) = Inr \<lparr>ot_to = tp_to t, ot_data = tp_data t,
     ot_value = (case tp_value t of Some v \<Rightarrow> if v = [] then ZeroBigInt else GivenValue v | None \<Rightarrow> ZeroBigInt)\<rparr>"

section \<open>The dispatch\<close>

definition request :: "kms_lib \<Rightarrow> eip1193_lib \<Rightarrow> string \<Rightarrow> rpc_param list option \<Rightarrow> (eip1193, rpc_answer) jsm" where
  "request K R mth params =
     (if mth = ''eth_accounts'' \<or> mth = ''eth_requestAccounts''
      then bind_m (adapter_address K) (\<lambda>a. ret_m (Accounts [a]))
      else if mth = ''eth_chainId''
      then bind_m (gets_m e_chainId) (\<lambda>c. ret_m (Text (''0x'' @ hex c)))
      else if mth = ''personal_sign''
      then bind_m (lift_m (param_at 0 params)) (\<lambda>messageHex.
           bind_m (lift_m (message_bytes messageHex)) (\<lambda>messageBytes.
           bind_m (on_signer (signMessage K (MessageBytes messageBytes))) (\<lambda>sig. ret_m (Text sig))))
      else if mth = ''eth_signTypedData_v4''
      then bind_m (lift_m (param_at 1 params)) (\<lambda>typedDataJson.
           bind_m (lift_m (typed_of R typedDataJson)) (\<lambda>typedData.
           bind_m (on_signer (signTypedData K (without_domain_type typedData))) (\<lambda>sig. ret_m (Text sig))))
      else if mth = ''eth_sendTransaction''
      then bind_m (lift_m (param_at 0 params)) (\<lambda>txParams.
           bind_m (lift_m (tx_of txParams)) (\<lambda>tx.
           bind_m (on_signer (signer_sendTransaction R tx)) (\<lambda>h. ret_m (Text h))))
      else (\<lambda>e. let ps = (case params of None \<Rightarrow> [] | Some p \<Rightarrow> p) in
           (case rpc_send R (length (rpc_log e)) mth ps of Inl x \<Rightarrow> Inl x | Inr t \<Rightarrow> Inr (Forwarded t),
            e\<lparr>rpc_log := rpc_log e @ [(mth, ps)]\<rparr>)))"

definition signing_methods :: "string list" where
  "signing_methods = [''personal_sign'', ''eth_signTypedData_v4'', ''eth_sendTransaction'']"

definition own_methods :: "string list" where
  "own_methods = [''eth_accounts'', ''eth_requestAccounts'', ''eth_chainId''] @ signing_methods"

section \<open>Lemmas\<close>

text \<open>Every other method is forwarded as it is, without touching the signer.\<close>

lemma request_forwards:
  assumes "mth \<notin> set own_methods"
  shows "snd (request K R mth params e) =
     e\<lparr>rpc_log := rpc_log e @ [(mth, case params of None \<Rightarrow> [] | Some ps \<Rightarrow> ps)]\<rparr>"
  using assms by (simp add: request_def own_methods_def signing_methods_def Let_def)

lemma on_signer_Inr:
  "on_signer m e = (Inr x, e') \<longleftrightarrow> (\<exists>sg. m (e_signer e) = (Inr x, sg) \<and> e' = e\<lparr>e_signer := sg\<rparr>)"
  by (auto simp: on_signer_def split: prod.splits)

text \<open>The adapter's cache agrees with the signer's.\<close>

definition caches_agree :: "eip1193 \<Rightarrow> bool" where
  "caches_agree e \<longleftrightarrow> (case e_address e of None \<Rightarrow> True | Some a \<Rightarrow> cachedAddress (e_signer e) = Some a)"

text \<open>Signing reads the address through the cache and keeps what is in it.\<close>

lemma signDigest_keeps:
  assumes "cachedAddress s = Some a" and "a \<noteq> []"
  shows "cachedAddress (snd (signDigest K d s)) = Some a"
  using assms
  by (auto simp: signDigest_def Let_def effect_simps kms_send_def getAddress_cached split: sum.splits)

lemma signMessage_keeps:
  assumes "cachedAddress s = Some a" and "a \<noteq> []"
  shows "cachedAddress (snd (signMessage K m s)) = Some a"
  using signDigest_keeps [OF assms, of K "hashMessage K m"]
  by (auto simp: signMessage_def effect_simps split: prod.splits sum.splits)

lemma signTypedData_keeps:
  assumes "cachedAddress s = Some a" and "a \<noteq> []"
  shows "cachedAddress (snd (signTypedData K m s)) = Some a"
  using assms signDigest_keeps [OF assms, of K]
  by (cases "hashTypedData K m")
    (auto simp: signTypedData_def effect_simps split: prod.splits sum.splits; metis snd_conv)+

text \<open>Nothing changes the address once both caches hold it.\<close>

definition known_as :: "string \<Rightarrow> eip1193 \<Rightarrow> bool" where
  "known_as a e \<longleftrightarrow> a \<noteq> [] \<and> e_address e = Some a \<and> cachedAddress (e_signer e) = Some a"

lemma adapter_address_known: "known_as a e \<Longrightarrow> adapter_address K e = (Inr a, e)"
  by (simp add: adapter_address_def known_as_def effect_simps)

text \<open>The first answer about accounts makes the address known, from a fresh adapter or one that agrees with its signer.\<close>

lemma adapter_address_makes_known:
  assumes "adapter_address K e = (Inr a, e')" and "a \<noteq> []" and "caches_agree e"
  shows "known_as a e'"
  using assms
  by (auto simp: adapter_address_def known_as_def caches_agree_def effect_simps on_signer_def
      dest: getAddress_Inr split: option.splits if_splits prod.splits sum.splits)

lemma on_signer_keeps:
  assumes "known_as a e" and "\<And>s. cachedAddress s = Some a \<Longrightarrow> cachedAddress (snd (m s)) = Some a"
  shows "known_as a (snd (on_signer m e))"
  using assms by (auto simp: known_as_def on_signer_def split: prod.splits) (metis snd_conv)

lemma bind_ret_state [simp]: "snd (bind_m m (\<lambda>x. ret_m (f x)) e) = snd (m e)"
  by (auto simp: effect_simps split: prod.splits sum.splits)

lemma request_keeps_known:
  assumes law: "\<And>tx s. cachedAddress s = Some a \<Longrightarrow> cachedAddress (snd (signer_sendTransaction R tx s)) = Some a"
    and k: "known_as a e"
  shows "known_as a (snd (request K R mth params e))"
proof -
  have a: "a \<noteq> []" using k by (simp add: known_as_def)
  note keeps = on_signer_keeps [OF k] signMessage_keeps [OF _ a] signTypedData_keeps [OF _ a] law
  have fwd: "known_as a (e\<lparr>rpc_log := l\<rparr>)" for l using k by (simp add: known_as_def)
  show ?thesis
    using k fwd
    by (auto simp: request_def adapter_address_known [OF k] bind_m_app [of "lift_m _"] bind_m_app [of "gets_m _"]
        bind_m_app [of "adapter_address K"] lift_m_app gets_m_app ret_m_app Let_def intro!: keeps split: sum.splits)
qed

inductive adapter_steps :: "kms_lib \<Rightarrow> eip1193_lib \<Rightarrow> eip1193 \<Rightarrow> eip1193 \<Rightarrow> bool" for K R where
  no_request: "adapter_steps K R e e"
| one_more: "adapter_steps K R e e' \<Longrightarrow> request K R mth params e' = (r, e'') \<Longrightarrow> adapter_steps K R e e''"

lemma adapter_steps_known:
  assumes law: "\<And>tx s. cachedAddress s = Some a \<Longrightarrow> cachedAddress (snd (signer_sendTransaction R tx s)) = Some a"
    and "adapter_steps K R e e'" and "known_as a e"
  shows "known_as a e'"
  using assms(2,3)
proof (induction rule: adapter_steps.induct)
  case (one_more e e' mth params r e'')
  from request_keeps_known [OF law one_more.IH [OF one_more.prems], of K mth params] one_more.hyps(2) show ?case by simp
qed

text \<open>What a signing request asks to have signed.\<close>

definition requested_digest :: "kms_lib \<Rightarrow> eip1193_lib \<Rightarrow> string \<Rightarrow> rpc_param list option \<Rightarrow> js_error + string" where
  "requested_digest K R mth params = (if mth = ''personal_sign''
     then bind_r (param_at 0 params) (\<lambda>p. bind_r (message_bytes p) (\<lambda>bs. Inr (hashMessage K (MessageBytes bs))))
     else bind_r (param_at 1 params) (\<lambda>p. bind_r (typed_of R p) (\<lambda>d. hashTypedData K (without_domain_type d))))"

lemma request_signs:
  assumes "mth \<in> {''personal_sign'', ''eth_signTypedData_v4''}" and "request K R mth params e = (Inr x, e')"
  shows "\<exists>d g. requested_digest K R mth params = Inr d \<and> x = Text (sig_serialized K g) \<and>
     recovers_to_signer K d g (e_signer e')"
proof (cases "mth = ''personal_sign''")
  case True
  with assms(2) obtain p bs y sg where f: "param_at 0 params = Inr p" "message_bytes p = Inr bs" "x = Text y"
      "signMessage K (MessageBytes bs) (e_signer e) = (Inr y, sg)" "e' = e\<lparr>e_signer := sg\<rparr>"
    by (auto simp: request_def bind_m_Inr lift_m_app ret_m_app on_signer_Inr)
  from f(4) have "\<exists>g. y = sig_serialized K g \<and> recovers_to_signer K (hashMessage K (MessageBytes bs)) g sg"
    unfolding signMessage_def by (rule kms.serialised_good)
  with f True show ?thesis by (auto simp: requested_digest_def)
next
  case False
  with assms obtain p td y sg where f: "param_at 1 params = Inr p" "typed_of R p = Inr td" "x = Text y"
      "signTypedData K (without_domain_type td) (e_signer e) = (Inr y, sg)" "e' = e\<lparr>e_signer := sg\<rparr>"
    by (auto simp: request_def bind_m_Inr lift_m_app ret_m_app on_signer_Inr)
  from f(4) have "\<exists>d g. hashTypedData K (without_domain_type td) = Inr d \<and> y = sig_serialized K g \<and> recovers_to_signer K d g sg"
    unfolding signTypedData_def by (rule kms.hashed_good)
  with f False show ?thesis by (auto simp: requested_digest_def)
qed

section \<open>The promise\<close>

text \<open>
  C36 (safety). Once the adapter has answered which account it is, and after any further requests, failed
  ones included, a signature it returns for personal_sign or eth_signTypedData_v4 is over the digest of
  exactly what was asked (the bytes of the hex message; the typed data less its EIP712Domain entry) and
  recovers to that account.
\<close>

theorem signatures_recover_to_reported_account:
  assumes law: "\<And>tx s. cachedAddress s = Some a \<Longrightarrow> cachedAddress (snd (signer_sendTransaction R tx s)) = Some a"
    and first: "request K R ''eth_requestAccounts'' ps (new_Eip1193 sg c) = (Inr (Accounts [a]), e1)"
    and "a \<noteq> []" and "adapter_steps K R e1 e2"
    and mth: "mth \<in> {''personal_sign'', ''eth_signTypedData_v4''}"
    and run: "request K R mth params e2 = (Inr x, e3)"
  shows "\<exists>d g b. requested_digest K R mth params = Inr d \<and> x = Text (sig_serialized K g) \<and>
     recoverAddress K d g = Inr b \<and> toLowerCase b = toLowerCase a"
proof -
  have "adapter_address K (new_Eip1193 sg c) = (Inr a, e1)"
    using first by (auto simp: request_def bind_m_Inr ret_m_app)
  then have "known_as a e1"
    using \<open>a \<noteq> []\<close> by (rule adapter_address_makes_known) (simp add: caches_agree_def new_Eip1193_def)
  then have "known_as a e2" using adapter_steps_known [OF law assms(4)] by blast
  from request_keeps_known [OF law this, of K mth params] run have "cachedAddress (e_signer e3) = Some a"
    by (simp add: known_as_def)
  with request_signs [OF mth run] show ?thesis by (auto simp: recovers_to_signer_def)
qed

definition ex_lib1193 :: eip1193_lib where
  "ex_lib1193 = \<lparr>parse_typed = (\<lambda>_. Inl (JsError ''SyntaxError'')),
     signer_sendTransaction = (\<lambda>_. ret_m ''0xfeed''), rpc_send = (\<lambda>_ _ _. Inr ''0x1'')\<rparr>"

abbreviation ex_ready :: eip1193 where
  "ex_ready \<equiv> snd (request ex_kms ex_lib1193 ''eth_requestAccounts'' None (new_Eip1193 ex_signer 1337))"

lemma ex_adapter_signs:
  "\<exists>x t. request ex_kms ex_lib1193 ''personal_sign'' (Some [PString ''0x6869'']) ex_ready = (Inr x, t)"
proof -
  have ready: "e_signer ex_ready = ex_signer"
    by (simp add: request_def adapter_address_def new_Eip1193_def effect_simps on_signer_def
        getAddress_cached ex_kms_facts)
  have "signMessage ex_kms (MessageBytes bs) ex_signer = signMessage ex_kms (MessageText ''hi'') ex_signer" for bs
    by (simp add: signMessage_def ex_kms_facts)
  with ex_kms_signs ready show ?thesis
    by (auto simp: request_def bind_m_app lift_m_app ret_m_app
        param_at_def on_signer_def)
qed

theorem signatures_recover_to_reported_account_witness:
  "\<exists>x t g b. request ex_kms ex_lib1193 ''personal_sign'' (Some [PString ''0x6869'']) ex_ready = (Inr x, t) \<and>
     x = Text (sig_serialized ex_kms g) \<and> recoverAddress ex_kms ex_digest g = Inr b \<and>
     toLowerCase b = toLowerCase ''0xabc''"
proof -
  have law: "cachedAddress (snd (signer_sendTransaction ex_lib1193 tx s)) = Some ''0xabc''"
    if "cachedAddress s = Some ''0xabc''" for tx s using that by (simp add: ex_lib1193_def ret_m_app)
  have first: "request ex_kms ex_lib1193 ''eth_requestAccounts'' None (new_Eip1193 ex_signer 1337) =
      (Inr (Accounts [''0xabc'']), ex_ready)"
    by (simp add: request_def adapter_address_def new_Eip1193_def effect_simps on_signer_def
        getAddress_cached ex_kms_facts)
  obtain x t where run: "request ex_kms ex_lib1193 ''personal_sign'' (Some [PString ''0x6869'']) ex_ready = (Inr x, t)"
    using ex_adapter_signs by blast
  have "requested_digest ex_kms ex_lib1193 ''personal_sign'' (Some [PString ''0x6869'']) = Inr ex_digest"
    by (simp add: requested_digest_def param_at_def ex_kms_facts)
  with signatures_recover_to_reported_account [OF law first _ no_request _ run] run show ?thesis by auto
qed

end
