(* ===== verification/Frontend_Async.thy ===== *)
theory Frontend_Async
  imports Frontend_Properties
begin

text \<open>
  \<^verbatim>\<open>pages/ClaimStatus.jsx\<close> with its requests in flight. The search button of this page is never disabled, so
  its handlers overlap: each is cut at its \<^verbatim>\<open>await\<close>s into the pieces that run to completion, a click starts
  a handler and leaves a task behind, and a task settles at any later time. The pieces of one handler, run
  without a pause, are the handler of \<^verbatim>\<open>Frontend_Pages\<close>.
\<close>

section \<open>Tasks\<close>

text \<open>
  A task is the request it waits for, by its position in the log, and what the rest of its handler has
  captured: the token and the identifier of the claim at the time of the click.
\<close>

datatype task = Searching nat | Triggering nat string int | Refreshing nat

definition bearer :: "app \<Rightarrow> string" where
  "bearer s = (case Frontend_Pages.token (auth s) of None \<Rightarrow> ''null'' | Some t \<Rightarrow> t)"

definition ask :: "api_call \<Rightarrow> app \<Rightarrow> app" where
  "ask c s = s\<lparr>api_log := api_log s @ [c]\<rparr>"

definition search_start :: "app \<Rightarrow> app \<times> task" where
  "search_start s = (ask (GetClaim (bearer s) (in_claimId (lookup s)))
       (set_lookup (\<lambda>l. l\<lparr>status_error := None, claim := None\<rparr>) s),
     Searching (length (api_log s)))"

definition verify_start :: "claim_data \<Rightarrow> app \<Rightarrow> app \<times> task" where
  "verify_start c s = (ask (TriggerVerification (bearer s) (cd_id c)
         (case idempotencyKey (lookup s) of None \<Rightarrow> ''null'' | Some k \<Rightarrow> k))
       (set_lookup (\<lambda>l. l\<lparr>verifying := True, status_error := None\<rparr>) s),
     Triggering (length (api_log s)) (bearer s) (cd_id c))"

abbreviation verify_failed :: "js_error \<Rightarrow> app \<Rightarrow> app" where
  "verify_failed e \<equiv> set_lookup (\<lambda>l. l\<lparr>status_error := Some (detail_or e ''Verification request failed.''),
     verifying := False\<rparr>)"

fun settle :: "backend_lib \<Rightarrow> browser_lib \<Rightarrow> task \<Rightarrow> app \<Rightarrow> app \<times> task list" where
  "settle E B (Searching n) s = (case be_claim E n of
       Inl e \<Rightarrow> (set_lookup (\<lambda>l. l\<lparr>status_error := Some (detail_or e ''Claim not found.'')\<rparr>) s, [])
     | Inr c \<Rightarrow> (set_lookup (\<lambda>l. l\<lparr>claim := Some c,
           idempotencyKey := Some (randomUUID B (randoms (browser s)))\<rparr>)
         (s\<lparr>browser := (browser s)\<lparr>randoms := Suc (randoms (browser s))\<rparr>\<rparr>), []))"
| "settle E B (Triggering n tok i) s = (case be_trigger E n of
       Inl e \<Rightarrow> (verify_failed e s, [])
     | Inr _ \<Rightarrow> (ask (GetClaim tok (dec i)) s, [Refreshing (length (api_log s))]))"
| "settle E B (Refreshing n) s = (case be_claim E n of
       Inl e \<Rightarrow> (verify_failed e s, [])
     | Inr c \<Rightarrow> (set_lookup (\<lambda>l. l\<lparr>claim := Some c, verifying := False\<rparr>) s, []))"

section \<open>The handlers, uninterrupted\<close>

lemma handleSearch_pieces:
  "handleSearch E B s = (Inr (), fst (settle E B (snd (search_start s)) (fst (search_start s))))"
  by (cases "be_claim E (length (api_log s))")
    (simp_all add: handleSearch_def effect_simps search_start_def ask_def bearer_def)

text \<open>The refresh that follows a trigger, if there is one.\<close>

lemma handleTriggerVerification_pieces:
  assumes "claim (lookup s) = Some c"
  shows "handleTriggerVerification E s =
     (case settle E B (snd (verify_start c s)) (fst (verify_start c s)) of
        (s', []) \<Rightarrow> (Inr (), s') | (s', t # _) \<Rightarrow> (Inr (), fst (settle E B t s')))"
  using assms
  by (cases "be_trigger E (length (api_log s))"; cases "be_claim E (Suc (length (api_log s)))")
    (simp_all add: handleTriggerVerification_def busy_run_app effect_simps verify_start_def ask_def bearer_def Let_def)

section \<open>Interleaved events\<close>

datatype page_event = TypeClaimId string | SearchClick | VerifyClick | Settles task

type_synonym page_state = "app \<times> task list"

inductive page_step :: "backend_lib \<Rightarrow> browser_lib \<Rightarrow> page_state \<Rightarrow> page_event \<Rightarrow> page_state \<Rightarrow> bool" for E B where
  typed: "page_step E B (s, ts) (TypeClaimId x) (set_lookup (\<lambda>l. l\<lparr>in_claimId := x\<rparr>) s, ts)"
| searched: "search_start s = (u, t) \<Longrightarrow> page_step E B (s, ts) SearchClick (u, t # ts)"
| verified: "verify_button (lookup s) = Some True \<Longrightarrow> claim (lookup s) = Some c \<Longrightarrow>
    verify_start c s = (u, t) \<Longrightarrow> page_step E B (s, ts) VerifyClick (u, t # ts)"
| settled: "t \<in> set ts \<Longrightarrow> settle E B t s = (u, nxt) \<Longrightarrow>
    page_step E B (s, ts) (Settles t) (u, nxt @ remove1 t ts)"

inductive page_run :: "backend_lib \<Rightarrow> browser_lib \<Rightarrow> page_state \<Rightarrow> page_event list \<Rightarrow> page_state \<Rightarrow> bool" for E B where
  at_rest: "page_run E B p [] p"
| onward: "page_step E B p ev q \<Longrightarrow> page_run E B q evs r \<Longrightarrow> page_run E B p (ev # evs) r"

inductive_simps page_run_simps: "page_run E B p [] q" "page_run E B p (ev # evs) q"

text \<open>The steps are deterministic given the event, and can be computed.\<close>

fun next_page :: "backend_lib \<Rightarrow> browser_lib \<Rightarrow> page_state \<Rightarrow> page_event \<Rightarrow> page_state option" where
  "next_page E B (s, ts) (TypeClaimId x) = Some (set_lookup (\<lambda>l. l\<lparr>in_claimId := x\<rparr>) s, ts)"
| "next_page E B (s, ts) SearchClick = (case search_start s of (u, t) \<Rightarrow> Some (u, t # ts))"
| "next_page E B (s, ts) VerifyClick = (case claim (lookup s) of
       None \<Rightarrow> None
     | Some c \<Rightarrow> if verify_button (lookup s) = Some True
         then (case verify_start c s of (u, t) \<Rightarrow> Some (u, t # ts)) else None)"
| "next_page E B (s, ts) (Settles t) = (if t \<in> set ts
     then (case settle E B t s of (u, nxt) \<Rightarrow> Some (u, nxt @ remove1 t ts)) else None)"

fun pages :: "backend_lib \<Rightarrow> browser_lib \<Rightarrow> page_state \<Rightarrow> page_event list \<Rightarrow> page_state option" where
  "pages E B p [] = Some p"
| "pages E B p (ev # evs) = (case next_page E B p ev of None \<Rightarrow> None | Some q \<Rightarrow> pages E B q evs)"

lemma page_step_iff: "page_step E B p ev q \<longleftrightarrow> next_page E B p ev = Some q"
proof
  show "page_step E B p ev q \<Longrightarrow> next_page E B p ev = Some q"
    by (induction rule: page_step.induct) simp_all
next
  assume "next_page E B p ev = Some q"
  then show "page_step E B p ev q"
    by (cases p; cases ev) (auto intro: page_step.intros split: option.splits prod.splits if_splits)
qed

lemma page_run_iff: "page_run E B p evs q \<longleftrightarrow> pages E B p evs = Some q"
  by (induction evs arbitrary: p) (auto simp: page_run_simps page_step_iff split: option.splits)

text \<open>A search completes when its task settles; only then does the key change.\<close>

fun completes_search :: "page_event \<Rightarrow> bool" where
  "completes_search (Settles (Searching n)) = True"
| "completes_search _ = False"

fun is_verification :: "task \<Rightarrow> bool" where
  "is_verification (Searching n) = False"
| "is_verification _ = True"

definition in_flight :: "task list \<Rightarrow> nat" where
  "in_flight ts = length (filter is_verification ts)"

text \<open>
  The invariant: a verification is in flight exactly while the page says so, and where there is a claim to
  show, or one on its way, there is a key.
\<close>

definition page_ok :: "page_state \<Rightarrow> bool" where
  "page_ok p \<longleftrightarrow> in_flight (snd p) = (if verifying (lookup (fst p)) then 1 else 0) \<and>
     (claim (lookup (fst p)) \<noteq> None \<or> verifying (lookup (fst p)) \<longrightarrow> idempotencyKey (lookup (fst p)) \<noteq> None)"

lemma in_flight_simps [simp]:
  "in_flight [] = 0" "in_flight (t # ts) = (if is_verification t then Suc (in_flight ts) else in_flight ts)"
  "in_flight (xs @ ys) = in_flight xs + in_flight ys"
  by (simp_all add: in_flight_def)

lemma in_flight_remove1:
  "t \<in> set ts \<Longrightarrow> in_flight ts = (if is_verification t then Suc (in_flight (remove1 t ts)) else in_flight (remove1 t ts))"
  by (induction ts) auto

lemma ask_fields [simp]:
  "lookup (ask c s) = lookup s" "api_log (ask c s) = api_log s @ [c]" "browser (ask c s) = browser s"
  by (simp_all add: ask_def)

lemma page_ok_step:
  assumes "page_step E B p ev q" and "page_ok p"
  shows "page_ok q"
  using assms(1)
proof cases
  case (settled t ts s u nxt)
  with assms(2) in_flight_remove1 [OF settled(4)] show ?thesis
    by (cases t) (auto simp: page_ok_def split: sum.splits if_splits)
qed (use assms(2) in \<open>auto simp: page_ok_def search_start_def verify_start_def verify_button_def split: if_splits\<close>)

lemma page_ok_run: "page_run E B p evs q \<Longrightarrow> page_ok p \<Longrightarrow> page_ok q"
  by (induction rule: page_run.induct) (auto dest: page_ok_step)

text \<open>The requests one event adds, and the key it keeps.\<close>

definition keyed :: "string option \<Rightarrow> api_call list \<Rightarrow> bool" where
  "keyed k new \<longleftrightarrow> (\<forall>tk i x. TriggerVerification tk i x \<in> set new \<longrightarrow> k = Some x)"

lemma keyed_append [simp]: "keyed k (xs @ ys) \<longleftrightarrow> keyed k xs \<and> keyed k ys"
  by (auto simp: keyed_def)

lemma page_step_keys:
  assumes "page_step E B p ev q" and "page_ok p" and "\<not> completes_search ev"
  shows "idempotencyKey (lookup (fst q)) = idempotencyKey (lookup (fst p)) \<and>
     (\<exists>new. api_log (fst q) = api_log (fst p) @ new \<and> keyed (idempotencyKey (lookup (fst p))) new)"
  using assms(1)
proof cases
  case (settled t ts s u nxt)
  with assms(3) show ?thesis by (cases t) (auto simp: keyed_def split: sum.splits)
qed (use assms(2) in \<open>auto simp: page_ok_def keyed_def search_start_def verify_start_def\<close>)

lemma page_run_keys:
  "page_run E B p evs q \<Longrightarrow> page_ok p \<Longrightarrow> \<not> list_ex completes_search evs \<Longrightarrow>
     idempotencyKey (lookup (fst q)) = idempotencyKey (lookup (fst p)) \<and>
     (\<exists>new. api_log (fst q) = api_log (fst p) @ new \<and> keyed (idempotencyKey (lookup (fst p))) new)"
proof (induction rule: page_run.induct)
  case (at_rest p)
  then show ?case by (simp add: keyed_def)
next
  case (onward p ev q evs r)
  from onward.prems(2) have "\<not> completes_search ev" "\<not> list_ex completes_search evs" by simp_all
  with page_step_keys [OF onward.hyps(1) onward.prems(1)] onward.IH page_ok_step [OF onward.hyps(1) onward.prems(1)]
  show ?case by fastforce
qed

section \<open>The properties\<close>



section \<open>Concrete runs\<close>

definition ex_found :: app where
  "ex_found = fst (the (pages ex_E ex_B (ex_app, []) [SearchClick, Settles (Searching 0)]))"

definition ex_events :: "page_event list" where
  "ex_events = [VerifyClick, Settles (Triggering 1 ''null'' 9), Settles (Refreshing 2), VerifyClick]"

definition ex_clicked :: page_state where
  "ex_clicked = the (pages ex_E ex_B (ex_found, []) ex_events)"


text \<open>Two claims, looked up one after the other; the refresh of the first answers last.\<close>

definition ex_two_claims :: backend_lib where
  "ex_two_claims = ex_E\<lparr>be_claim := (\<lambda>n. Inr \<lparr>cd_id = (if n = 2 then 8 else 9), cd_policy_id = 3,
     cd_status = ''submitted'', cd_onchain_claim_id = None\<rparr>)\<rparr>"


end
