(* ===== verification/Http.thy ===== *)
theory Http
  imports Js_Values
begin

text \<open>
  What the browser, the backend and the services hand to each other over HTTP: a request as axios or
  \<^verbatim>\<open>fetch\<close> is given it, and a response.
\<close>

record http_request =
  rq_method :: string
  rq_path :: string
  rq_params :: "(string \<times> string) list"
  rq_headers :: "(string \<times> string) list"
  rq_body :: "js_value option"

record reply =
  reply_code :: int
  reply_content :: js_value

text \<open>The names of headers do not depend on their case.\<close>

definition header_of :: "http_request \<Rightarrow> string \<Rightarrow> string option" where
  "header_of q k = map_option snd (find (\<lambda>(h, _). toLowerCase h = toLowerCase k) (rq_headers q))"

text \<open>\<^verbatim>\<open>JSON.stringify\<close> of a number, as the receiver reads it: what is not finite is null.\<close>

fun num_json :: "js_num \<Rightarrow> js_value" where
  "num_json (Fin q) = JNumber (Fin q)"
| "num_json _ = JNull"

fun text_of :: "js_value \<Rightarrow> string option" where
  "text_of (JString s) = Some s"
| "text_of _ = None"

text \<open>axios takes a response with a code from 200 to 299 as the answer and throws on every other.\<close>

definition axios_says :: "(js_value \<Rightarrow> 'a option) \<Rightarrow> reply \<Rightarrow> ('e + 'a) \<Rightarrow> bool" where
  "axios_says read r answer \<longleftrightarrow> (if 200 \<le> reply_code r \<and> reply_code r < 300
     then (\<exists>x. read (reply_content r) = Some x \<and> answer = Inr x) else (\<exists>e. answer = Inl e))"

lemma num_json_int [simp]: "num_json (js_int n) = JNumber (js_int n)"
  by (simp add: js_int_def)

end
