(* ===== verification/Frontend_Http.thy ===== *)
theory Frontend_Http
  imports Frontend_Async Http "HOL-Library.Monad_Syntax"
begin

text \<open>
  \<^verbatim>\<open>api/client.js\<close> as the requests it makes, and what the pages read of the answers. The page that files a
  claim (\<^verbatim>\<open>pages/FileClaim.jsx\<close>) with its controls.
\<close>

section \<open>Requests\<close>

definition API_URL :: "string option \<Rightarrow> string" where
  "API_URL VITE_API_URL = or_text VITE_API_URL ''http://localhost:8000''"

definition authHeaders :: "string \<Rightarrow> (string \<times> string) list" where
  "authHeaders tok = [(''Authorization'', ''Bearer '' @ tok)]"

text \<open>The body of \<^verbatim>\<open>createClaim\<close>, as JSON carries it.\<close>

definition claim_json :: "claim_post \<Rightarrow> js_value" where
  "claim_json p = JObject [(''policy_id'', num_json (policy_id p)), (''declared_amount'', num_json (declared_amount p)),
     (''merkle_root'', JString (merkle_root p)), (''merkle_salt'', JString (merkle_salt p)), (''documents'', JArray [])]"

definition api_get :: "string \<Rightarrow> (string \<times> string) list \<Rightarrow> (string \<times> string) list \<Rightarrow> http_request" where
  "api_get path params headers =
     \<lparr>rq_method = ''GET'', rq_path = path, rq_params = params, rq_headers = headers, rq_body = None\<rparr>"

definition api_post :: "string \<Rightarrow> js_value \<Rightarrow> (string \<times> string) list \<Rightarrow> http_request" where
  "api_post path body headers =
     \<lparr>rq_method = ''POST'', rq_path = path, rq_params = [], rq_headers = headers, rq_body = Some body\<rparr>"

fun request_of :: "api_call \<Rightarrow> http_request" where
  "request_of (GetNonce address) = api_get ''/auth/nonce'' [(''address'', address)] []"
| "request_of (LoginWallet address signature) =
     api_post ''/auth/wallet'' (JObject [(''address'', JString address), (''signature'', JString signature)]) []"
| "request_of (ListClaims tok) = api_get ''/claims'' [] (authHeaders tok)"
| "request_of (GetClaim tok claimId) = api_get (''/claims/'' @ claimId) [] (authHeaders tok)"
| "request_of (CreateClaim tok body) = api_post ''/claims'' (claim_json body) (authHeaders tok)"
| "request_of (TriggerVerification tok claimId key) =
     api_post (''/claims/'' @ dec claimId @ ''/trigger-verification'') (JObject [])
       (authHeaders tok @ [(''Idempotency-Key'', key)])"
| "request_of GetPolicyCatalog = api_get ''/policies/catalog'' [] []"
| "request_of (GetPolicyStatus policyId) = api_get (''/policies/'' @ dec policyId @ ''/status'') [] []"

section \<open>What the pages read\<close>

fun whole :: "js_value \<Rightarrow> int option" where
  "whole (JNumber (Fin q)) = (if snd (quotient_of q) = 1 then Some (fst (quotient_of q)) else None)"
| "whole _ = None"

text \<open>An amount in wei comes as a decimal string, which ethers reads as an integer.\<close>

definition wei_in :: "js_value \<Rightarrow> int option" where
  "wei_in v = Option.bind (text_of v) parse_dec"

definition read_message :: "js_value \<Rightarrow> string option" where
  "read_message v = text_of (field v ''message'')"

definition read_access_token :: "js_value \<Rightarrow> string option" where
  "read_access_token v = text_of (field v ''access_token'')"

definition read_claim :: "js_value \<Rightarrow> claim_data option" where
  "read_claim v = do {
     i \<leftarrow> whole (field v ''id'');
     p \<leftarrow> whole (field v ''policy_id'');
     st \<leftarrow> text_of (field v ''status'');
     Some \<lparr>cd_id = i, cd_policy_id = p, cd_status = st, cd_onchain_claim_id = whole (field v ''onchain_claim_id'')\<rparr> }"

definition read_plan :: "js_value \<Rightarrow> catalog_entry option" where
  "read_plan v = do {
     i \<leftarrow> whole (field v ''template_id'');
     premium \<leftarrow> wei_in (field v ''premium_amount_per_period_wei'');
     coverage \<leftarrow> wei_in (field v ''coverage_amount_wei'');
     Some \<lparr>template_id = i, premium_amount_per_period_wei = premium, coverage_amount_wei = coverage\<rparr> }"

fun read_catalog :: "js_value \<Rightarrow> catalog_entry list option" where
  "read_catalog (JArray vs) = those (map read_plan vs)"
| "read_catalog _ = None"

definition read_status :: "js_value \<Rightarrow> premium_status option" where
  "read_status v = (case field v ''premium_current'' of
       JBool b \<Rightarrow> map_option (\<lambda>w. \<lparr>premium_current = b, ps_premium_wei = w\<rparr>)
         (wei_in (field v ''premium_amount_per_period_wei''))
     | _ \<Rightarrow> None)"

lemma whole_int [simp]: "whole (JNumber (js_int n)) = Some n"
  by (simp add: js_int_def)

section \<open>The form of a claim\<close>

datatype file_input = TypePolicyId string | TypeAmount string | TypeDescription string

fun file_change :: "file_input \<Rightarrow> file_state \<Rightarrow> file_state" where
  "file_change (TypePolicyId v) f = f\<lparr>in_policyId := v\<rparr>"
| "file_change (TypeAmount v) f = f\<lparr>in_amount := v\<rparr>"
| "file_change (TypeDescription v) f = f\<lparr>in_description := v\<rparr>"

text \<open>The labels of the button while it is disabled end in an ellipsis, here in UTF-8.\<close>

definition ellipsis :: string where
  "ellipsis = [CHR 0xE2, CHR 0x80, CHR 0xA6]"

fun submit_label :: "step \<Rightarrow> string" where
  "submit_label Creating = ''Saving claim'' @ ellipsis"
| "submit_label SubmittingOnchain = ''Confirm in wallet'' @ ellipsis"
| "submit_label _ = ''Submit Claim''"

record file_view =
  fv_policyId :: string
  fv_amount :: string
  fv_description :: string
  fv_disabled :: bool
  fv_label :: string
  fv_error :: "string option"
  fv_result :: "(int \<times> string) option"

definition FileClaim :: "file_state \<Rightarrow> file_view" where
  "FileClaim f = \<lparr>fv_policyId = in_policyId f, fv_amount = in_amount f, fv_description = in_description f,
     fv_disabled = submit_disabled f, fv_label = submit_label (file_step f), fv_error = shown (file_error f),
     fv_result = file_result f\<rparr>"

lemma submit_label_enabled: "fv_label (FileClaim f) = ''Submit Claim'' \<longleftrightarrow> \<not> fv_disabled (FileClaim f)"
  by (cases "file_step f") (simp_all add: FileClaim_def submit_disabled_def)

end
