(* ===== verification/Backend.thy ===== *)
theory Backend
  imports Zod_Env Http
begin

text \<open>
  The claims side of the backend (\<^verbatim>\<open>src/backend/app\<close>): the login by wallet signature (\<^verbatim>\<open>auth.py\<close>), the
  routes for claims (\<^verbatim>\<open>routes/claims_routes.py\<close>) with the client of the oracle service
  (\<^verbatim>\<open>oracle_client.py\<close>) and the idempotency keys (\<^verbatim>\<open>idempotency.py\<close>), and the webhook of the indexer
  (\<^verbatim>\<open>routes/internal_routes.py\<close>).

  A request runs on the committed tables and either commits or leaves them as they were. FastAPI answers 401
  from a dependency before it validates the body, and 422 for a body that does not validate. How pydantic
  coerces to int, float and bool, the clock, the random nonces, the recovery of a signer and the answer of the
  oracle service are parameters. The caller of a claims route is the address of a valid token. Numbers are
  taken to fit their columns.
\<close>

section \<open>Tables\<close>

record claim_document =
  cdoc_id :: string
  cdoc_filename :: string
  cdoc_sha256_hash :: string
  cdoc_file_cid :: "string option"
  cdoc_merkle_proof :: "string list option"

record backend_claim =
  bc_id :: int
  bc_policy_id :: int
  bc_claimant_address :: string
  bc_declared_amount :: js_num
  bc_merkle_root :: "string option"
  bc_merkle_salt :: "string option"
  bc_status :: string
  bc_onchain_claim_id :: "int option"
  bc_tx_hash :: "string option"
  bc_oracle_request_id :: "string option"
  bc_created_at :: int
  bc_documents :: "claim_document list"

record idempotency_row =
  ik_endpoint :: string
  ik_response_status :: int
  ik_response_body :: js_value

record nonce_row =
  wn_nonce :: string
  wn_expires_at :: int
  wn_used :: bool

record backend_db =
  bk_claims :: "backend_claim list"
  bk_next_id :: int
  bk_keys :: "string \<rightharpoonup> idempotency_row"
  bk_nonces :: "string \<rightharpoonup> nonce_row"

definition ClaimStatus :: "string list" where
  "ClaimStatus = [''draft'', ''submitted'', ''under_review'', ''approved'', ''rejected'', ''paid'']"

text \<open>An error is told in \<^verbatim>\<open>detail\<close>. An exception answers 500.\<close>

definition http_exception :: "int \<Rightarrow> string \<Rightarrow> reply" where
  "http_exception c detail = \<lparr>reply_code = c, reply_content = JObject [(''detail'', JString detail)]\<rparr>"

definition server_error :: reply where
  "server_error = \<lparr>reply_code = 500, reply_content = JString ''Internal Server Error''\<rparr>"

definition unprocessable :: reply where
  "unprocessable = \<lparr>reply_code = 422, reply_content = JObject [(''detail'', JArray [])]\<rparr>"

record pydantic =
  lax_int :: "js_value \<Rightarrow> int option"
  lax_float :: "js_value \<Rightarrow> js_num option"
  lax_bool :: "js_value \<Rightarrow> bool option"

section \<open>Login\<close>

definition NONCE_TTL_MINUTES :: int where
  "NONCE_TTL_MINUTES = 5"

definition build_login_message :: "string \<Rightarrow> string \<Rightarrow> string" where
  "build_login_message prefix nonce = prefix @ '' '' @ nonce"

text \<open>Seconds of the clock; \<open>token\<close> is what \<^verbatim>\<open>secrets.token_hex\<close> returns.\<close>

definition generate_nonce :: "string \<Rightarrow> int \<Rightarrow> string \<Rightarrow> backend_db \<Rightarrow> string \<times> backend_db" where
  "generate_nonce token now address db = (let a = toLowerCase address in
     (token, db\<lparr>bk_nonces := (bk_nonces db)(a \<mapsto> \<lparr>wn_nonce = token,
        wn_expires_at = now + NONCE_TTL_MINUTES * 60, wn_used = False\<rparr>)\<rparr>))"

definition verify_signature_and_consume_nonce ::
  "(string \<Rightarrow> string \<Rightarrow> string option) \<Rightarrow> string \<Rightarrow> int \<Rightarrow> string \<Rightarrow> string \<Rightarrow> backend_db \<Rightarrow> bool \<times> backend_db" where
  "verify_signature_and_consume_nonce recover prefix now address signature db =
     (let a = toLowerCase address in
      case bk_nonces db a of
        None \<Rightarrow> (False, db)
      | Some record \<Rightarrow>
          if wn_used record then (False, db)
          else if wn_expires_at record < now then (False, db)
          else let recovered = recover (build_login_message prefix (wn_nonce record)) signature;
                   db1 = db\<lparr>bk_nonces := (bk_nonces db)(a \<mapsto> record\<lparr>wn_used := True\<rparr>)\<rparr>
               in (case recovered of None \<Rightarrow> (False, db1) | Some r \<Rightarrow> (toLowerCase r = a, db1)))"

section \<open>Claims\<close>

text \<open>A value of a nullable text column, and an optional text of a request.\<close>

fun text_column :: "js_value \<Rightarrow> string option option" where
  "text_column (JString s) = Some (Some s)"
| "text_column JNull = Some None"
| "text_column _ = None"

definition optional_text :: "(string \<times> js_value) list \<Rightarrow> string \<Rightarrow> string option option" where
  "optional_text kvs k = (case map_of kvs k of None \<Rightarrow> Some None | Some v \<Rightarrow> text_column v)"

record document_in =
  di_filename :: string
  di_sha256_hash :: string
  di_file_cid :: "string option"
  di_merkle_proof :: "string list option"

definition DocumentIn :: "js_value \<Rightarrow> document_in option" where
  "DocumentIn v = (case v of
       JObject kvs \<Rightarrow> do {
         name \<leftarrow> Option.bind (map_of kvs ''filename'') text_of;
         sha \<leftarrow> Option.bind (map_of kvs ''sha256_hash'') text_of;
         _ \<leftarrow> guard (hex_string 64 (''0x'' @ sha));
         cid \<leftarrow> optional_text kvs ''file_cid'';
         proof_list \<leftarrow> (case map_of kvs ''merkle_proof'' of
             None \<Rightarrow> Some None
           | Some JNull \<Rightarrow> Some None
           | Some (JArray xs) \<Rightarrow> map_option Some (those (map text_of xs))
           | Some _ \<Rightarrow> None);
         Some \<lparr>di_filename = name, di_sha256_hash = sha, di_file_cid = cid, di_merkle_proof = proof_list\<rparr> }
     | _ \<Rightarrow> None)"

record create_claim_request =
  cr_policy_id :: int
  cr_declared_amount :: js_num
  cr_merkle_root :: "string option"
  cr_merkle_salt :: "string option"
  cr_documents :: "document_in list"

text \<open>A text that is given must have the pattern \<^verbatim>\<open>^0x[a-fA-F0-9]{64}$\<close>.\<close>

definition hex_pattern :: "string option \<Rightarrow> bool" where
  "hex_pattern v \<longleftrightarrow> (case v of None \<Rightarrow> True | Some s \<Rightarrow> hex_string 64 s)"

definition CreateClaimRequest :: "pydantic \<Rightarrow> js_value \<Rightarrow> create_claim_request option" where
  "CreateClaimRequest V body = (case body of
       JObject kvs \<Rightarrow> do {
         pid \<leftarrow> Option.bind (map_of kvs ''policy_id'') (lax_int V);
         amount \<leftarrow> Option.bind (map_of kvs ''declared_amount'') (lax_float V);
         _ \<leftarrow> guard (num_less (js_int 0) amount);
         mroot \<leftarrow> optional_text kvs ''merkle_root'';
         _ \<leftarrow> guard (hex_pattern mroot);
         salt \<leftarrow> optional_text kvs ''merkle_salt'';
         _ \<leftarrow> guard (hex_pattern salt);
         docs \<leftarrow> (case map_of kvs ''documents'' of
             None \<Rightarrow> Some []
           | Some (JArray xs) \<Rightarrow> those (map DocumentIn xs)
           | Some _ \<Rightarrow> None);
         Some \<lparr>cr_policy_id = pid, cr_declared_amount = amount, cr_merkle_root = mroot,
           cr_merkle_salt = salt, cr_documents = docs\<rparr> }
     | _ \<Rightarrow> None)"

definition stored_document :: "string \<Rightarrow> document_in \<Rightarrow> claim_document" where
  "stored_document i d = \<lparr>cdoc_id = i, cdoc_filename = di_filename d, cdoc_sha256_hash = di_sha256_hash d,
     cdoc_file_cid = di_file_cid d, cdoc_merkle_proof = di_merkle_proof d\<rparr>"

text \<open>The n-th document gets the identifier \<open>ids n\<close>, a random UUID.\<close>

definition create_claim :: "int \<Rightarrow> (nat \<Rightarrow> string) \<Rightarrow> create_claim_request \<Rightarrow> string \<Rightarrow> backend_db \<Rightarrow>
  (reply + backend_claim) \<times> backend_db" where
  "create_claim now ids payload claimant db =
     (if (cr_merkle_root payload = None) \<noteq> (cr_merkle_salt payload = None)
      then (Inl (http_exception 422
        ''merkle_root and merkle_salt must both be provided together, or neither.''), db)
      else let c = \<lparr>bc_id = bk_next_id db, bc_policy_id = cr_policy_id payload, bc_claimant_address = claimant,
                 bc_declared_amount = cr_declared_amount payload, bc_merkle_root = cr_merkle_root payload,
                 bc_merkle_salt = cr_merkle_salt payload, bc_status = ''draft'', bc_onchain_claim_id = None,
                 bc_tx_hash = None, bc_oracle_request_id = None, bc_created_at = now,
                 bc_documents = map (\<lambda>(n, d). stored_document (ids n) d) (enumerate 0 (cr_documents payload))\<rparr>
           in (Inr c, db\<lparr>bk_claims := bk_claims db @ [c], bk_next_id := bk_next_id db + 1\<rparr>))"

definition list_my_claims :: "string \<Rightarrow> backend_db \<Rightarrow> backend_claim list" where
  "list_my_claims claimant db =
     sort_key (\<lambda>c. - bc_created_at c) (filter (\<lambda>c. bc_claimant_address c = claimant) (bk_claims db))"

definition claim_by_id :: "backend_db \<Rightarrow> int \<Rightarrow> backend_claim option" where
  "claim_by_id db i = find (\<lambda>c. bc_id c = i) (bk_claims db)"

definition get_claim :: "int \<Rightarrow> string \<Rightarrow> backend_db \<Rightarrow> reply + backend_claim" where
  "get_claim claim_id claimant db = (case claim_by_id db claim_id of
       None \<Rightarrow> Inl (http_exception 404 ''Claim not found'') | Some c \<Rightarrow> Inr c)"

definition save_claim :: "backend_claim \<Rightarrow> backend_db \<Rightarrow> backend_db" where
  "save_claim c db = db\<lparr>bk_claims := map (\<lambda>x. if bc_id x = bc_id c then c else x) (bk_claims db)\<rparr>"

section \<open>The client of the oracle service\<close>

text \<open>What an HTTP call brings: no connection, or a code, the body as text and, if it is JSON, as a value.\<close>

datatype http_answer = Unreachable string | HttpAnswer int "js_value option" string

record oracle_result =
  or_approved :: js_value
  or_reason :: js_value
  or_request_id :: js_value
  or_tx_hash :: js_value

datatype oracle_failure = OracleServiceError string | Uncaught

definition verification_body :: "int \<Rightarrow> js_num \<Rightarrow> js_value" where
  "verification_body claim_id declared_amount =
     JObject [(''claimId'', JNumber (js_int claim_id)), (''declaredAmount'', JNumber declared_amount)]"

text \<open>The dash of a message, in UTF-8. A missing key is quoted in the text of its \<^verbatim>\<open>KeyError\<close>.\<close>

definition utf8_dash :: string where
  "utf8_dash = [CHR 0xE2, CHR 0x80, CHR 0x94]"

definition missing_field :: "string \<Rightarrow> oracle_failure" where
  "missing_field k = OracleServiceError (''Oracle service response missing field: '' @ CHR 0x27 # k @ [CHR 0x27])"

definition request_verification ::
  "(js_value \<Rightarrow> http_answer) \<Rightarrow> int \<Rightarrow> js_num \<Rightarrow> oracle_failure + oracle_result" where
  "request_verification oracle claim_id declared_amount =
     (case oracle (verification_body claim_id declared_amount) of
        Unreachable m \<Rightarrow> Inl (OracleServiceError (''Could not reach oracle service: '' @ m))
      | HttpAnswer c json txt \<Rightarrow>
          if c = 401 then Inl (OracleServiceError
            (''Oracle service rejected this backend'' @ CHR 0x27 # ''s API key '' @ utf8_dash @
             '' check ORACLE_SERVICE_API_KEY matches on both sides.''))
          else if c \<noteq> 200 then Inl (OracleServiceError (''Oracle service returned '' @ dec c @ '': '' @ txt))
          else (case json of
              Some (JObject kvs) \<Rightarrow>
                (case map_of kvs ''approved'' of None \<Rightarrow> Inl (missing_field ''approved'') | Some a \<Rightarrow>
                (case map_of kvs ''reason'' of None \<Rightarrow> Inl (missing_field ''reason'') | Some r \<Rightarrow>
                (case map_of kvs ''requestId'' of None \<Rightarrow> Inl (missing_field ''requestId'') | Some q \<Rightarrow>
                (case map_of kvs ''txHash'' of None \<Rightarrow> Inl (missing_field ''txHash'') | Some t \<Rightarrow>
                 Inr \<lparr>or_approved = a, or_reason = r, or_request_id = q, or_tx_hash = t\<rparr>))))
            | _ \<Rightarrow> Inl Uncaught))"

section \<open>Triggering a verification\<close>

definition get_cached_response :: "backend_db \<Rightarrow> string \<Rightarrow> string \<Rightarrow> (int \<times> js_value) option" where
  "get_cached_response db key endpoint = (case bk_keys db key of
       None \<Rightarrow> None
     | Some record \<Rightarrow> if ik_endpoint record \<noteq> endpoint then None
         else Some (ik_response_status record, ik_response_body record))"

definition store_response :: "string \<Rightarrow> string \<Rightarrow> int \<Rightarrow> js_value \<Rightarrow> backend_db \<Rightarrow> backend_db" where
  "store_response key endpoint c body db = (if bk_keys db key \<noteq> None then db
     else db\<lparr>bk_keys := (bk_keys db)(key \<mapsto> \<lparr>ik_endpoint = endpoint, ik_response_status = c,
       ik_response_body = body\<rparr>)\<rparr>)"

fun python_truthy :: "js_value \<Rightarrow> bool" where
  "python_truthy (JBool b) = b"
| "python_truthy (JNumber x) = (x \<noteq> js_int 0)"
| "python_truthy (JString s) = (s \<noteq> [])"
| "python_truthy (JArray xs) = (xs \<noteq> [])"
| "python_truthy (JObject kvs) = (kvs \<noteq> [])"
| "python_truthy _ = False"

text \<open>\<^verbatim>\<open>TriggerVerificationResponse\<close>: None is a validation error of the response.\<close>

definition trigger_response :: "pydantic \<Rightarrow> int \<Rightarrow> oracle_result \<Rightarrow> string \<Rightarrow> js_value option" where
  "trigger_response V claim_id result st =
     (case (lax_bool V (or_approved result), or_reason result, or_tx_hash result) of
        (Some b, JString r, JString t) \<Rightarrow> Some (JObject [(''claim_id'', JNumber (js_int claim_id)),
          (''approved'', JBool b), (''reason'', JString r), (''oracle_tx_hash'', JString t),
          (''status'', JString st)])
      | _ \<Rightarrow> None)"

definition trigger_endpoint :: string where
  "trigger_endpoint = ''trigger-verification''"

text \<open>The calls to the oracle service of a request, in the second component: at most one.\<close>

definition trigger_verification ::
  "pydantic \<Rightarrow> (js_value \<Rightarrow> http_answer) \<Rightarrow> int \<Rightarrow> string \<Rightarrow> string option \<Rightarrow> backend_db \<Rightarrow>
     reply \<times> js_value list \<times> backend_db" where
  "trigger_verification V oracle claim_id claimant key db =
     (let cached = (case key of None \<Rightarrow> None
        | Some k \<Rightarrow> if k = [] then None else get_cached_response db k trigger_endpoint) in
      case cached of
        Some (c, body) \<Rightarrow> (\<lparr>reply_code = 200, reply_content = body\<rparr>, [], db)
      | None \<Rightarrow> (case claim_by_id db claim_id of
          None \<Rightarrow> (http_exception 404 ''Claim not found'', [], db)
        | Some claim \<Rightarrow>
            let calls = [verification_body (bc_id claim) (bc_declared_amount claim)] in
            (case request_verification oracle (bc_id claim) (bc_declared_amount claim) of
               Inl (OracleServiceError m) \<Rightarrow> (http_exception 502 m, calls, db)
             | Inl Uncaught \<Rightarrow> (server_error, calls, db)
             | Inr result \<Rightarrow>
                 let st = (if python_truthy (or_approved result) then ''approved'' else ''rejected'') in
                 (case (text_column (or_request_id result), text_column (or_tx_hash result)) of
                    (Some rid, Some tx) \<Rightarrow>
                      let db1 = save_claim (claim\<lparr>bc_status := st, bc_oracle_request_id := rid,
                            bc_tx_hash := tx\<rparr>) db in
                      (case trigger_response V (bc_id claim) result st of
                         None \<Rightarrow> (server_error, calls, db1)
                       | Some body \<Rightarrow> (\<lparr>reply_code = 200, reply_content = body\<rparr>, calls,
                           (case key of None \<Rightarrow> db1
                            | Some k \<Rightarrow> if k = [] then db1 else store_response k trigger_endpoint 200 body db1)))
                  | _ \<Rightarrow> (server_error, calls, db)))))"

section \<open>The webhook\<close>

record notification =
  nt_onchain_claim_id :: int
  nt_merkle_root :: string
  nt_tx_hash :: string
  nt_status :: string

text \<open>\<^verbatim>\<open>OnchainEventNotification\<close>: four required fields, and a name that may be missing or null.\<close>

definition OnchainEventNotification :: "pydantic \<Rightarrow> js_value \<Rightarrow> notification option" where
  "OnchainEventNotification V body = (case body of
       JObject kvs \<Rightarrow>
         (case (map_of kvs ''event_name'', map_of kvs ''onchain_claim_id'', map_of kvs ''merkle_root'',
                map_of kvs ''tx_hash'', map_of kvs ''status'') of
            (name, Some cid, Some (JString mroot), Some (JString tx), Some (JString st)) \<Rightarrow>
              (if (case name of None \<Rightarrow> True | Some JNull \<Rightarrow> True | Some (JString _) \<Rightarrow> True | _ \<Rightarrow> False)
               then map_option (\<lambda>n. \<lparr>nt_onchain_claim_id = n, nt_merkle_root = mroot, nt_tx_hash = tx,
                      nt_status = st\<rparr>) (lax_int V cid)
               else None)
          | _ \<Rightarrow> None)
     | _ \<Rightarrow> None)"

definition ascii_text :: "string \<Rightarrow> bool" where
  "ascii_text s \<longleftrightarrow> list_all (\<lambda>c. of_char c < (128 :: nat)) s"

text \<open>\<^verbatim>\<open>hmac.compare_digest\<close> raises on strings that are not ASCII.\<close>

definition require_indexer_webhook_key :: "string \<Rightarrow> string option \<Rightarrow> reply option" where
  "require_indexer_webhook_key secret header = (case header of
       None \<Rightarrow> Some (http_exception 401 ''missing_webhook_key'')
     | Some k \<Rightarrow> if \<not> ascii_text k \<or> \<not> ascii_text secret then Some server_error
         else if k \<noteq> secret then Some (http_exception 401 ''invalid_webhook_key'') else None)"

definition receive_onchain_event ::
  "pydantic \<Rightarrow> string \<Rightarrow> string option \<Rightarrow> js_value \<Rightarrow> backend_db \<Rightarrow> reply \<times> backend_db" where
  "receive_onchain_event V secret header body db =
     (case require_indexer_webhook_key secret header of
        Some r \<Rightarrow> (r, db)
      | None \<Rightarrow> (case OnchainEventNotification V body of
          None \<Rightarrow> (unprocessable, db)
        | Some payload \<Rightarrow>
            (case filter (\<lambda>c. bc_merkle_root c = Some (nt_merkle_root payload)) (bk_claims db) of
               [] \<Rightarrow> (\<lparr>reply_code = 200, reply_content = JObject [(''status'', JString ''no_matching_claim''),
                      (''merkle_root'', JString (nt_merkle_root payload))]\<rparr>, db)
             | [claim] \<Rightarrow>
                 if nt_status payload \<notin> set ClaimStatus
                 then (\<lparr>reply_code = 200, reply_content = JObject [(''status'', JString ''unrecognized_status''),
                         (''received'', JString (nt_status payload))]\<rparr>, db)
                 else (\<lparr>reply_code = 200, reply_content = JObject [(''status'', JString ''updated''),
                         (''claim_id'', JNumber (js_int (bc_id claim)))]\<rparr>,
                       save_claim (claim\<lparr>bc_onchain_claim_id := Some (nt_onchain_claim_id payload),
                         bc_tx_hash := Some (nt_tx_hash payload), bc_status := nt_status payload\<rparr>) db)
             | _ \<Rightarrow> (server_error, db))))"

section \<open>A concrete validation\<close>

definition py_pydantic :: pydantic where
  "py_pydantic = \<lparr>lax_int = (\<lambda>v. case v of JString s \<Rightarrow> parse_dec s
       | JNumber (Fin q) \<Rightarrow> if snd (quotient_of q) = 1 then Some (fst (quotient_of q)) else None | _ \<Rightarrow> None),
     lax_float = (\<lambda>v. case v of JNumber x \<Rightarrow> Some x | _ \<Rightarrow> None),
     lax_bool = (\<lambda>v. case v of JBool b \<Rightarrow> Some b | _ \<Rightarrow> None)\<rparr>"

end
