(* ===== verification/Solidity.thy ===== *)
theory Solidity
  imports Prelude
begin

text \<open>
  The part of Solidity 0.8 the contracts under \<^verbatim>\<open>src/smart-contracts/contracts\<close> use. Unsigned integers
  are words of their width; the sum of two \<^verbatim>\<open>uint256\<close> is checked and panics on overflow, a conversion to
  a narrower type truncates (\<open>ucast\<close>). A mapping is a total function that starts at the zero value.

  An external call either reverts, and then nothing of it remains, or gives the new state of the contract,
  the logs it emitted included. OpenZeppelin is not part of the repository: the role table, the outcome of
  a token transfer and the elliptic curve are parameters, given with the transaction.
\<close>

named_theorems sol_defs \<open>the guards and helpers of external functions\<close>

type_synonym uint256 = "256 word"
type_synonym uint128 = "128 word"
type_synonym uint96 = "96 word"
type_synonym uint40 = "40 word"
type_synonym address = "160 word"
type_synonym bytes32 = "256 word"

datatype sol_error =
    CustomError string \<comment> \<open>\<^verbatim>\<open>revert Name()\<close>\<close>
  | RequireFailed string \<comment> \<open>\<^verbatim>\<open>require(condition, message)\<close>\<close>
  | PanicCode nat
  | Bubbled string \<comment> \<open>a revert of a called contract\<close>

type_synonym 'a sol = "sol_error + 'a"

text \<open>Calls of ERC-20 tokens: token, receiver and amount, or token, payer, receiver and amount.\<close>

datatype token_call =
    SafeTransfer address address uint256
  | SafeTransferFrom address address address uint256

record tx =
  msg_sender :: address
  block_timestamp :: uint256
  hasRole :: "string \<Rightarrow> address \<Rightarrow> bool"
  token_reverts :: "token_call \<Rightarrow> sol_error option"

definition checked_add :: "uint256 \<Rightarrow> uint256 \<Rightarrow> uint256 sol" where
  "checked_add a b = (if uint a + uint b < 2 ^ 256 then Inr (a + b) else Inl (PanicCode 17))"

definition onlyRole :: "tx \<Rightarrow> string \<Rightarrow> 'a sol \<Rightarrow> 'a sol" where
  "onlyRole t role body = (if hasRole t role (msg_sender t) then body
     else Inl (CustomError ''AccessControlUnauthorizedAccount''))"

definition whenNotPaused :: "bool \<Rightarrow> 'a sol \<Rightarrow> 'a sol" where
  "whenNotPaused p body = (if p then Inl (CustomError ''EnforcedPause'') else body)"

definition whenPaused :: "bool \<Rightarrow> 'a sol \<Rightarrow> 'a sol" where
  "whenPaused p body = (if p then body else Inl (CustomError ''ExpectedPause''))"

definition initializer :: "bool \<Rightarrow> 'a sol \<Rightarrow> 'a sol" where
  "initializer initialized body =
     (if initialized then Inl (CustomError ''InvalidInitialization'') else body)"

definition revert_if :: "bool \<Rightarrow> string \<Rightarrow> 'a sol \<Rightarrow> 'a sol" where
  "revert_if b name body = (if b then Inl (CustomError name) else body)"

definition token_call_then :: "tx \<Rightarrow> token_call \<Rightarrow> 'a sol \<Rightarrow> 'a sol" where
  "token_call_then t c body = (case token_reverts t c of Some e \<Rightarrow> Inl e | None \<Rightarrow> body)"

section \<open>When guarded code succeeds\<close>

lemma checked_add_Inr [sol_defs]:
  "checked_add a b = Inr c \<longleftrightarrow> uint a + uint b < 2 ^ 256 \<and> c = a + b"
  by (auto simp: checked_add_def)

lemma guards_Inr [sol_defs]:
  "onlyRole t role body = Inr x \<longleftrightarrow> hasRole t role (msg_sender t) \<and> body = Inr x"
  "whenNotPaused p body = Inr x \<longleftrightarrow> \<not> p \<and> body = Inr x"
  "whenPaused p body = Inr x \<longleftrightarrow> p \<and> body = Inr x"
  "initializer i body = Inr x \<longleftrightarrow> \<not> i \<and> body = Inr x"
  "revert_if b name body = Inr x \<longleftrightarrow> \<not> b \<and> body = Inr x"
  "token_call_then t c body = Inr x \<longleftrightarrow> token_reverts t c = None \<and> body = Inr x"
  by (auto simp: onlyRole_def whenNotPaused_def whenPaused_def initializer_def revert_if_def
      token_call_then_def split: option.splits)

declare bind_r_Inr [sol_defs]

lemma uint_checked_add: "uint a + uint b < 2 ^ 256 \<Longrightarrow> uint (a + b) = uint a + uint (b :: uint256)"
  by (simp add: uint_plus_if')

lemma uint_ucast_id: "uint a < 2 ^ LENGTH('b) \<Longrightarrow> uint (ucast a :: 'b :: len word) = uint a"
  by (simp add: unsigned_ucast_eq take_bit_int_eq_self)

lemma uint_ucast_le: "uint (ucast a :: 'b :: len word) \<le> uint a"
  by (simp add: unsigned_ucast_eq take_bit_int_less_eq_self_iff)

lemma uint_ucast_up: "LENGTH('a) \<le> LENGTH('b) \<Longrightarrow> uint (ucast (a :: 'a :: len word) :: 'b :: len word) = uint a"
  by (rule uint_up_ucast) (simp add: is_up)

lemma map_sum_Inr: "map_sum id f x = Inr u \<longleftrightarrow> (\<exists>a. x = Inr a \<and> u = f a)"
  by (cases x) auto

section \<open>Histories of a contract\<close>

text \<open>A reverted call leaves the state as it was, and the next one runs on it.\<close>

definition settle_call :: "('c \<Rightarrow> 's \<Rightarrow> 's sol) \<Rightarrow> 'c \<Rightarrow> 's \<Rightarrow> 's" where
  "settle_call exec c s = (case exec c s of Inl e \<Rightarrow> s | Inr u \<Rightarrow> u)"

definition run_calls :: "('c \<Rightarrow> 's \<Rightarrow> 's sol) \<Rightarrow> 'c list \<Rightarrow> 's \<Rightarrow> 's" where
  "run_calls exec cs s = fold (settle_call exec) cs s"

lemma run_calls_simps [simp]:
  "run_calls exec [] s = s"
  "run_calls exec (c # cs) s = run_calls exec cs (settle_call exec c s)"
  "run_calls exec (cs @ ds) s = run_calls exec ds (run_calls exec cs s)"
  by (simp_all add: run_calls_def)

text \<open>Every call of a history is allowed in the state it meets.\<close>

fun all_allowed :: "('c \<Rightarrow> 's \<Rightarrow> 's sol) \<Rightarrow> ('c \<Rightarrow> 's \<Rightarrow> bool) \<Rightarrow> 'c list \<Rightarrow> 's \<Rightarrow> bool" where
  "all_allowed exec allowed [] s \<longleftrightarrow> True"
| "all_allowed exec allowed (c # cs) s \<longleftrightarrow>
     allowed c s \<and> all_allowed exec allowed cs (settle_call exec c s)"

lemma all_allowed_if: "(\<And>c s. c \<in> set cs \<Longrightarrow> allowed c s) \<Longrightarrow> all_allowed exec allowed cs s"
  by (induction cs arbitrary: s) auto

lemma all_allowed_True [simp]: "all_allowed exec (\<lambda>c s. True) cs s"
  by (induction cs arbitrary: s) auto

text \<open>
  The contract between the calls of a history and a property of the state: what every successful call
  keeps, every history keeps. The calls may be restricted by what is known of them and of the state.
\<close>

locale call_invariant =
  fixes exec :: "'c \<Rightarrow> 's \<Rightarrow> 's sol" and I :: "'s \<Rightarrow> bool" and allowed :: "'c \<Rightarrow> 's \<Rightarrow> bool"
  assumes call_keeps: "I s \<Longrightarrow> allowed c s \<Longrightarrow> exec c s = Inr u \<Longrightarrow> I u"
begin

lemma settle_keeps: "I s \<Longrightarrow> allowed c s \<Longrightarrow> I (settle_call exec c s)"
  using call_keeps by (auto simp: settle_call_def split: sum.split)

lemma history_keeps: "I s \<Longrightarrow> all_allowed exec allowed cs s \<Longrightarrow> I (run_calls exec cs s)"
  by (induction cs arbitrary: s) (auto intro: settle_keeps)

end

end
