(* ===== verification/Insurance_Policy.thy ===== *)
theory Insurance_Policy
  imports Solidity
begin

text \<open>
  \<^verbatim>\<open>src/smart-contracts/contracts/InsurancePolicy.sol\<close>: the registry of policies, the premium module and
  the catalog of plans. One function per external function of the contract, its modifiers in their order.
  Reentrancy is excluded by the modifier of the library on the two functions that call the token.
\<close>

section \<open>State\<close>

record policy_struct =
  p_policyId :: uint128
  p_coverageAmount :: uint128
  p_holder :: address
  p_validFrom :: uint40
  p_validUntil :: uint40
  p_revoked :: bool
  p_metadataHash :: bytes32

record premium_terms =
  pt_amountPerPeriod :: uint128
  pt_periodSeconds :: uint40

record plan_struct =
  t_coverageAmount :: uint128
  t_premiumAmountPerPeriod :: uint128
  t_periodSeconds :: uint40
  t_termSeconds :: uint40
  t_active :: bool
  t_metadataHash :: bytes32

datatype policy_log =
    EmitPolicyRegistered uint256 address uint256 uint256 uint256 bytes32
  | EmitPolicyRevoked uint256
  | EmitPolicyCoverageUpdated uint256 uint256
  | EmitPremiumConfigUpdated address address uint256
  | EmitPremiumTermsSet uint256 uint256 uint256
  | EmitPremiumPaid uint256 address uint256 uint256
  | EmitPolicyTemplateAdded uint256 uint256 uint256 uint256 uint256
  | EmitPolicyTemplateStatusChanged uint256 bool
  | EmitPolicySubscribed uint256 uint256 address uint256
  | EmitPolicyPaused address
  | EmitPolicyUnpaused address

record insurance_policy =
  policies :: "uint256 \<Rightarrow> policy_struct"
  policy_exists :: "uint256 \<Rightarrow> bool"
  premiumToken :: address
  premiumTreasury :: address
  premiumGracePeriodSeconds :: uint256
  premiumTerms :: "uint256 \<Rightarrow> premium_terms"
  premiumPaidUntil :: "uint256 \<Rightarrow> uint256"
  policyTemplates :: "uint256 \<Rightarrow> plan_struct"
  nextPolicyId :: uint256
  policy_paused :: bool
  policy_initialized :: bool
  policy_logs :: "policy_log list"
  premium_calls :: "token_call list"

definition no_policy :: policy_struct where
  "no_policy = \<lparr>p_policyId = 0, p_coverageAmount = 0, p_holder = 0, p_validFrom = 0, p_validUntil = 0,
     p_revoked = False, p_metadataHash = 0\<rparr>"

definition no_plan :: plan_struct where
  "no_plan = \<lparr>t_coverageAmount = 0, t_premiumAmountPerPeriod = 0, t_periodSeconds = 0, t_termSeconds = 0,
     t_active = False, t_metadataHash = 0\<rparr>"

text \<open>The storage of a fresh proxy.\<close>

definition blank_policies :: insurance_policy where
  "blank_policies = \<lparr>policies = (\<lambda>_. no_policy), policy_exists = (\<lambda>_. False), premiumToken = 0,
     premiumTreasury = 0, premiumGracePeriodSeconds = 0,
     premiumTerms = (\<lambda>_. \<lparr>pt_amountPerPeriod = 0, pt_periodSeconds = 0\<rparr>), premiumPaidUntil = (\<lambda>_. 0),
     policyTemplates = (\<lambda>_. no_plan), nextPolicyId = 0, policy_paused = False,
     policy_initialized = False, policy_logs = [], premium_calls = []\<rparr>"

definition emit_policy :: "policy_log \<Rightarrow> insurance_policy \<Rightarrow> insurance_policy" where
  "emit_policy l s = s\<lparr>policy_logs := policy_logs s @ [l]\<rparr>"

definition policy_initialize :: "insurance_policy \<Rightarrow> insurance_policy sol" where
  "policy_initialize s = initializer (policy_initialized s)
     (Inr (s\<lparr>nextPolicyId := 1, policy_initialized := True\<rparr>))"

section \<open>Premiums\<close>

definition setPremiumConfig ::
  "tx \<Rightarrow> address \<Rightarrow> address \<Rightarrow> uint256 \<Rightarrow> insurance_policy \<Rightarrow> insurance_policy sol" where
  "setPremiumConfig t tok treasury grace s = onlyRole t ''ADMIN_ROLE''
     (Inr (emit_policy (EmitPremiumConfigUpdated tok treasury grace)
       (s\<lparr>premiumToken := tok, premiumTreasury := treasury, premiumGracePeriodSeconds := grace\<rparr>)))"

definition setPremiumTerms ::
  "tx \<Rightarrow> uint256 \<Rightarrow> uint256 \<Rightarrow> uint256 \<Rightarrow> insurance_policy \<Rightarrow> insurance_policy sol" where
  "setPremiumTerms t pid amt period s = onlyRole t ''POLICY_MANAGER_ROLE''
     (revert_if (\<not> policy_exists s pid) ''PolicyNotFound''
     (Inr (emit_policy (EmitPremiumTermsSet pid amt period) (s\<lparr>premiumTerms := (premiumTerms s)
       (pid := \<lparr>pt_amountPerPeriod = ucast amt, pt_periodSeconds = ucast period\<rparr>)\<rparr>))))"

definition collectPremium ::
  "tx \<Rightarrow> uint256 \<Rightarrow> address \<Rightarrow> insurance_policy \<Rightarrow> insurance_policy sol" where
  "collectPremium t pid payer s =
     revert_if (premiumToken s = 0) ''PremiumTokenNotSet''
     (let terms = premiumTerms s pid; amt = ucast (pt_amountPerPeriod terms) in
      revert_if (pt_amountPerPeriod terms = 0) ''PremiumTermsNotSet''
      (let base = (if block_timestamp t < premiumPaidUntil s pid then premiumPaidUntil s pid
                   else block_timestamp t) in
       bind_r (checked_add base (ucast (pt_periodSeconds terms))) (\<lambda>newPaidUntil.
       let call = SafeTransferFrom (premiumToken s) payer (premiumTreasury s) amt in
       token_call_then t call
       (Inr (emit_policy (EmitPremiumPaid pid payer amt newPaidUntil)
         (s\<lparr>premiumPaidUntil := (premiumPaidUntil s)(pid := newPaidUntil),
            premium_calls := premium_calls s @ [call]\<rparr>))))))"

definition payPremium :: "tx \<Rightarrow> uint256 \<Rightarrow> insurance_policy \<Rightarrow> insurance_policy sol" where
  "payPremium t pid s = whenNotPaused (policy_paused s)
     (revert_if (\<not> policy_exists s pid) ''PolicyNotFound''
     (revert_if (p_holder (policies s pid) \<noteq> msg_sender t) ''OnlyPolicyHolderCanPay''
     (collectPremium t pid (msg_sender t) s)))"

definition isPremiumCurrent :: "tx \<Rightarrow> uint256 \<Rightarrow> insurance_policy \<Rightarrow> bool sol" where
  "isPremiumCurrent t pid s = (if pt_amountPerPeriod (premiumTerms s pid) = 0 then Inr True
     else bind_r (checked_add (premiumPaidUntil s pid) (premiumGracePeriodSeconds s))
       (\<lambda>limit. Inr (block_timestamp t \<le> limit)))"

section \<open>The catalog\<close>

definition addPolicyTemplate ::
  "tx \<Rightarrow> uint256 \<Rightarrow> uint256 \<Rightarrow> uint256 \<Rightarrow> uint256 \<Rightarrow> uint256 \<Rightarrow> bytes32 \<Rightarrow> insurance_policy \<Rightarrow>
     insurance_policy sol" where
  "addPolicyTemplate t tid cov premium period term meta s = whenNotPaused (policy_paused s)
     (onlyRole t ''POLICY_MANAGER_ROLE''
     (Inr (emit_policy (EmitPolicyTemplateAdded tid cov premium period term)
       (s\<lparr>policyTemplates := (policyTemplates s)(tid :=
          \<lparr>t_coverageAmount = ucast cov, t_premiumAmountPerPeriod = ucast premium,
           t_periodSeconds = ucast period, t_termSeconds = ucast term, t_active = True,
           t_metadataHash = meta\<rparr>)\<rparr>))))"

definition setPolicyTemplateActive ::
  "tx \<Rightarrow> uint256 \<Rightarrow> bool \<Rightarrow> insurance_policy \<Rightarrow> insurance_policy sol" where
  "setPolicyTemplateActive t tid active s = onlyRole t ''POLICY_MANAGER_ROLE''
     (revert_if (t_premiumAmountPerPeriod (policyTemplates s tid) = 0) ''PolicyTemplateNotFound''
     (Inr (emit_policy (EmitPolicyTemplateStatusChanged tid active)
       (s\<lparr>policyTemplates := (policyTemplates s)(tid := (policyTemplates s tid)\<lparr>t_active := active\<rparr>)\<rparr>))))"

text \<open>The loop over identifiers that are taken, from the counter on; at most 999 are skipped.\<close>

function skip_taken :: "(uint256 \<Rightarrow> bool) \<Rightarrow> nat \<Rightarrow> uint256 \<Rightarrow> uint256 sol" where
  "skip_taken taken attempts pid = (if taken pid
     then bind_r (checked_add pid 1) (\<lambda>next_id.
       if Suc attempts < 1000 then skip_taken taken (Suc attempts) next_id
       else Inl (RequireFailed ''policy id space exhausted''))
     else Inr pid)"
  by pat_completeness auto

termination
  by (relation "measure (\<lambda>(taken, attempts, pid). 1000 - attempts)") auto

definition subscribeToPolicy :: "tx \<Rightarrow> uint256 \<Rightarrow> insurance_policy \<Rightarrow> (uint256 \<times> insurance_policy) sol" where
  "subscribeToPolicy t tid s = whenNotPaused (policy_paused s)
     (let plan = policyTemplates s tid in
      revert_if (t_premiumAmountPerPeriod plan = 0) ''PolicyTemplateNotFound''
      (revert_if (\<not> t_active plan) ''PolicyTemplateInactive''
      (bind_r (skip_taken (policy_exists s) 0 (nextPolicyId s)) (\<lambda>pid.
       bind_r (checked_add pid 1) (\<lambda>next_id.
       bind_r (checked_add (block_timestamp t) (ucast (t_termSeconds plan))) (\<lambda>validUntil.
       let s1 = s\<lparr>nextPolicyId := next_id,
           policies := (policies s)(pid := \<lparr>p_policyId = ucast pid,
             p_coverageAmount = t_coverageAmount plan, p_holder = msg_sender t,
             p_validFrom = ucast (block_timestamp t), p_validUntil = ucast validUntil,
             p_revoked = False, p_metadataHash = t_metadataHash plan\<rparr>),
           policy_exists := (policy_exists s)(pid := True),
           premiumTerms := (premiumTerms s)(pid := \<lparr>pt_amountPerPeriod = t_premiumAmountPerPeriod plan,
             pt_periodSeconds = t_periodSeconds plan\<rparr>)\<rparr>;
         s2 = emit_policy (EmitPolicyRegistered pid (msg_sender t) (block_timestamp t) validUntil
           (ucast (t_coverageAmount plan)) (t_metadataHash plan)) s1;
         s3 = emit_policy (EmitPolicySubscribed pid tid (msg_sender t) validUntil) s2
       in bind_r (collectPremium t pid (msg_sender t) s3) (\<lambda>s4. Inr (pid, s4))))))))"

section \<open>Management of policies\<close>

definition registerPolicy ::
  "tx \<Rightarrow> uint256 \<Rightarrow> address \<Rightarrow> uint256 \<Rightarrow> uint256 \<Rightarrow> uint256 \<Rightarrow> bytes32 \<Rightarrow> insurance_policy \<Rightarrow>
     insurance_policy sol" where
  "registerPolicy t pid who vfrom vuntil cov meta s = whenNotPaused (policy_paused s)
     (onlyRole t ''POLICY_MANAGER_ROLE''
     (revert_if (policy_exists s pid) ''PolicyAlreadyExists''
     (revert_if (who = 0) ''InvalidHolder''
     (revert_if (vuntil \<le> vfrom) ''InvalidDateRange''
     (Inr (emit_policy (EmitPolicyRegistered pid who vfrom vuntil cov meta)
       (s\<lparr>policies := (policies s)(pid := \<lparr>p_policyId = ucast pid, p_coverageAmount = ucast cov,
            p_holder = who, p_validFrom = ucast vfrom, p_validUntil = ucast vuntil,
            p_revoked = False, p_metadataHash = meta\<rparr>),
          policy_exists := (policy_exists s)(pid := True)\<rparr>)))))))"

definition revokePolicy :: "tx \<Rightarrow> uint256 \<Rightarrow> insurance_policy \<Rightarrow> insurance_policy sol" where
  "revokePolicy t pid s = whenNotPaused (policy_paused s) (onlyRole t ''POLICY_MANAGER_ROLE''
     (revert_if (\<not> policy_exists s pid) ''PolicyNotFound''
     (Inr (emit_policy (EmitPolicyRevoked pid)
       (s\<lparr>policies := (policies s)(pid := (policies s pid)\<lparr>p_revoked := True\<rparr>)\<rparr>)))))"

definition updateCoverage :: "tx \<Rightarrow> uint256 \<Rightarrow> uint256 \<Rightarrow> insurance_policy \<Rightarrow> insurance_policy sol" where
  "updateCoverage t pid cov s = whenNotPaused (policy_paused s) (onlyRole t ''POLICY_MANAGER_ROLE''
     (revert_if (\<not> policy_exists s pid) ''PolicyNotFound''
     (Inr (emit_policy (EmitPolicyCoverageUpdated pid cov)
       (s\<lparr>policies := (policies s)(pid := (policies s pid)\<lparr>p_coverageAmount := ucast cov\<rparr>)\<rparr>)))))"

definition policy_pause :: "tx \<Rightarrow> insurance_policy \<Rightarrow> insurance_policy sol" where
  "policy_pause t s = onlyRole t ''PAUSER_ROLE'' (whenNotPaused (policy_paused s)
     (Inr (emit_policy (EmitPolicyPaused (msg_sender t)) (s\<lparr>policy_paused := True\<rparr>))))"

definition policy_unpause :: "tx \<Rightarrow> insurance_policy \<Rightarrow> insurance_policy sol" where
  "policy_unpause t s = onlyRole t ''ADMIN_ROLE'' (whenPaused (policy_paused s)
     (Inr (emit_policy (EmitPolicyUnpaused (msg_sender t)) (s\<lparr>policy_paused := False\<rparr>))))"

section \<open>Views\<close>

definition getPolicy :: "uint256 \<Rightarrow> insurance_policy \<Rightarrow> policy_struct sol" where
  "getPolicy pid s = revert_if (\<not> policy_exists s pid) ''PolicyNotFound'' (Inr (policies s pid))"

definition isPolicyActive :: "uint256 \<Rightarrow> uint256 \<Rightarrow> insurance_policy \<Rightarrow> bool" where
  "isPolicyActive pid atTime s = (if \<not> policy_exists s pid then False
     else let p = policies s pid in if p_revoked p then False
     else ucast (p_validFrom p) \<le> atTime \<and> atTime \<le> ucast (p_validUntil p))"

definition isClaimEligible ::
  "tx \<Rightarrow> uint256 \<Rightarrow> address \<Rightarrow> uint256 \<Rightarrow> uint256 \<Rightarrow> insurance_policy \<Rightarrow> bool sol" where
  "isClaimEligible t pid who amt atTime s = (if \<not> policy_exists s pid then Inr False
     else let p = policies s pid in
     if p_revoked p then Inr False
     else if p_holder p \<noteq> who then Inr False
     else if atTime < ucast (p_validFrom p) \<or> ucast (p_validUntil p) < atTime then Inr False
     else if ucast (p_coverageAmount p) < amt then Inr False
     else bind_r (isPremiumCurrent t pid s) (\<lambda>current. if \<not> current then Inr False else Inr True))"

section \<open>Calls\<close>

datatype policy_call =
    Call_setPremiumConfig address address uint256
  | Call_setPremiumTerms uint256 uint256 uint256
  | Call_payPremium uint256
  | Call_addPolicyTemplate uint256 uint256 uint256 uint256 uint256 bytes32
  | Call_setPolicyTemplateActive uint256 bool
  | Call_subscribeToPolicy uint256
  | Call_registerPolicy uint256 address uint256 uint256 uint256 bytes32
  | Call_revokePolicy uint256
  | Call_updateCoverage uint256 uint256
  | Call_policy_pause
  | Call_policy_unpause

fun policy_exec :: "tx \<times> policy_call \<Rightarrow> insurance_policy \<Rightarrow> insurance_policy sol" where
  "policy_exec (t, Call_setPremiumConfig tok treasury grace) s = setPremiumConfig t tok treasury grace s"
| "policy_exec (t, Call_setPremiumTerms pid amt period) s = setPremiumTerms t pid amt period s"
| "policy_exec (t, Call_payPremium pid) s = payPremium t pid s"
| "policy_exec (t, Call_addPolicyTemplate tid cov premium period term meta) s =
     addPolicyTemplate t tid cov premium period term meta s"
| "policy_exec (t, Call_setPolicyTemplateActive tid active) s = setPolicyTemplateActive t tid active s"
| "policy_exec (t, Call_subscribeToPolicy tid) s = map_sum id snd (subscribeToPolicy t tid s)"
| "policy_exec (t, Call_registerPolicy pid who vfrom vuntil cov meta) s =
     registerPolicy t pid who vfrom vuntil cov meta s"
| "policy_exec (t, Call_revokePolicy pid) s = revokePolicy t pid s"
| "policy_exec (t, Call_updateCoverage pid cov) s = updateCoverage t pid cov s"
| "policy_exec (t, Call_policy_pause) s = policy_pause t s"
| "policy_exec (t, Call_policy_unpause) s = policy_unpause t s"

section \<open>Identifiers of subscriptions\<close>

declare skip_taken.simps [simp del]

lemma ex_shift: "\<not> P 0 \<Longrightarrow> (\<exists>n. P (Suc n)) \<longleftrightarrow> (\<exists>n. P n)"
  by (metis not0_implies_Suc)

lemma skip_taken_first:
  assumes "attempts \<le> 999"
  shows "skip_taken taken attempts pid = Inr q \<longleftrightarrow>
    (\<exists>n. attempts + n < 1000 \<and> uint pid + int n < 2 ^ 256 \<and> q = pid + of_nat n \<and> \<not> taken q \<and>
       (\<forall>j<n. taken (pid + of_nat j)))"
  using assms
proof (induction taken attempts pid rule: skip_taken.induct)
  case (1 taken attempts pid)
  let ?fits = "uint pid + 1 < 2 ^ 256"
  show ?case
  proof (cases "taken pid \<and> Suc attempts < 1000 \<and> ?fits")
    case True
    have step_ok: "checked_add pid 1 = Inr (pid + 1)" using True by (simp add: checked_add_def)
    have next_id: "uint (pid + 1) = uint pid + 1" using True by (simp add: uint_plus_if')
    have "skip_taken taken attempts pid = skip_taken taken (Suc attempts) (pid + 1)"
      using True step_ok by (simp add: skip_taken.simps [of taken attempts pid])
    also have "\<dots> = Inr q \<longleftrightarrow> (\<exists>n. Suc attempts + n < 1000 \<and> uint (pid + 1) + int n < 2 ^ 256 \<and>
        q = pid + 1 + of_nat n \<and> \<not> taken q \<and> (\<forall>j<n. taken (pid + 1 + of_nat j)))"
      using 1 True by auto
    also have "\<dots> \<longleftrightarrow> (\<exists>n. attempts + Suc n < 1000 \<and> uint pid + int (Suc n) < 2 ^ 256 \<and>
        q = pid + of_nat (Suc n) \<and> \<not> taken q \<and> (\<forall>j<Suc n. taken (pid + of_nat j)))"
      unfolding next_id using True by (simp add: All_less_Suc2 algebra_simps)
    also have "\<dots> \<longleftrightarrow> (\<exists>n. attempts + n < 1000 \<and> uint pid + int n < 2 ^ 256 \<and> q = pid + of_nat n \<and>
        \<not> taken q \<and> (\<forall>j<n. taken (pid + of_nat j)))"
      by (rule ex_shift [where P = "\<lambda>n. attempts + n < 1000 \<and> uint pid + int n < 2 ^ 256 \<and>
            q = pid + of_nat n \<and> \<not> taken q \<and> (\<forall>j<n. taken (pid + of_nat j))"]) (use True in simp)
    finally show ?thesis .
  next
    case False
    show ?thesis
    proof (cases "taken pid")
      case True
      then have none: "\<not> (attempts + n < 1000 \<and> uint pid + int n < 2 ^ 256 \<and> \<not> taken (pid + of_nat n))" for n
        using False by (cases n) auto
      from True False have "skip_taken taken attempts pid \<noteq> Inr q"
        by (auto simp: skip_taken.simps [of taken attempts pid] checked_add_def)
      with none show ?thesis by blast
    next
      case free: False
      have "(attempts + n < 1000 \<and> uint pid + int n < 2 ^ 256 \<and> q = pid + of_nat n \<and> \<not> taken q \<and>
          (\<forall>j<n. taken (pid + of_nat j))) \<longleftrightarrow> n = 0 \<and> q = pid" for n
        using free 1(2) uint_lt2p [of pid] by (cases n) auto
      with free show ?thesis by (auto simp: skip_taken.simps [of taken attempts pid])
    qed
  qed
qed

section \<open>What a call may do\<close>

lemma emit_policy_fields [simp]:
  "policies (emit_policy l s) = policies s" "policy_exists (emit_policy l s) = policy_exists s"
  "premiumTerms (emit_policy l s) = premiumTerms s" "premiumPaidUntil (emit_policy l s) = premiumPaidUntil s"
  "premiumToken (emit_policy l s) = premiumToken s" "premiumTreasury (emit_policy l s) = premiumTreasury s"
  "premiumGracePeriodSeconds (emit_policy l s) = premiumGracePeriodSeconds s"
  "policyTemplates (emit_policy l s) = policyTemplates s" "nextPolicyId (emit_policy l s) = nextPolicyId s"
  "policy_paused (emit_policy l s) = policy_paused s" "premium_calls (emit_policy l s) = premium_calls s"
  "policy_logs (emit_policy l s) = policy_logs s @ [l]"
  by (simp_all add: emit_policy_def)

lemma collectPremium_Inr:
  assumes "collectPremium t pid payer s = Inr u"
  obtains paid amt where "amt = ucast (pt_amountPerPeriod (premiumTerms s pid))"
    and "pt_amountPerPeriod (premiumTerms s pid) \<noteq> 0"
    and "uint paid = max (uint (premiumPaidUntil s pid)) (uint (block_timestamp t)) +
      uint (pt_periodSeconds (premiumTerms s pid))"
    and "u = emit_policy (EmitPremiumPaid pid payer amt paid)
      (s\<lparr>premiumPaidUntil := (premiumPaidUntil s)(pid := paid),
         premium_calls := premium_calls s @ [SafeTransferFrom (premiumToken s) payer (premiumTreasury s) amt]\<rparr>)"
proof -
  let ?base = "if block_timestamp t < premiumPaidUntil s pid then premiumPaidUntil s pid else block_timestamp t"
  let ?period = "ucast (pt_periodSeconds (premiumTerms s pid)) :: uint256"
  have fits: "uint ?base + uint ?period < 2 ^ 256"
    and u: "u = emit_policy (EmitPremiumPaid pid payer (ucast (pt_amountPerPeriod (premiumTerms s pid))) (?base + ?period))
      (s\<lparr>premiumPaidUntil := (premiumPaidUntil s)(pid := ?base + ?period), premium_calls := premium_calls s @
         [SafeTransferFrom (premiumToken s) payer (premiumTreasury s) (ucast (pt_amountPerPeriod (premiumTerms s pid)))]\<rparr>)"
    and terms: "pt_amountPerPeriod (premiumTerms s pid) \<noteq> 0"
    using assms unfolding collectPremium_def Let_def by (auto simp: sol_defs)
  have "uint (?base + ?period) = uint ?base + uint (pt_periodSeconds (premiumTerms s pid))"
    using fits by (simp add: uint_checked_add uint_ucast_up)
  moreover have "uint ?base = max (uint (premiumPaidUntil s pid)) (uint (block_timestamp t))"
    by (auto simp: word_less_def max_def)
  ultimately show thesis using that [OF refl terms _ u] by simp
qed

lemma subscribeToPolicy_Inr:
  assumes "subscribeToPolicy t tid s = Inr (pid, u)"
  obtains s3 validUntil where "\<not> policy_paused s" and "t_active (policyTemplates s tid)"
    and "\<not> policy_exists s pid" and "collectPremium t pid (msg_sender t) s3 = Inr u"
    and "uint validUntil = uint (block_timestamp t) + uint (t_termSeconds (policyTemplates s tid))"
    and "policies s3 = (policies s)(pid := \<lparr>p_policyId = ucast pid,
        p_coverageAmount = t_coverageAmount (policyTemplates s tid), p_holder = msg_sender t,
        p_validFrom = ucast (block_timestamp t), p_validUntil = ucast validUntil, p_revoked = False,
        p_metadataHash = t_metadataHash (policyTemplates s tid)\<rparr>)"
    and "policy_exists s3 = (policy_exists s)(pid := True)"
    and "premiumTerms s3 = (premiumTerms s)(pid :=
        \<lparr>pt_amountPerPeriod = t_premiumAmountPerPeriod (policyTemplates s tid),
         pt_periodSeconds = t_periodSeconds (policyTemplates s tid)\<rparr>)"
    and "premiumPaidUntil s3 = premiumPaidUntil s" and "premium_calls s3 = premium_calls s"
    and "premiumToken s3 = premiumToken s" and "premiumTreasury s3 = premiumTreasury s"
    and "premiumGracePeriodSeconds s3 = premiumGracePeriodSeconds s"
    and "policy_logs s3 = policy_logs s @ [EmitPolicyRegistered pid (msg_sender t) (block_timestamp t)
        validUntil (ucast (t_coverageAmount (policyTemplates s tid))) (t_metadataHash (policyTemplates s tid)),
        EmitPolicySubscribed pid tid (msg_sender t) validUntil]"
proof -
  let ?plan = "policyTemplates s tid" and ?until = "block_timestamp t + ucast (t_termSeconds (policyTemplates s tid))"
  have facts: "\<not> policy_paused s" "t_active ?plan"
    and skip: "skip_taken (policy_exists s) 0 (nextPolicyId s) = Inr pid"
    and fits: "uint (block_timestamp t) + uint (ucast (t_termSeconds ?plan) :: uint256) < 2 ^ 256"
    and run: "collectPremium t pid (msg_sender t)
       (emit_policy (EmitPolicySubscribed pid tid (msg_sender t) ?until)
         (emit_policy (EmitPolicyRegistered pid (msg_sender t) (block_timestamp t) ?until
           (ucast (t_coverageAmount ?plan)) (t_metadataHash ?plan))
           (s\<lparr>nextPolicyId := pid + 1,
              policies := (policies s)(pid := \<lparr>p_policyId = ucast pid, p_coverageAmount = t_coverageAmount ?plan,
                p_holder = msg_sender t, p_validFrom = ucast (block_timestamp t), p_validUntil = ucast ?until,
                p_revoked = False, p_metadataHash = t_metadataHash ?plan\<rparr>),
              policy_exists := (policy_exists s)(pid := True),
              premiumTerms := (premiumTerms s)(pid := \<lparr>pt_amountPerPeriod = t_premiumAmountPerPeriod ?plan,
                pt_periodSeconds = t_periodSeconds ?plan\<rparr>)\<rparr>))) = Inr u"
    using assms unfolding subscribeToPolicy_def Let_def by (auto simp: sol_defs)
  have free: "\<not> policy_exists s pid" using skip by (auto simp: skip_taken_first)
  have until: "uint ?until = uint (block_timestamp t) + uint (t_termSeconds ?plan)"
    using fits by (simp add: uint_checked_add uint_ucast_up)
  show thesis by (rule that [OF facts free run until]) simp_all
qed

text \<open>A policy that exists keeps its holder, its dates and its document, and stays revoked.\<close>

definition issued_as :: "uint256 \<Rightarrow> policy_struct \<Rightarrow> insurance_policy \<Rightarrow> bool" where
  "issued_as pid p s \<longleftrightarrow> policy_exists s pid \<and> p_policyId (policies s pid) = p_policyId p \<and>
     p_holder (policies s pid) = p_holder p \<and> p_validFrom (policies s pid) = p_validFrom p \<and>
     p_validUntil (policies s pid) = p_validUntil p \<and> p_metadataHash (policies s pid) = p_metadataHash p \<and>
     (p_revoked p \<longrightarrow> p_revoked (policies s pid))"

lemma collectPremium_policies:
  "collectPremium t pid payer s = Inr u \<Longrightarrow> policies u = policies s \<and> policy_exists u = policy_exists s"
  by (erule collectPremium_Inr) simp

lemma policy_call_keeps_issued:
  assumes "issued_as pid p s" and "policy_exec c s = Inr u"
  shows "issued_as pid p u"
proof -
  obtain t call where c: "c = (t, call)" by (cases c)
  show ?thesis
  proof (cases call)
    case (Call_subscribeToPolicy tid)
    with assms(2) c obtain q where "subscribeToPolicy t tid s = Inr (q, u)" by (auto simp: map_sum_Inr)
    then show ?thesis
      by (rule subscribeToPolicy_Inr)
        (use assms(1) in \<open>auto simp: issued_as_def dest!: collectPremium_policies\<close>)
  next
    case (Call_payPremium q)
    with assms(2) c have "collectPremium t q (msg_sender t) s = Inr u" by (simp add: payPremium_def sol_defs)
    with assms(1) show ?thesis by (simp add: issued_as_def collectPremium_policies)
  qed (use assms c in \<open>auto simp: setPremiumConfig_def setPremiumTerms_def addPolicyTemplate_def
      setPolicyTemplateActive_def registerPolicy_def revokePolicy_def updateCoverage_def policy_pause_def
      policy_unpause_def sol_defs issued_as_def\<close>)
qed

interpretation issued: call_invariant policy_exec "issued_as pid p" "\<lambda>c s. True" for pid p
  by unfold_locales (rule policy_call_keeps_issued)

end
