(* ===== verification/Backend_Routes.thy ===== *)
theory Backend_Routes
  imports Backend Insurance_Policy
begin

text \<open>
  The HTTP surface of the backend (\<^verbatim>\<open>src/backend/app\<close>): sessions (\<^verbatim>\<open>auth.py\<close>, \<^verbatim>\<open>routes/auth_routes.py\<close>), the
  read-only policy routes on the contract's state (\<^verbatim>\<open>routes/policies_routes.py\<close>), and the answer of the
  application to a request by its method and path (\<^verbatim>\<open>main.py\<close>). The signed tokens (\<^verbatim>\<open>jose.jwt\<close>), the
  printing of times and the checksum of an address are parameters.
\<close>

section \<open>Settings and circumstances\<close>

type_synonym jwt_claims = "(string \<times> js_value) list"

record backend_conf =
  login_message_prefix :: string
  jwt_exp_minutes :: int
  indexer_webhook_api_key :: string
  validation :: pydantic
  jwt_encode :: "jwt_claims \<Rightarrow> string"
  jwt_decode :: "int \<Rightarrow> string \<Rightarrow> jwt_claims option"
  recover_message :: "string \<Rightarrow> string \<Rightarrow> string option"
  isoformat :: "int \<Rightarrow> string"
  to_checksum :: "address \<Rightarrow> string"

text \<open>
  What a request meets: the clock, a fresh token and fresh identifiers, the oracle service, and the state the
  n-th read of the chain sees, none when the node fails.
\<close>

record moment =
  at_time :: int
  token_hex :: string
  uuids :: "nat \<Rightarrow> string"
  oracle_service :: "js_value \<Rightarrow> http_answer"
  chain_read :: "nat \<Rightarrow> (tx \<times> insurance_policy) option"

definition ok_reply :: "js_value \<Rightarrow> reply" where
  "ok_reply v = \<lparr>reply_code = 200, reply_content = v\<rparr>"

section \<open>Sessions\<close>

definition session_claims :: "string \<Rightarrow> int \<Rightarrow> int \<Rightarrow> jwt_claims" where
  "session_claims subject iat expiry =
     [(''sub'', JString subject), (''iat'', JNumber (js_int iat)), (''exp'', JNumber (js_int expiry))]"

definition create_access_token :: "backend_conf \<Rightarrow> int \<Rightarrow> string \<Rightarrow> string" where
  "create_access_token C now address =
     jwt_encode C (session_claims (toLowerCase address) now (now + jwt_exp_minutes C * 60))"

text \<open>A token without a subject raises a \<^verbatim>\<open>KeyError\<close>; the library rejects a subject that is no string.\<close>

definition get_current_address :: "backend_conf \<Rightarrow> int \<Rightarrow> string option \<Rightarrow> reply + string" where
  "get_current_address C now authorization = (case authorization of
       None \<Rightarrow> Inl (http_exception 401 ''Missing or malformed Authorization header'')
     | Some h \<Rightarrow> if take 7 h \<noteq> ''Bearer '' then Inl (http_exception 401 ''Missing or malformed Authorization header'')
         else (case jwt_decode C now (trim (drop 7 h)) of
             None \<Rightarrow> Inl (http_exception 401 ''Invalid or expired token'')
           | Some payload \<Rightarrow> (case map_of payload ''sub'' of
               Some (JString a) \<Rightarrow> Inr a | _ \<Rightarrow> Inl server_error)))"

definition get_nonce :: "backend_conf \<Rightarrow> moment \<Rightarrow> (string \<times> string) list \<Rightarrow> backend_db \<Rightarrow> reply \<times> backend_db" where
  "get_nonce C M params db = (case map_of params ''address'' of
       None \<Rightarrow> (unprocessable, db)
     | Some address \<Rightarrow> if \<not> hex_string 40 address then (unprocessable, db)
         else (case generate_nonce (token_hex M) (at_time M) address db of (nonce, db1) \<Rightarrow>
           (ok_reply (JObject [(''address'', JString address), (''nonce'', JString nonce),
              (''message'', JString (build_login_message (login_message_prefix C) nonce))]), db1)))"

text \<open>\<^verbatim>\<open>^0x[a-fA-F0-9]+$\<close>\<close>

definition hex_signature :: "string \<Rightarrow> bool" where
  "hex_signature s \<longleftrightarrow> 2 < length s \<and> hex_string (length s - 2) s"

definition WalletLoginRequest :: "js_value \<Rightarrow> (string \<times> string) option" where
  "WalletLoginRequest body = (case body of
       JObject kvs \<Rightarrow> do {
         address \<leftarrow> Option.bind (map_of kvs ''address'') text_of;
         _ \<leftarrow> guard (hex_string 40 address);
         signature \<leftarrow> Option.bind (map_of kvs ''signature'') text_of;
         _ \<leftarrow> guard (hex_signature signature);
         Some (address, signature) }
     | _ \<Rightarrow> None)"

definition login_wallet :: "backend_conf \<Rightarrow> moment \<Rightarrow> js_value \<Rightarrow> backend_db \<Rightarrow> reply \<times> backend_db" where
  "login_wallet C M body db = (case WalletLoginRequest body of
       None \<Rightarrow> (unprocessable, db)
     | Some (address, signature) \<Rightarrow>
         (case verify_signature_and_consume_nonce (recover_message C) (login_message_prefix C) (at_time M)
            address signature db of (ok, db1) \<Rightarrow>
          if \<not> ok then (http_exception 401 ''Invalid signature or nonce expired/already used'', db1)
          else (ok_reply (JObject [(''access_token'', JString (create_access_token C (at_time M) address)),
                  (''token_type'', JString ''bearer'')]), db1)))"

section \<open>Claims as JSON\<close>

definition or_null :: "('a \<Rightarrow> js_value) \<Rightarrow> 'a option \<Rightarrow> js_value" where
  "or_null f v = (case v of None \<Rightarrow> JNull | Some x \<Rightarrow> f x)"

definition DocumentOut :: "claim_document \<Rightarrow> js_value" where
  "DocumentOut d = JObject [(''id'', JString (cdoc_id d)), (''filename'', JString (cdoc_filename d)),
     (''sha256_hash'', JString (cdoc_sha256_hash d)), (''file_cid'', or_null JString (cdoc_file_cid d))]"

definition ClaimOut :: "backend_conf \<Rightarrow> backend_claim \<Rightarrow> js_value" where
  "ClaimOut C c = JObject [(''id'', JNumber (js_int (bc_id c))), (''policy_id'', JNumber (js_int (bc_policy_id c))),
     (''claimant_address'', JString (bc_claimant_address c)), (''declared_amount'', num_json (bc_declared_amount c)),
     (''merkle_root'', or_null JString (bc_merkle_root c)), (''merkle_salt'', or_null JString (bc_merkle_salt c)),
     (''status'', JString (bc_status c)),
     (''onchain_claim_id'', or_null (\<lambda>n. JNumber (js_int n)) (bc_onchain_claim_id c)),
     (''tx_hash'', or_null JString (bc_tx_hash c)), (''oracle_request_id'', or_null JString (bc_oracle_request_id c)),
     (''created_at'', JString (isoformat C (bc_created_at c))),
     (''documents'', JArray (map DocumentOut (bc_documents c)))]"

section \<open>Policies\<close>

definition KNOWN_TEMPLATE_IDS :: "int list" where
  "KNOWN_TEMPLATE_IDS = [1, 2, 3]"

definition PolicyTemplateOut :: "int \<Rightarrow> plan_struct \<Rightarrow> js_value" where
  "PolicyTemplateOut tid p = JObject [(''template_id'', JNumber (js_int tid)),
     (''coverage_amount_wei'', JString (dec (uint (t_coverageAmount p)))),
     (''premium_amount_per_period_wei'', JString (dec (uint (t_premiumAmountPerPeriod p)))),
     (''period_seconds'', JNumber (js_int (uint (t_periodSeconds p)))),
     (''term_seconds'', JNumber (js_int (uint (t_termSeconds p))))]"

text \<open>The loop over the known plans, one read of the chain for each; a failing read is an exception.\<close>

fun catalog_loop :: "moment \<Rightarrow> nat \<Rightarrow> int list \<Rightarrow> js_value list \<Rightarrow> js_value list option" where
  "catalog_loop M n [] acc = Some acc"
| "catalog_loop M n (tid # tids) acc = (case chain_read M n of
       None \<Rightarrow> None
     | Some (t, s) \<Rightarrow> let plan = policyTemplates s (word_of_int tid) in
         if t_premiumAmountPerPeriod plan = 0 then catalog_loop M (Suc n) tids acc
         else if \<not> t_active plan then catalog_loop M (Suc n) tids acc
         else catalog_loop M (Suc n) tids (acc @ [PolicyTemplateOut tid plan]))"

definition get_policy_catalog :: "moment \<Rightarrow> reply" where
  "get_policy_catalog M = (case catalog_loop M 0 KNOWN_TEMPLATE_IDS [] of
       None \<Rightarrow> server_error | Some ts \<Rightarrow> ok_reply (JArray ts))"

definition PolicyStatusOut :: "backend_conf \<Rightarrow> int \<Rightarrow> policy_struct \<Rightarrow> bool \<Rightarrow> uint256 \<Rightarrow> premium_terms \<Rightarrow> js_value" where
  "PolicyStatusOut C pid p current paid terms = JObject [(''policy_id'', JNumber (js_int pid)),
     (''holder'', JString (to_checksum C (p_holder p))),
     (''coverage_amount_wei'', JString (dec (uint (p_coverageAmount p)))),
     (''valid_from'', JNumber (js_int (uint (p_validFrom p)))),
     (''valid_until'', JNumber (js_int (uint (p_validUntil p)))), (''revoked'', JBool (p_revoked p)),
     (''premium_current'', JBool current), (''premium_paid_until'', JNumber (js_int (uint paid))),
     (''premium_amount_per_period_wei'', JString (dec (uint (pt_amountPerPeriod terms))))]"

text \<open>
  Any failure of the first read, a number that is no \<^verbatim>\<open>uint256\<close> included, is answered with 404; a failure of
  a later one is an exception.
\<close>

definition get_policy_status :: "backend_conf \<Rightarrow> moment \<Rightarrow> int \<Rightarrow> reply" where
  "get_policy_status C M pid =
     (let missing = http_exception 404 (''Policy '' @ dec pid @ '' not found on-chain'');
          i = word_of_int pid in
      if pid < 0 \<or> 2 ^ 256 \<le> pid then missing
      else case chain_read M 0 of None \<Rightarrow> missing | Some (t0, s0) \<Rightarrow>
     (case getPolicy i s0 of Inl e \<Rightarrow> missing | Inr p \<Rightarrow>
     (case chain_read M 1 of None \<Rightarrow> server_error | Some (t1, s1) \<Rightarrow>
     (case isPremiumCurrent t1 i s1 of Inl e \<Rightarrow> server_error | Inr current \<Rightarrow>
     (case chain_read M 2 of None \<Rightarrow> server_error | Some (t2, s2) \<Rightarrow>
     (case chain_read M 3 of None \<Rightarrow> server_error | Some (t3, s3) \<Rightarrow>
        ok_reply (PolicyStatusOut C pid p current (premiumPaidUntil s2 i) (premiumTerms s3 i))))))))"

section \<open>The application\<close>

datatype endpoint = Health | GetNonceRoute | LoginRoute | ListClaimsRoute | CreateClaimRoute
  | GetClaimRoute string | TriggerRoute string | WebhookRoute | CatalogRoute | PolicyStatusRoute string

text \<open>The route of a request. For any other the framework answers by itself.\<close>

definition route_of :: "http_request \<Rightarrow> endpoint option" where
  "route_of q = (let segs = split_on (CHR ''/'') (rq_path q) in
     if rq_method q = ''GET'' then
       (if segs = [[], ''health''] then Some Health
        else if segs = [[], ''auth'', ''nonce''] then Some GetNonceRoute
        else if segs = [[], ''claims''] then Some ListClaimsRoute
        else if segs = [[], ''policies'', ''catalog''] then Some CatalogRoute
        else if length segs = 3 \<and> take 2 segs = [[], ''claims''] \<and> segs ! 2 \<noteq> [] then Some (GetClaimRoute (segs ! 2))
        else if length segs = 4 \<and> take 2 segs = [[], ''policies''] \<and> segs ! 3 = ''status'' \<and> segs ! 2 \<noteq> []
        then Some (PolicyStatusRoute (segs ! 2))
        else None)
     else if rq_method q = ''POST'' then
       (if segs = [[], ''auth'', ''wallet''] then Some LoginRoute
        else if segs = [[], ''claims''] then Some CreateClaimRoute
        else if segs = [[], ''internal'', ''onchain-events''] then Some WebhookRoute
        else if length segs = 4 \<and> take 2 segs = [[], ''claims''] \<and> segs ! 3 = ''trigger-verification'' \<and>
          segs ! 2 \<noteq> [] then Some (TriggerRoute (segs ! 2))
        else None)
     else None)"

definition body_of :: "http_request \<Rightarrow> js_value" where
  "body_of q = (case rq_body q of None \<Rightarrow> JNull | Some v \<Rightarrow> v)"

text \<open>A claims route: first the caller, then the path.\<close>

definition as_caller :: "backend_conf \<Rightarrow> moment \<Rightarrow> http_request \<Rightarrow> backend_db \<Rightarrow>
    (string \<Rightarrow> reply \<times> js_value list \<times> backend_db) \<Rightarrow> reply \<times> js_value list \<times> backend_db" where
  "as_caller C M q db f = (case get_current_address C (at_time M) (header_of q ''Authorization'') of
       Inl r \<Rightarrow> (r, [], db) | Inr a \<Rightarrow> f a)"

definition with_id :: "backend_conf \<Rightarrow> string \<Rightarrow> backend_db \<Rightarrow> (int \<Rightarrow> reply \<times> js_value list \<times> backend_db) \<Rightarrow>
    reply \<times> js_value list \<times> backend_db" where
  "with_id C seg db f = (case lax_int (validation C) (JString seg) of
       None \<Rightarrow> (unprocessable, [], db) | Some i \<Rightarrow> f i)"

definition claim_reply :: "backend_conf \<Rightarrow> int \<Rightarrow> reply + backend_claim \<Rightarrow> reply" where
  "claim_reply C code r = (case r of Inl e \<Rightarrow> e | Inr c \<Rightarrow> \<lparr>reply_code = code, reply_content = ClaimOut C c\<rparr>)"

text \<open>The answer, the calls it made to the oracle service, and the tables.\<close>

fun handle :: "backend_conf \<Rightarrow> moment \<Rightarrow> http_request \<Rightarrow> endpoint \<Rightarrow> backend_db \<Rightarrow> reply \<times> js_value list \<times> backend_db" where
  "handle C M q Health db = (ok_reply (JObject [(''status'', JString ''ok'')]), [], db)"
| "handle C M q GetNonceRoute db = (case get_nonce C M (rq_params q) db of (r, db1) \<Rightarrow> (r, [], db1))"
| "handle C M q LoginRoute db = (case login_wallet C M (body_of q) db of (r, db1) \<Rightarrow> (r, [], db1))"
| "handle C M q ListClaimsRoute db = as_caller C M q db (\<lambda>a.
     (ok_reply (JArray (map (ClaimOut C) (list_my_claims a db))), [], db))"
| "handle C M q CreateClaimRoute db = as_caller C M q db (\<lambda>a.
     case CreateClaimRequest (validation C) (body_of q) of
       None \<Rightarrow> (unprocessable, [], db)
     | Some payload \<Rightarrow> (case create_claim (at_time M) (uuids M) payload a db of (r, db1) \<Rightarrow>
         (claim_reply C 201 r, [], db1)))"
| "handle C M q (GetClaimRoute seg) db = as_caller C M q db (\<lambda>a. with_id C seg db (\<lambda>i.
     (claim_reply C 200 (get_claim i a db), [], db)))"
| "handle C M q (TriggerRoute seg) db = as_caller C M q db (\<lambda>a. with_id C seg db (\<lambda>i.
     trigger_verification (validation C) (oracle_service M) i a (header_of q ''Idempotency-Key'') db))"
| "handle C M q WebhookRoute db = (case receive_onchain_event (validation C) (indexer_webhook_api_key C)
     (header_of q ''X-Indexer-Webhook-Key'') (body_of q) db of (r, db1) \<Rightarrow> (r, [], db1))"
| "handle C M q CatalogRoute db = (get_policy_catalog M, [], db)"
| "handle C M q (PolicyStatusRoute seg) db = with_id C seg db (\<lambda>i. (get_policy_status C M i, [], db))"

definition serve :: "backend_conf \<Rightarrow> moment \<Rightarrow> http_request \<Rightarrow> backend_db \<Rightarrow>
    (reply \<times> js_value list \<times> backend_db) option" where
  "serve C M q db = map_option (\<lambda>e. handle C M q e db) (route_of q)"

end
