(* ===== verification/Portal_Properties.thy ===== *)
theory Portal_Properties
  imports Frontend_Properties Frontend_Http Backend_Routes
begin

text \<open>
  The frontend against the backend it talks to: the login of a wallet, the claim that is filed, and the plan
  that is bought, from the click to the row or the transfer it ends in.
\<close>

section \<open>Routes of the client\<close>

lemma serve_nonce: "serve C M (request_of (GetNonce a)) db =
    (case get_nonce C M [(''address'', a)] db of (r, db1) \<Rightarrow> Some (r, [], db1))"
  by (simp add: serve_def route_of_def api_get_def split: prod.split)

lemma serve_login: "serve C M (request_of (LoginWallet a sig)) db =
    (case login_wallet C M (JObject [(''address'', JString a), (''signature'', JString sig)]) db of
       (r, db1) \<Rightarrow> Some (r, [], db1))"
  by (simp add: serve_def route_of_def api_post_def body_of_def split: prod.split)

lemma serve_create: "serve C M (request_of (CreateClaim tok p)) db =
    Some (case get_current_address C (at_time M) (Some (''Bearer '' @ tok)) of
       Inl r \<Rightarrow> (r, [], db)
     | Inr a \<Rightarrow> (case CreateClaimRequest (validation C) (claim_json p) of
         None \<Rightarrow> (unprocessable, [], db)
       | Some payload \<Rightarrow> (case create_claim (at_time M) (uuids M) payload a db of (r, db1) \<Rightarrow>
           (claim_reply C 201 r, [], db1))))"
  by (simp add: serve_def route_of_def api_post_def body_of_def as_caller_def header_of_def authHeaders_def
      toLowerCase_def)

lemma serve_catalog: "serve C M (request_of GetPolicyCatalog) db = Some (get_policy_catalog M, [], db)"
  by (simp add: serve_def route_of_def api_get_def)

section \<open>The login\<close>

lemma login_connected:
  assumes "account (auth s) = Some a" and "a \<noteq> []" and "window_ethereum E" and "\<And>n. getSigner B n = Inr ()"
    and "\<And>n m. wallet_sign E n m = Inr (sg m)"
    and "be_nonce E (length (api_log s)) = Inr message" and "be_login E (Suc (length (api_log s))) = Inr tok"
  obtains s' where "login E B s = (Inr (), s')" and "token (auth s') = Some tok"
    and "api_log s' = api_log s @ [GetNonce a, LoginWallet a (sg message)]"
  using assms by (simp add: login_def login_address_def signMessageWith_def getSignerOf_def busy_run_app effect_simps)

lemma nonce_then_login:
  assumes "hex_string 40 a" and "serve C M (request_of (GetNonce a)) db = Some (r1, c1, db1)"
    and "bk_nonces db2 (toLowerCase a) = bk_nonces db1 (toLowerCase a)" and "at_time M' \<le> at_time M + NONCE_TTL_MINUTES * 60"
    and "hex_signature sig" and "recover_message C (build_login_message (login_message_prefix C) (token_hex M)) sig = Some w"
    and "toLowerCase w = toLowerCase a"
    and "serve C M' (request_of (LoginWallet a sig)) db2 = Some (r2, c2, db3)"
  shows "read_message (reply_content r1) = Some (build_login_message (login_message_prefix C) (token_hex M)) \<and>
     reply_code r1 = 200 \<and> reply_code r2 = 200 \<and>
     read_access_token (reply_content r2) = Some (create_access_token C (at_time M') a)"
proof -
  have one: "get_nonce C M [(''address'', a)] db = (r1, db1)"
    using assms(2) by (simp add: serve_nonce del: request_of.simps split: prod.splits)
  then have nonce: "bk_nonces db1 (toLowerCase a) = Some \<lparr>wn_nonce = token_hex M,
      wn_expires_at = at_time M + NONCE_TTL_MINUTES * 60, wn_used = False\<rparr>"
    and r1: "reply_code r1 = 200" "read_message (reply_content r1) =
      Some (build_login_message (login_message_prefix C) (token_hex M))"
    using assms(1) by (auto simp: get_nonce_def generate_nonce_def ok_reply_def read_message_def)
  have "login_wallet C M' (JObject [(''address'', JString a), (''signature'', JString sig)]) db2 = (r2, db3)"
    using assms(8) by (simp add: serve_login del: request_of.simps split: prod.splits)
  then have "reply_code r2 = 200" "read_access_token (reply_content r2) = Some (create_access_token C (at_time M') a)"
    using assms nonce by (auto simp: login_wallet_def WalletLoginRequest_def verify_signature_and_consume_nonce_def
        guard_def ok_reply_def read_access_token_def Let_def)
  with r1 show ?thesis by simp
qed

lemma token_accepted:
  assumes "\<And>now a since x. now \<le> x \<Longrightarrow> jwt_decode C now (jwt_encode C (session_claims a since x)) = Some (session_claims a since x)"
    and "\<And>kvs. trim (jwt_encode C kvs) = jwt_encode C kvs" and "now \<le> since + jwt_exp_minutes C * 60"
  shows "get_current_address C now (Some (''Bearer '' @ create_access_token C since a)) = Inr (toLowerCase a)"
  using assms(3) by (simp add: get_current_address_def create_access_token_def assms(1,2)) (simp add: session_claims_def)

text \<open>
  C13 (liveness). A wallet can log in: with an account connected and a wallet that signs what it is asked to, the
  login that runs against the backend ends with a session, after exactly the request for a nonce and the one
  with the signature on the message of the answer, if the second arrives within five minutes and no other
  nonce was asked for in between; and until the token expires the backend takes a request with it for one of
  the connected address, in lower case.
\<close>

theorem wallet_login_opens_session:
  assumes wallet: "account (auth s) = Some a" "hex_string 40 a" "window_ethereum E" "\<And>n. getSigner B n = Inr ()"
      "\<And>n m. wallet_sign E n m = Inr (sg m)"
    and signature: "\<And>m. hex_signature (sg m)" "\<And>m. map_option toLowerCase (recover_message C m (sg m)) = Some (toLowerCase a)"
    and jwt: "\<And>now a since x. now \<le> x \<Longrightarrow> jwt_decode C now (jwt_encode C (session_claims a since x)) = Some (session_claims a since x)"
      "\<And>kvs. trim (jwt_encode C kvs) = jwt_encode C kvs" "\<And>kvs. jwt_encode C kvs \<noteq> []"
    and nonce: "serve C M (request_of (GetNonce a)) db = Some (r1, c1, db1)"
      "axios_says read_message r1 (be_nonce E (length (api_log s)))"
    and meanwhile: "bk_nonces db2 (toLowerCase a) = bk_nonces db1 (toLowerCase a)" "at_time M' \<le> at_time M + 5 * 60"
    and second: "\<And>m. be_nonce E (length (api_log s)) = Inr m \<Longrightarrow>
        serve C M' (request_of (LoginWallet a (sg m))) db2 = Some (r2, c2, db3)"
      "axios_says read_access_token r2 (be_login E (Suc (length (api_log s))))"
  shows "\<exists>s' tok m. login E B s = (Inr (), s') \<and> isAuthenticated s' \<and> token (auth s') = Some tok \<and>
     be_nonce E (length (api_log s)) = Inr m \<and> api_log s' = api_log s @ [GetNonce a, LoginWallet a (sg m)] \<and>
     (\<forall>now \<le> at_time M' + jwt_exp_minutes C * 60.
        get_current_address C now (header_of (request_of (ListClaims tok)) ''Authorization'') = Inr (toLowerCase a))"
proof -
  let ?m = "build_login_message (login_message_prefix C) (token_hex M)"
  let ?tok = "create_access_token C (at_time M') a"
  have m: "be_nonce E (length (api_log s)) = Inr ?m"
    using nonce wallet(2)
    by (auto simp: serve_nonce get_nonce_def generate_nonce_def axios_says_def ok_reply_def read_message_def
        simp del: request_of.simps)
  obtain w where w: "recover_message C ?m (sg ?m) = Some w" "toLowerCase w = toLowerCase a"
    using signature(2) [of ?m] by auto
  have "reply_code r2 = 200" "read_access_token (reply_content r2) = Some ?tok"
    using nonce_then_login [OF wallet(2) nonce(1) meanwhile(1) _ signature(1) w second(1) [OF m]] meanwhile(2)
    by (simp_all add: NONCE_TTL_MINUTES_def)
  then have t: "be_login E (Suc (length (api_log s))) = Inr ?tok" using second(2) by (auto simp: axios_says_def)
  have "a \<noteq> []" using wallet(2) by (auto simp: hex_string_def)
  then obtain s' where s': "login E B s = (Inr (), s')" "token (auth s') = Some ?tok"
    "api_log s' = api_log s @ [GetNonce a, LoginWallet a (sg ?m)]"
    by (rule login_connected [of s a E B sg ?m ?tok, OF wallet(1) _ wallet(3,4,5) m t])
  moreover have "isAuthenticated s'" using s'(2) jwt(3) by (simp add: isAuthenticated_def create_access_token_def)
  moreover have "header_of (request_of (ListClaims ?tok)) ''Authorization'' = Some (''Bearer '' @ ?tok)"
    by (simp add: header_of_def api_get_def authHeaders_def)
  ultimately show ?thesis using m token_accepted [OF jwt(1,2)] by fastforce
qed

section \<open>Filing a claim\<close>

lemma submission_posts:
  assumes "submission_body E B tok inp salt rt s = (r, s')"
  shows "api_log s' = api_log s @ [claim_posted E tok inp salt rt]"
  using assms by (auto simp: submission_body_def effect_simps split: sum.splits prod.splits)

lemma handleSubmit_posts:
  assumes "\<And>bs. getBytes B (''0x'' @ to_hex bs) = Inr bs" and "handleSubmit E B s = (r, s')"
    and "in_policyId (filing s) \<noteq> []" and "in_amount (filing s) \<noteq> []"
  obtains salt rt where "salt = salt_hex (getRandomValues B (randoms (browser s)))"
    and "placeholderMerkleRoot B (in_description (filing s)) salt = Inr rt"
    and "api_log s' = api_log s @ [claim_posted E (token (auth s)) (filing s) salt rt]"
proof -
  let ?salt = "salt_hex (getRandomValues B (randoms (browser s)))"
  let ?inp = "(filing s)\<lparr>file_error := None, file_result := None\<rparr>"
  let ?s = "s\<lparr>filing := ?inp, browser := (browser s)\<lparr>randoms := Suc (randoms (browser s))\<rparr>\<rparr>"
  obtain rt where rt: "placeholderMerkleRoot B (in_description (filing s)) ?salt = Inr rt"
    using root_of_salt [OF assms(1)] by blast
  obtain q u where q: "submission_body E B (token (auth s)) ?inp ?salt rt ?s = (q, u)" by fastforce
  have "api_log s' = api_log u" using assms(2-4) rt q by (cases q) (auto simp: handleSubmit_def effect_simps)
  with submission_posts [OF q] rt show thesis by (intro that) auto
qed

lemma salt_pattern:
  assumes "length bytes = 32"
  shows "hex_string 64 (salt_hex bytes)"
  using assms to_hex_digits [of bytes] by (simp add: salt_hex_to_hex hex_string_def)

lemma root_pattern:
  assumes "\<And>bs. hex_string 64 (keccak B bs)" and "placeholderMerkleRoot B d salt = Inr rt"
  shows "hex_string 64 rt"
  using assms by (auto simp: placeholderMerkleRoot_def evidence_bytes_def bind_r_def split: if_splits sum.splits)

text \<open>
  C12 (functional). A claim is stored as it was filed: with a session, a whole number for the policy and a positive
  amount on the form, the request that a click on Submit Claim makes, the only one, is answered with 201
  and adds exactly one row, a draft of the session's address with the policy, the amount, the salt and
  the evidence root that the salt and the description give; the page reads its number from the answer, the
  list of the address's claims has the row, and a transaction that was sent carries the same root.
\<close>

theorem filed_claim_is_stored:
  assumes law: "\<And>bs. getBytes B (''0x'' @ to_hex bs) = Inr bs" "\<And>bs. hex_string 64 (keccak B bs)"
      "\<And>n. length (getRandomValues B n) = 32"
    and session: "token (auth s) = Some tok"
      "get_current_address C (at_time M) (Some (''Bearer '' @ tok)) = Inr a"
    and form: "in_policyId (filing s) \<noteq> []" "in_amount (filing s) \<noteq> []"
      "numberOf E (in_policyId (filing s)) = js_int p" "numberOf E (in_amount (filing s)) = Fin q" "0 < q"
    and lax: "lax_int (validation C) (JNumber (js_int p)) = Some p"
      "lax_float (validation C) (JNumber (Fin q)) = Some (Fin q)"
    and run: "handleSubmit E B s = (r, s')"
    and served: "\<And>c. api_log s' = api_log s @ [c] \<Longrightarrow> serve C M (request_of c) db = Some (rep, calls, db')"
  shows "\<exists>row salt rt. placeholderMerkleRoot B (in_description (filing s)) salt = Inr rt \<and>
     db' = db\<lparr>bk_claims := bk_claims db @ [row], bk_next_id := bk_next_id db + 1\<rparr> \<and>
     bc_id row = bk_next_id db \<and> bc_policy_id row = p \<and> bc_claimant_address row = a \<and>
     bc_declared_amount row = Fin q \<and> bc_merkle_root row = Some rt \<and> bc_merkle_salt row = Some salt \<and>
     bc_status row = ''draft'' \<and> row \<in> set (list_my_claims a db') \<and> reply_code rep = 201 \<and>
     map_option cd_id (read_claim (reply_content rep)) = Some (bc_id row) \<and>
     (sent (browser s') = sent (browser s) \<or>
      (\<exists>wei. sent (browser s') = sent (browser s) @ [SubmitClaim (js_int p) rt wei]))"
proof -
  obtain salt rt where salt: "salt = salt_hex (getRandomValues B (randoms (browser s)))"
    and rt: "placeholderMerkleRoot B (in_description (filing s)) salt = Inr rt"
    and posted: "api_log s' = api_log s @ [claim_posted E (token (auth s)) (filing s) salt rt]"
    by (rule handleSubmit_posts [OF law(1) run form(1,2)])
  let ?row = "\<lparr>bc_id = bk_next_id db, bc_policy_id = p, bc_claimant_address = a, bc_declared_amount = Fin q,
      bc_merkle_root = Some rt, bc_merkle_salt = Some salt, bc_status = ''draft'', bc_onchain_claim_id = None,
      bc_tx_hash = None, bc_oracle_request_id = None, bc_created_at = at_time M, bc_documents = []\<rparr>"
  let ?db = "db\<lparr>bk_claims := bk_claims db @ [?row], bk_next_id := bk_next_id db + 1\<rparr>"
  have hex: "hex_string 64 salt" "hex_string 64 rt"
    using salt_pattern law(3) root_pattern [OF law(2) rt] salt by auto
  have "sent (browser s') = sent (browser s) \<or>
      (\<exists>wei. sent (browser s') = sent (browser s) @ [SubmitClaim (js_int p) rt wei])"
    using handleSubmit_outcome(3) [OF law(1) run] posted form(3) by auto
  moreover have "num_less (js_int 0) (Fin q)" using form(5) by (simp add: js_int_def)
  then have "CreateClaimRequest (validation C) (claim_json \<lparr>policy_id = js_int p, declared_amount = Fin q,
      merkle_root = rt, merkle_salt = salt\<rparr>) = Some \<lparr>cr_policy_id = p, cr_declared_amount = Fin q,
      cr_merkle_root = Some rt, cr_merkle_salt = Some salt, cr_documents = []\<rparr>"
    using hex lax
    by (simp add: CreateClaimRequest_def claim_json_def optional_text_def hex_pattern_def guard_def)
  then have "rep = \<lparr>reply_code = 201, reply_content = ClaimOut C ?row\<rparr>" "db' = ?db"
    using served [OF posted] session form(3,4)
    by (simp_all add: serve_create create_claim_def claim_reply_def Let_def del: request_of.simps)
  moreover have "?row \<in> set (list_my_claims a ?db)" by (simp add: list_my_claims_def)
  ultimately show ?thesis using rt
    by (intro exI [of _ ?row] exI [of _ salt] exI [of _ rt]) (simp add: ClaimOut_def read_claim_def)
qed

section \<open>Buying a plan\<close>

definition offered :: "insurance_policy \<Rightarrow> int \<Rightarrow> bool" where
  "offered c tid \<longleftrightarrow> t_premiumAmountPerPeriod (Insurance_Policy.policyTemplates c (word_of_int tid)) \<noteq> 0 \<and>
     t_active (Insurance_Policy.policyTemplates c (word_of_int tid))"

definition entry_of :: "insurance_policy \<Rightarrow> int \<Rightarrow> catalog_entry" where
  "entry_of c tid = (let plan = Insurance_Policy.policyTemplates c (word_of_int tid) in
     \<lparr>template_id = tid, premium_amount_per_period_wei = uint (t_premiumAmountPerPeriod plan),
      coverage_amount_wei = uint (t_coverageAmount plan)\<rparr>)"

lemma catalog_loop_reads:
  assumes "\<And>n. \<exists>t. chain_read M n = Some (t, c)"
  shows "catalog_loop M n tids acc = Some (acc @
     map (\<lambda>tid. PolicyTemplateOut tid (Insurance_Policy.policyTemplates c (word_of_int tid))) (filter (offered c) tids))"
proof (induction tids arbitrary: n acc)
  case (Cons tid tids)
  obtain t where "chain_read M n = Some (t, c)" using assms by blast
  with Cons show ?case by (auto simp: offered_def Let_def)
qed simp

lemma read_plan_out: "read_plan (PolicyTemplateOut tid (Insurance_Policy.policyTemplates c (word_of_int tid))) = Some (entry_of c tid)"
  by (simp add: read_plan_def PolicyTemplateOut_def wei_in_def entry_of_def Let_def)

lemma those_Some: "(\<And>x. f x = Some (g x)) \<Longrightarrow> those (map f xs) = Some (map g xs)"
  by (induction xs) auto

lemma catalog_read:
  assumes "\<And>n. \<exists>t. chain_read M n = Some (t, c)"
  shows "reply_code (get_policy_catalog M) = 200"
    and "read_catalog (reply_content (get_policy_catalog M)) = Some (map (entry_of c) (filter (offered c) KNOWN_TEMPLATE_IDS))"
proof -
  have g: "get_policy_catalog M = ok_reply (JArray (map (\<lambda>tid. PolicyTemplateOut tid
      (Insurance_Policy.policyTemplates c (word_of_int tid))) (filter (offered c) KNOWN_TEMPLATE_IDS)))"
    by (simp add: get_policy_catalog_def catalog_loop_reads [OF assms])
  have plans: "those (map (\<lambda>tid. read_plan (PolicyTemplateOut tid (Insurance_Policy.policyTemplates c (word_of_int tid)))) ids) =
      Some (map (entry_of c) ids)" for ids
    by (rule those_Some) (rule read_plan_out)
  show "reply_code (get_policy_catalog M) = 200" by (simp add: g ok_reply_def)
  show "read_catalog (reply_content (get_policy_catalog M)) = Some (map (entry_of c) (filter (offered c) KNOWN_TEMPLATE_IDS))"
    by (simp add: g ok_reply_def comp_def plans)
qed

lemma subscription_charges:
  assumes "subscribeToPolicy t tid c = Inr (pid, u)"
  shows "premium_calls u = premium_calls c @ [SafeTransferFrom (premiumToken c) (msg_sender t) (premiumTreasury c)
     (ucast (t_premiumAmountPerPeriod (Insurance_Policy.policyTemplates c tid)))]"
  using assms
proof (rule subscribeToPolicy_Inr)
  fix s3 and validUntil :: uint256
  assume s3: "collectPremium t pid (msg_sender t) s3 = Inr u" "premiumTerms s3 = (premiumTerms c)(pid :=
        \<lparr>pt_amountPerPeriod = t_premiumAmountPerPeriod (Insurance_Policy.policyTemplates c tid),
         pt_periodSeconds = t_periodSeconds (Insurance_Policy.policyTemplates c tid)\<rparr>)"
    "premium_calls s3 = premium_calls c" "premiumToken s3 = premiumToken c" "premiumTreasury s3 = premiumTreasury c"
  from s3(1) show ?thesis by (rule collectPremium_Inr) (simp add: s3 emit_policy_def)
qed

lemma subscription_refused:
  assumes "\<not> policy_paused c" and "\<not> offered c tid"
  shows "subscribeToPolicy t (word_of_int tid) c \<in> {Inl (CustomError ''PolicyTemplateNotFound''), Inl (CustomError ''PolicyTemplateInactive'')}"
  using assms by (auto simp: subscribeToPolicy_def offered_def whenNotPaused_def revert_if_def Let_def)

text \<open>
  C14 (functional). The catalog sells what the contract sells, at its price: when the reads of the chain see one
  state of the policy contract, the page shows exactly the known plans the contract does not refuse as
  unknown or inactive, and a click on one of them sends at most an approval and the subscription, where the
  approved amount is exactly what a subscription to the plan moves from the caller to the treasury, through
  the decimal strings of the backend and of the wallet.
\<close>

theorem catalog_price_is_charged:
  assumes chain: "\<And>n. \<exists>t. chain_read M n = Some (t, c)"
    and served: "serve C M (request_of GetPolicyCatalog) db = Some (rep, calls, db')"
      "axios_says read_catalog rep (be_catalog E (length (api_log v)))"
    and loaded: "load_catalog E False v = (q, v1)"
    and law: "\<And>w. parseEther B (formatEther B w) = Inr w"
    and click: "handleSubscribe B e v2 = (r, v3)"
  shows "\<exists>es. templates (buy v1) = Some es \<and>
     (\<forall>tid \<in> set KNOWN_TEMPLATE_IDS - template_id ` set es. \<forall>t. \<not> policy_paused c \<longrightarrow>
        subscribeToPolicy t (word_of_int tid) c \<in> {Inl (CustomError ''PolicyTemplateNotFound''), Inl (CustomError ''PolicyTemplateInactive'')}) \<and>
     (e \<in> set es \<longrightarrow> payment_outcome B (premium_amount_per_period_wei e) (SubscribeToPolicy (template_id e))
        (buy_result (buy v3) \<noteq> None) (browser v2) (browser v3) \<and> offered c (template_id e) \<and>
        (\<forall>t pid u. subscribeToPolicy t (word_of_int (template_id e)) c = Inr (pid, u) \<longrightarrow>
           premium_calls u = premium_calls c @ [SafeTransferFrom (premiumToken c) (msg_sender t) (premiumTreasury c)
             (word_of_int (premium_amount_per_period_wei e))]))"
proof -
  let ?es = "map (entry_of c) (filter (offered c) KNOWN_TEMPLATE_IDS)"
  have "rep = get_policy_catalog M" using served(1) by (simp add: serve_catalog del: request_of.simps)
  then have "be_catalog E (length (api_log v)) = Inr ?es"
    using served(2) catalog_read [OF chain] by (auto simp: axios_says_def ok_reply_def)
  then have es: "templates (buy v1) = Some ?es"
    using loaded by (auto simp: load_catalog_def load_effect_def effect_simps)
  have pay: "payment_outcome B (premium_amount_per_period_wei e) (SubscribeToPolicy (template_id e))
      (buy_result (buy v3) \<noteq> None) (browser v2) (browser v3)"
    using subscription_pays_exactly_the_premium [OF law click] by blast
  have price: "ucast (t_premiumAmountPerPeriod (Insurance_Policy.policyTemplates c (word_of_int tid))) =
      (word_of_int (premium_amount_per_period_wei (entry_of c tid)) :: uint256)" for tid
    by (simp add: entry_of_def Let_def)
  have ids: "template_id (entry_of c tid) = tid" for tid by (simp add: entry_of_def Let_def)
  then show ?thesis
    using es pay price subscription_charges subscription_refused [of c]
    by (intro exI [of _ ?es]) (auto simp: image_iff)
qed

section \<open>Concrete runs\<close>

text \<open>Tokens of the example carry the three claims in the clear, separated by dots.\<close>

fun py_encode :: "jwt_claims \<Rightarrow> string" where
  "py_encode [(_, JString a), (_, i), (_, x)] = (case (whole i, whole x) of
     (Some n, Some e) \<Rightarrow> dec e @ ''.'' @ dec n @ ''.'' @ a @ ''.'' | _ \<Rightarrow> ''.'')"
| "py_encode _ = ''.''"

definition py_decode :: "int \<Rightarrow> string \<Rightarrow> jwt_claims option" where
  "py_decode now s = (let dot = (\<lambda>c. c \<noteq> CHR ''.''); e = takeWhile dot s; s1 = drop (Suc (length e)) s;
       i = takeWhile dot s1; a = butlast (drop (Suc (length i)) s1) in
     case (parse_dec e, parse_dec i) of
       (Some x, Some n) \<Rightarrow> if now \<le> x then Some (session_claims a n x) else None | _ \<Rightarrow> None)"

definition py_account :: string where
  "py_account = ''0x'' @ replicate 40 (CHR ''a'')"

definition py_conf :: backend_conf where
  "py_conf = \<lparr>login_message_prefix = ''login:'', jwt_exp_minutes = 60, indexer_webhook_api_key = ''0123456789abcdef'',
     validation = py_pydantic, jwt_encode = py_encode, jwt_decode = py_decode,
     recover_message = (\<lambda>_ _. Some py_account), isoformat = dec, to_checksum = (\<lambda>_. [])\<rparr>"

definition py_plan :: plan_struct where
  "py_plan = \<lparr>t_coverageAmount = 1000, t_premiumAmountPerPeriod = 40, t_periodSeconds = 60, t_termSeconds = 600,
     t_active = True, t_metadataHash = 0\<rparr>"

definition py_policies :: insurance_policy where
  "py_policies = blank_policies\<lparr>Insurance_Policy.policyTemplates := (\<lambda>_. no_plan)(2 := py_plan), premiumToken := 9,
     premiumTreasury := 8\<rparr>"

definition py_tx :: tx where
  "py_tx = \<lparr>msg_sender = 7, block_timestamp = 50, hasRole = (\<lambda>_ _. False), token_reverts = (\<lambda>_. None)\<rparr>"

definition py_moment :: moment where
  "py_moment = \<lparr>at_time = 100, token_hex = ''beef'', uuids = (\<lambda>_. []), oracle_service = (\<lambda>_. Unreachable []),
     chain_read = (\<lambda>_. Some (py_tx, py_policies))\<rparr>"

definition py_empty :: backend_db where
  "py_empty = \<lparr>bk_claims = [], bk_next_id = 1, bk_keys = Map.empty, bk_nonces = Map.empty\<rparr>"

definition py_E :: backend_lib where
  "py_E = ex_E\<lparr>be_nonce := (\<lambda>_. Inr ''login: beef''), be_login := (\<lambda>_. Inr (create_access_token py_conf 100 py_account)),
     wallet_sign := (\<lambda>_ _. Inr ''0x01''), be_catalog := (\<lambda>_. Inr [entry_of py_policies 2])\<rparr>"

definition py_app :: app where
  "py_app = ex_app\<lparr>auth := (auth ex_app)\<lparr>account := Some py_account\<rparr>\<rparr>"

lemma dec_no_dot: "CHR ''.'' \<notin> set (dec n)"
  using dec_chars [of "CHR ''.''" n] by (auto simp: digit_val_def)

lemma trim_framed: "\<not> is_space (hd s) \<Longrightarrow> trim (s @ ''.'') = s @ ''.''" if "s \<noteq> []"
  using that by (cases s) (simp_all add: trim_def is_space_def)

lemma dec_head: "dec n \<noteq> [] \<and> \<not> is_space (hd (dec n))"
proof -
  have "dec n \<noteq> []" by (simp add: dec_def)
  then have "hd (dec n) \<in> set (dec n)" by simp
  from dec_chars [OF this] \<open>dec n \<noteq> []\<close> show ?thesis
    by (auto simp: digit_val_def is_space_def Let_def split: if_splits)
qed

lemma py_encode_trim: "trim (py_encode kvs) = py_encode kvs" "py_encode kvs \<noteq> []"
proof -
  have "trim ((dec e @ ''.'' @ dec n @ ''.'' @ a) @ ''.'') = (dec e @ ''.'' @ dec n @ ''.'' @ a) @ ''.''" for e n a
    using dec_head [of e] by (intro trim_framed) (auto simp: hd_append)
  moreover have "trim ''.'' = ''.''" by (simp add: trim_def is_space_def)
  ultimately show "trim (py_encode kvs) = py_encode kvs"
    by (cases kvs rule: py_encode.cases) (auto split: option.split)
  show "py_encode kvs \<noteq> []" by (cases kvs rule: py_encode.cases) (auto split: option.split)
qed

lemma py_decode_encode: "now \<le> x \<Longrightarrow> py_decode now (py_encode (session_claims a i x)) = Some (session_claims a i x)"
proof -
  have t: "takeWhile (\<lambda>c. c \<noteq> CHR ''.'') (dec n @ CHR ''.'' # r) = dec n" for n r
    using dec_no_dot [of n] by (subst takeWhile_append2) auto
  show "now \<le> x \<Longrightarrow> ?thesis"
    by (simp add: py_decode_def session_claims_def t Let_def)
qed

theorem wallet_login_opens_session_witness:
  "\<exists>s' tok. login py_E ex_B py_app = (Inr (), s') \<and> token (auth s') = Some tok \<and>
     get_current_address py_conf 3700 (header_of (request_of (ListClaims tok)) ''Authorization'') = Inr py_account"
proof -
  let ?M = "py_moment" and ?n = "bk_nonces (snd (get_nonce py_conf py_moment [(''address'', py_account)] py_empty))"
  have acc: "hex_string 40 py_account" "toLowerCase py_account = py_account" by code_simp+
  obtain r1 db1 where one: "get_nonce py_conf ?M [(''address'', py_account)] py_empty = (r1, db1)" by fastforce
  then have r1: "axios_says read_message r1 (be_nonce py_E (length (api_log py_app)))"
    and db1: "bk_nonces db1 py_account = Some \<lparr>wn_nonce = ''beef'', wn_expires_at = 400, wn_used = False\<rparr>"
    using acc by (auto simp: get_nonce_def generate_nonce_def axios_says_def ok_reply_def read_message_def py_E_def
        build_login_message_def py_conf_def py_moment_def NONCE_TTL_MINUTES_def)
  obtain r2 db3 where two: "login_wallet py_conf ?M (JObject [(''address'', JString py_account),
      (''signature'', JString ''0x01'')]) db1 = (r2, db3)" by fastforce
  have sig: "hex_signature ''0x01''" by code_simp
  from two have r2: "axios_says read_access_token r2 (be_login py_E (Suc (length (api_log py_app))))"
    using acc sig db1 by (auto simp: login_wallet_def WalletLoginRequest_def guard_def ok_reply_def axios_says_def
        verify_signature_and_consume_nonce_def read_access_token_def py_E_def py_conf_def py_moment_def Let_def)
  have "\<exists>s' tok m. login py_E ex_B py_app = (Inr (), s') \<and> isAuthenticated s' \<and> token (auth s') = Some tok \<and>
     be_nonce py_E (length (api_log py_app)) = Inr m \<and>
     api_log s' = api_log py_app @ [GetNonce py_account, LoginWallet py_account ''0x01''] \<and>
     (\<forall>now \<le> at_time ?M + jwt_exp_minutes py_conf * 60. get_current_address py_conf now
        (header_of (request_of (ListClaims tok)) ''Authorization'') = Inr (toLowerCase py_account))"
    by (rule wallet_login_opens_session [where sg = "\<lambda>_. ''0x01''" and db = py_empty and M = ?M and M' = ?M and ?db2.0 = db1 and ?db1.0 = db1 and ?r1.0 = r1 and ?r2.0 = r2 and ?db3.0 = db3 and ?c1.0 = "[]" and ?c2.0 = "[]"])
      (use acc sig one two r1 r2 py_decode_encode py_encode_trim in
        \<open>simp_all add: serve_nonce serve_login del: request_of.simps,
         simp_all add: py_app_def py_E_def ex_E_def ex_B_def py_conf_def py_moment_def\<close>)
  then show ?thesis using acc by (fastforce simp: py_moment_def py_conf_def)
qed

lemma py_account_lower: "toLowerCase py_account = py_account"
  by code_simp

lemma py_session_valid:
  "get_current_address py_conf (at_time py_moment) (Some (''Bearer '' @ create_access_token py_conf 100 py_account)) = Inr py_account"
  using token_accepted [of py_conf "at_time py_moment" 100 py_account] py_decode_encode py_encode_trim(1) py_account_lower
  by (simp add: py_conf_def py_moment_def)

definition py_B :: browser_lib where
  "py_B = ex_B\<lparr>keccak := (\<lambda>_. ''0x'' @ replicate 64 (CHR ''0''))\<rparr>"

definition py_session :: app where
  "py_session = ex_app\<lparr>auth := (auth ex_app)\<lparr>token := Some (create_access_token py_conf 100 py_account)\<rparr>\<rparr>"

theorem filed_claim_is_stored_witness:
  "\<exists>row rt rep. serve py_conf py_moment (request_of (hd (api_log (snd (handleSubmit py_E py_B py_session))))) py_empty =
       Some (rep, [], py_empty\<lparr>bk_claims := [row], bk_next_id := 2\<rparr>) \<and> reply_code rep = 201 \<and>
     bc_claimant_address row = py_account \<and> bc_merkle_root row = Some rt \<and>
     bc_policy_id row = 3 \<and> bc_declared_amount row = Fin 250"
proof -
  let ?s' = "snd (handleSubmit py_E py_B py_session)"
  have law: "getBytes py_B (''0x'' @ to_hex bs) = Inr bs" "hex_string 64 (keccak py_B bs)"
    "length (getRandomValues py_B n) = 32" for bs n
    using ex_getBytes [of bs] by (simp_all add: py_B_def ex_B_def hex_string_def list_all_iff digit_val_def)
  note session = py_session_valid
  have numbers: "numberOf ex_E ''3'' = js_int 3 \<and> numberOf ex_E ''250'' = Fin 250" by code_simp
  have form: "in_policyId (filing py_session) \<noteq> []" "in_amount (filing py_session) \<noteq> []"
    "numberOf py_E (in_policyId (filing py_session)) = js_int 3" "numberOf py_E (in_amount (filing py_session)) = Fin 250"
    "api_log py_session = []"
    using numbers by (simp_all add: py_session_def py_E_def ex_app_def)
  have tok: "token (auth py_session) = Some (create_access_token py_conf 100 py_account)" by (simp add: py_session_def)
  obtain p where log: "api_log ?s' = [hd (api_log ?s')]"
    and posts: "hd (api_log ?s') = CreateClaim (create_access_token py_conf 100 py_account) p"
    by (rule handleSubmit_posts [OF law(1) surjective_pairing form(1,2)]) (use tok form(5) in auto)
  have "\<exists>rep db'. serve py_conf py_moment (request_of (hd (api_log ?s'))) py_empty = Some (rep, [], db')"
    using session by (auto simp: posts serve_create simp del: request_of.simps split: option.split prod.split)
  then obtain rep db' where served: "serve py_conf py_moment (request_of (hd (api_log ?s'))) py_empty = Some (rep, [], db')"
    by blast
  have lax: "lax_int (validation py_conf) (JNumber (js_int 3)) = Some 3"
    "lax_float (validation py_conf) (JNumber (Fin 250)) = Some (Fin 250)" by code_simp+
  have only: "serve py_conf py_moment (request_of c) py_empty = Some (rep, [], db')"
    if "api_log ?s' = api_log py_session @ [c]" for c using that served form(5) by simp
  from filed_claim_is_stored [OF law tok session form(1-4) _ lax surjective_pairing only]
  obtain row rt where "db' = py_empty\<lparr>bk_claims := [row], bk_next_id := 2\<rparr>" "reply_code rep = 201"
    "bc_claimant_address row = py_account" "bc_merkle_root row = Some rt"
    "bc_policy_id row = 3" "bc_declared_amount row = Fin 250"
    by (auto simp: py_empty_def)
  with served show ?thesis by auto
qed

theorem catalog_price_is_charged_witness:
  "\<exists>es. templates (buy (snd (load_catalog py_E False ex_app))) = Some es \<and> es = [entry_of py_policies 2] \<and>
     payment_outcome ex_B 40 (SubscribeToPolicy 2) True (browser ex_app)
       (browser (snd (handleSubscribe ex_B (entry_of py_policies 2) ex_app))) \<and>
     (\<exists>pid u. subscribeToPolicy py_tx 2 py_policies = Inr (pid, u) \<and> premium_calls u = [SafeTransferFrom 9 7 8 40])"
proof -
  let ?v3 = "snd (handleSubscribe ex_B (entry_of py_policies 2) ex_app)"
  have read: "\<exists>t. chain_read py_moment n = Some (t, py_policies)" for n by (simp add: py_moment_def)
  have shown: "filter (offered py_policies) KNOWN_TEMPLATE_IDS = [2]" by code_simp
  then have ax: "axios_says read_catalog (get_policy_catalog py_moment) (be_catalog py_E (length (api_log ex_app)))"
    using catalog_read [OF read] by (simp add: axios_says_def py_E_def)
  have es: "templates (buy (snd (load_catalog py_E False ex_app))) = Some [entry_of py_policies 2]"
    by (simp add: load_catalog_def load_effect_def effect_simps py_E_def)
  have done_: "buy_result (buy ?v3) \<noteq> None" by code_simp
  have "\<not> isl (subscribeToPolicy py_tx 2 py_policies)" by code_simp
  then obtain pid u where sub: "subscribeToPolicy py_tx 2 py_policies = Inr (pid, u)"
    by (cases "subscribeToPolicy py_tx 2 py_policies") auto
  have wei: "template_id (entry_of py_policies 2) = 2" "premium_amount_per_period_wei (entry_of py_policies 2) = 40"
    by code_simp+
  have "premium_calls py_policies = []" "premiumToken py_policies = 9" "premiumTreasury py_policies = 8" "msg_sender py_tx = 7"
    by (simp_all add: py_policies_def blank_policies_def py_tx_def)
  then show ?thesis
    using catalog_price_is_charged [where C = py_conf and db = py_empty, OF read serve_catalog ax surjective_pairing ex_parseEther
        surjective_pairing, of "entry_of py_policies 2" ex_app] es done_ sub wei by auto
qed

end
