(* ===== verification/Claim_Registry.thy ===== *)
theory Claim_Registry
  imports Insurance_Policy
begin

text \<open>
  \<^verbatim>\<open>src/smart-contracts/contracts/ClaimRegistry.sol\<close>: the life of a claim, the payout with its rate
  limit, the emergency controls and the recovery functions. One function per external function, its
  modifiers and checks in the order of the source.

  The policy registry the contract calls is the InsurancePolicy of the previous theory, at the address
  the contract has stored; at an address without a contract the call reverts. A token does not call back.
\<close>

section \<open>State\<close>

datatype claim_status = St_Submitted | St_UnderReview | St_Approved | St_Paid | St_Rejected

record claim_struct =
  c_claimId :: uint128
  c_policyId :: uint128
  c_claimant :: address
  c_amount :: uint96
  c_status :: claim_status
  c_submittedAt :: uint40
  c_processedAt :: uint40
  c_merkleRoot :: bytes32

datatype registry_log =
    EmitClaimSubmitted uint256 uint256 address bytes32 uint256 uint256
  | EmitClaimStatusChanged uint256 claim_status
  | EmitClaimPayout uint256 address uint256 address
  | EmitRateLimitsUpdated uint256 uint256 uint256
  | EmitForeignTokenRescued address address uint256
  | EmitStuckPayoutReleased uint256 address uint256
  | EmitPolicyRegistryUpdated address
  | EmitPaused address
  | EmitUnpaused address

record claim_registry =
  nextClaimId :: uint256
  claim_at :: "uint256 \<Rightarrow> claim_struct"
  policyClaims :: "uint256 \<Rightarrow> uint256 list"
  usedOracleRequestIds :: "bytes32 \<Rightarrow> bool"
  payoutToken :: address
  policyRegistry :: address
  maxPayoutPerClaim :: uint256
  maxPayoutPerWindow :: uint256
  rateLimitWindowSeconds :: uint256
  windowStart :: uint256
  windowTotalPaid :: uint256
  registry_paused :: bool
  registry_initialized :: bool
  registry_logs :: "registry_log list"
  registry_calls :: "token_call list"

definition no_claim :: claim_struct where
  "no_claim = \<lparr>c_claimId = 0, c_policyId = 0, c_claimant = 0, c_amount = 0, c_status = St_Submitted,
     c_submittedAt = 0, c_processedAt = 0, c_merkleRoot = 0\<rparr>"

definition blank_registry :: claim_registry where
  "blank_registry = \<lparr>nextClaimId = 0, claim_at = (\<lambda>_. no_claim), policyClaims = (\<lambda>_. []),
     usedOracleRequestIds = (\<lambda>_. False), payoutToken = 0, policyRegistry = 0, maxPayoutPerClaim = 0,
     maxPayoutPerWindow = 0, rateLimitWindowSeconds = 0, windowStart = 0, windowTotalPaid = 0,
     registry_paused = False, registry_initialized = False, registry_logs = [], registry_calls = []\<rparr>"

text \<open>The contracts of the chain the registry may call, by address.\<close>

type_synonym policy_code = "address \<Rightarrow> insurance_policy option"

definition at_registry :: "policy_code \<Rightarrow> address \<Rightarrow> (insurance_policy \<Rightarrow> 'a sol) \<Rightarrow> 'a sol" where
  "at_registry code a f = (case code a of
       None \<Rightarrow> Inl (Bubbled ''call to non-contract'') | Some s \<Rightarrow> f s)"

definition emit_registry :: "registry_log \<Rightarrow> claim_registry \<Rightarrow> claim_registry" where
  "emit_registry l r = r\<lparr>registry_logs := registry_logs r @ [l]\<rparr>"

definition registry_initialize ::
  "tx \<Rightarrow> address \<Rightarrow> address \<Rightarrow> uint256 \<Rightarrow> uint256 \<Rightarrow> uint256 \<Rightarrow> claim_registry \<Rightarrow> claim_registry sol" where
  "registry_initialize t tok registry perClaim perWindow secs r =
     initializer (registry_initialized r)
     (Inr (r\<lparr>payoutToken := tok, policyRegistry := registry, nextClaimId := 1,
        maxPayoutPerClaim := perClaim, maxPayoutPerWindow := perWindow,
        rateLimitWindowSeconds := secs, windowStart := block_timestamp t,
        registry_initialized := True\<rparr>))"

section \<open>The life of a claim\<close>

fun consumed_loop :: "(uint256 \<Rightarrow> claim_struct) \<Rightarrow> uint256 list \<Rightarrow> uint256 \<Rightarrow> uint256 sol" where
  "consumed_loop cl [] acc = Inr acc"
| "consumed_loop cl (i # ids) acc = (if c_status (cl i) \<noteq> St_Rejected
     then bind_r (checked_add acc (ucast (c_amount (cl i)))) (consumed_loop cl ids)
     else consumed_loop cl ids acc)"

definition consumedCoverage :: "uint256 \<Rightarrow> claim_registry \<Rightarrow> uint256 sol" where
  "consumedCoverage pid r = consumed_loop (claim_at r) (policyClaims r pid) 0"

definition store_claim ::
  "tx \<Rightarrow> uint256 \<Rightarrow> uint256 \<Rightarrow> bytes32 \<Rightarrow> uint256 \<Rightarrow> claim_registry \<Rightarrow> claim_registry" where
  "store_claim t cid pid mroot amt r =
     emit_registry (EmitClaimSubmitted cid pid (msg_sender t) mroot amt (block_timestamp t))
       (r\<lparr>claim_at := (claim_at r)(cid := \<lparr>c_claimId = ucast cid, c_policyId = ucast pid,
            c_claimant = msg_sender t, c_amount = ucast amt, c_status = St_Submitted,
            c_submittedAt = ucast (block_timestamp t), c_processedAt = 0, c_merkleRoot = mroot\<rparr>),
          policyClaims := (policyClaims r)(pid := policyClaims r pid @ [cid])\<rparr>)"

definition submitClaim ::
  "policy_code \<Rightarrow> tx \<Rightarrow> uint256 \<Rightarrow> bytes32 \<Rightarrow> uint256 \<Rightarrow> claim_registry \<Rightarrow>
     (uint256 \<times> claim_registry) sol" where
  "submitClaim code t pid mroot amt r = whenNotPaused (registry_paused r)
     (revert_if (maxPayoutPerClaim r < amt) ''ClaimAmountExceedsCap''
     (revert_if (policyRegistry r = 0) ''PolicyRegistryNotSet''
     (bind_r (at_registry code (policyRegistry r) (getPolicy pid)) (\<lambda>p.
      revert_if (p_revoked p \<or> block_timestamp t < ucast (p_validFrom p) \<or>
        ucast (p_validUntil p) < block_timestamp t) ''PolicyNotActive''
     (revert_if (p_holder p \<noteq> msg_sender t) ''NotPolicyHolder''
     (bind_r (at_registry code (policyRegistry r) (isPremiumCurrent t pid)) (\<lambda>current.
      revert_if (\<not> current) ''PremiumNotCurrent''
     (bind_r (consumedCoverage pid r) (\<lambda>consumedSoFar.
      bind_r (checked_add consumedSoFar amt) (\<lambda>wanted.
      revert_if (ucast (p_coverageAmount p) < wanted) ''ClaimExceedsPolicyCoverage''
     (let cid = nextClaimId r in
      bind_r (checked_add cid 1) (\<lambda>next_id.
      Inr (cid, store_claim t cid pid mroot amt (r\<lparr>nextClaimId := next_id\<rparr>))))))))))))))"

definition set_claim :: "uint256 \<Rightarrow> (claim_struct \<Rightarrow> claim_struct) \<Rightarrow> claim_registry \<Rightarrow> claim_registry" where
  "set_claim cid f r = r\<lparr>claim_at := (claim_at r)(cid := f (claim_at r cid))\<rparr>"

definition setClaimStatus :: "tx \<Rightarrow> uint256 \<Rightarrow> claim_status \<Rightarrow> claim_registry \<Rightarrow> claim_registry sol" where
  "setClaimStatus t cid st r = whenNotPaused (registry_paused r) (onlyRole t ''UNDERWRITER_ROLE''
     (revert_if (c_claimant (claim_at r cid) = 0) ''ClaimNotFound''
     (let r1 = set_claim cid (\<lambda>c. c\<lparr>c_status := st\<rparr>) r;
          r2 = (if st = St_Approved \<or> st = St_Rejected
                then set_claim cid (\<lambda>c. c\<lparr>c_processedAt := ucast (block_timestamp t)\<rparr>) r1 else r1)
      in Inr (emit_registry (EmitClaimStatusChanged cid st) r2))))"

definition recordOracleVerification ::
  "tx \<Rightarrow> uint256 \<Rightarrow> bytes32 \<Rightarrow> bool \<Rightarrow> claim_registry \<Rightarrow> claim_registry sol" where
  "recordOracleVerification t cid rid approved r =
     whenNotPaused (registry_paused r) (onlyRole t ''ORACLE_ROLE''
     (revert_if (usedOracleRequestIds r rid) ''OracleRequestAlreadyUsed''
     (let r1 = r\<lparr>usedOracleRequestIds := (usedOracleRequestIds r)(rid := True)\<rparr>;
          st = (if approved then St_Approved else St_Rejected)
      in revert_if (c_claimant (claim_at r1 cid) = 0) ''ClaimNotFound''
      (Inr (emit_registry (EmitClaimStatusChanged cid st)
        (set_claim cid (\<lambda>c. c\<lparr>c_status := st, c_processedAt := ucast (block_timestamp t)\<rparr>) r1))))))"

definition enforceRateLimit :: "tx \<Rightarrow> uint256 \<Rightarrow> claim_registry \<Rightarrow> claim_registry sol" where
  "enforceRateLimit t amt r = bind_r (checked_add (windowStart r) (rateLimitWindowSeconds r)) (\<lambda>limit.
     let r1 = (if limit \<le> block_timestamp t
               then r\<lparr>windowStart := block_timestamp t, windowTotalPaid := 0\<rparr> else r)
     in bind_r (checked_add (windowTotalPaid r1) amt) (\<lambda>used.
        revert_if (maxPayoutPerWindow r1 < used) ''RateLimitWindowExceeded''
        (Inr (r1\<lparr>windowTotalPaid := used\<rparr>))))"

text \<open>Marking as paid and the transfer to the claimant, shared by the two ways of paying.\<close>

definition pay_claim :: "tx \<Rightarrow> uint256 \<Rightarrow> claim_registry \<Rightarrow> claim_registry sol" where
  "pay_claim t cid r =
     (let c = claim_at r cid; call = SafeTransfer (payoutToken r) (c_claimant c) (ucast (c_amount c)) in
      token_call_then t call (Inr ((set_claim cid
        (\<lambda>c. c\<lparr>c_status := St_Paid, c_processedAt := ucast (block_timestamp t)\<rparr>) r)
        \<lparr>registry_calls := registry_calls r @ [call]\<rparr>)))"

definition payoutClaim :: "tx \<Rightarrow> uint256 \<Rightarrow> claim_registry \<Rightarrow> claim_registry sol" where
  "payoutClaim t cid r = whenNotPaused (registry_paused r) (onlyRole t ''UNDERWRITER_ROLE''
     (let c = claim_at r cid in
      revert_if (c_claimant c = 0) ''ClaimNotFound''
     (revert_if (c_status c \<noteq> St_Approved) ''ClaimNotApproved''
     (bind_r (enforceRateLimit t (ucast (c_amount c)) r) (\<lambda>r1.
      bind_r (pay_claim t cid r1) (\<lambda>r2.
      Inr (emit_registry (EmitClaimPayout cid (c_claimant c) (ucast (c_amount c)) (payoutToken r2)) r2)))))))"

section \<open>Controls\<close>

definition registry_pause :: "tx \<Rightarrow> claim_registry \<Rightarrow> claim_registry sol" where
  "registry_pause t r = onlyRole t ''PAUSER_ROLE'' (whenNotPaused (registry_paused r)
     (Inr (emit_registry (EmitPaused (msg_sender t)) (r\<lparr>registry_paused := True\<rparr>))))"

definition registry_unpause :: "tx \<Rightarrow> claim_registry \<Rightarrow> claim_registry sol" where
  "registry_unpause t r = onlyRole t ''ADMIN_ROLE'' (whenPaused (registry_paused r)
     (Inr (emit_registry (EmitUnpaused (msg_sender t)) (r\<lparr>registry_paused := False\<rparr>))))"

definition updateRateLimits ::
  "tx \<Rightarrow> uint256 \<Rightarrow> uint256 \<Rightarrow> uint256 \<Rightarrow> claim_registry \<Rightarrow> claim_registry sol" where
  "updateRateLimits t perClaim perWindow secs r = onlyRole t ''ADMIN_ROLE''
     (Inr (emit_registry (EmitRateLimitsUpdated perClaim perWindow secs)
       (r\<lparr>maxPayoutPerClaim := perClaim, maxPayoutPerWindow := perWindow,
          rateLimitWindowSeconds := secs\<rparr>)))"

definition setPolicyRegistry :: "tx \<Rightarrow> address \<Rightarrow> claim_registry \<Rightarrow> claim_registry sol" where
  "setPolicyRegistry t a r = onlyRole t ''ADMIN_ROLE''
     (Inr (emit_registry (EmitPolicyRegistryUpdated a) (r\<lparr>policyRegistry := a\<rparr>)))"

definition rescueForeignToken ::
  "tx \<Rightarrow> address \<Rightarrow> address \<Rightarrow> uint256 \<Rightarrow> claim_registry \<Rightarrow> claim_registry sol" where
  "rescueForeignToken t tok dest amt r = onlyRole t ''ADMIN_ROLE''
     (revert_if (tok = payoutToken r) ''CannotRescuePayoutToken''
     (let call = SafeTransfer tok dest amt in token_call_then t call
     (Inr (emit_registry (EmitForeignTokenRescued tok dest amt)
       (r\<lparr>registry_calls := registry_calls r @ [call]\<rparr>)))))"

definition releaseStuckPayout :: "tx \<Rightarrow> uint256 \<Rightarrow> claim_registry \<Rightarrow> claim_registry sol" where
  "releaseStuckPayout t cid r = onlyRole t ''ADMIN_ROLE''
     (let c = claim_at r cid in
      revert_if (c_claimant c = 0) ''ClaimNotFound''
     (revert_if (c_status c \<noteq> St_Approved) ''PayoutHasNotFailed''
     (bind_r (pay_claim t cid r) (\<lambda>r1.
      Inr (emit_registry (EmitStuckPayoutReleased cid (c_claimant c) (ucast (c_amount c))) r1)))))"

definition getClaimsForPolicy :: "uint256 \<Rightarrow> claim_registry \<Rightarrow> uint256 list" where
  "getClaimsForPolicy pid r = policyClaims r pid"

definition currentWindowUsage :: "claim_registry \<Rightarrow> uint256 \<times> uint256" where
  "currentWindowUsage r = (windowStart r, windowTotalPaid r)"

section \<open>Calls\<close>

datatype registry_call =
    Call_submitClaim uint256 bytes32 uint256
  | Call_setClaimStatus uint256 claim_status
  | Call_recordOracleVerification uint256 bytes32 bool
  | Call_payoutClaim uint256
  | Call_pause
  | Call_unpause
  | Call_updateRateLimits uint256 uint256 uint256
  | Call_setPolicyRegistry address
  | Call_rescueForeignToken address address uint256
  | Call_releaseStuckPayout uint256

text \<open>A call comes with its transaction and with the contracts it finds on the chain.\<close>

fun registry_exec :: "policy_code \<times> tx \<times> registry_call \<Rightarrow> claim_registry \<Rightarrow> claim_registry sol" where
  "registry_exec (P, t, Call_submitClaim pid mroot amt) r =
     map_sum id snd (submitClaim P t pid mroot amt r)"
| "registry_exec (P, t, Call_setClaimStatus cid st) r = setClaimStatus t cid st r"
| "registry_exec (P, t, Call_recordOracleVerification cid rid approved) r =
     recordOracleVerification t cid rid approved r"
| "registry_exec (P, t, Call_payoutClaim cid) r = payoutClaim t cid r"
| "registry_exec (P, t, Call_pause) r = registry_pause t r"
| "registry_exec (P, t, Call_unpause) r = registry_unpause t r"
| "registry_exec (P, t, Call_updateRateLimits a b c) r = updateRateLimits t a b c r"
| "registry_exec (P, t, Call_setPolicyRegistry a) r = setPolicyRegistry t a r"
| "registry_exec (P, t, Call_rescueForeignToken tok dest amt) r = rescueForeignToken t tok dest amt r"
| "registry_exec (P, t, Call_releaseStuckPayout cid) r = releaseStuckPayout t cid r"

section \<open>What a call may do\<close>

text \<open>The events that touch no claim, and the administration that emits them.\<close>

fun is_claim_log :: "registry_log \<Rightarrow> bool" where
  "is_claim_log (EmitClaimSubmitted cid pid who mroot amt ts) = True"
| "is_claim_log (EmitClaimStatusChanged cid st) = True"
| "is_claim_log (EmitClaimPayout cid dest amt tok) = True"
| "is_claim_log (EmitStuckPayoutReleased cid dest amt) = True"
| "is_claim_log _ = False"

definition same_claims :: "claim_registry \<Rightarrow> claim_registry \<Rightarrow> bool" where
  "same_claims r u \<longleftrightarrow> claim_at u = claim_at r \<and> policyClaims u = policyClaims r \<and>
     nextClaimId u = nextClaimId r \<and> payoutToken u = payoutToken r \<and>
     usedOracleRequestIds u = usedOracleRequestIds r"

text \<open>The payments out of the registry in the payout token, as they were logged.\<close>

fun payout_of :: "registry_log \<Rightarrow> (uint256 \<times> address \<times> uint256) option" where
  "payout_of (EmitClaimPayout cid dest amt tok) = Some (cid, dest, amt)"
| "payout_of (EmitStuckPayoutReleased cid dest amt) = Some (cid, dest, amt)"
| "payout_of _ = None"

lemmas registry_ops = submitClaim_def setClaimStatus_def recordOracleVerification_def payoutClaim_def
  enforceRateLimit_def pay_claim_def registry_pause_def registry_unpause_def updateRateLimits_def
  setPolicyRegistry_def rescueForeignToken_def releaseStuckPayout_def

lemma submitClaim_Inr:
  assumes "submitClaim P t pid mroot amt r = Inr (cid, u)"
  obtains s used where "\<not> registry_paused r" and "amt \<le> maxPayoutPerClaim r"
    and "P (policyRegistry r) = Some s" and "policy_exists s pid"
    and "isPolicyActive pid (block_timestamp t) s" and "p_holder (policies s pid) = msg_sender t"
    and "isPremiumCurrent t pid s = Inr True" and "consumedCoverage pid r = Inr used"
    and "uint used + uint amt \<le> uint (p_coverageAmount (policies s pid))"
    and "uint (nextClaimId r) + 1 < 2 ^ 256" and "cid = nextClaimId r"
    and "u = store_claim t cid pid mroot amt (r\<lparr>nextClaimId := cid + 1\<rparr>)"
proof -
  obtain s used where s: "P (policyRegistry r) = Some s" "policy_exists s pid"
    and rest: "\<not> registry_paused r" "\<not> maxPayoutPerClaim r < amt"
      "\<not> (p_revoked (policies s pid) \<or> block_timestamp t < ucast (p_validFrom (policies s pid)) \<or>
        ucast (p_validUntil (policies s pid)) < block_timestamp t)" "p_holder (policies s pid) = msg_sender t"
      "isPremiumCurrent t pid s = Inr True" "consumedCoverage pid r = Inr used"
      "uint used + uint amt < 2 ^ 256" "\<not> ucast (p_coverageAmount (policies s pid)) < used + amt"
      "uint (nextClaimId r) + 1 < 2 ^ 256" "cid = nextClaimId r" and
      "u = store_claim t cid pid mroot amt (r\<lparr>nextClaimId := cid + 1\<rparr>)"
    using assms unfolding submitClaim_def Let_def
    by (auto simp: sol_defs at_registry_def getPolicy_def split: option.splits)
  moreover have "uint used + uint amt \<le> uint (p_coverageAmount (policies s pid))"
    using rest(7,8) by (simp add: word_less_def uint_checked_add uint_ucast_up)
  moreover have "isPolicyActive pid (block_timestamp t) s"
    using s rest(3) by (auto simp: isPolicyActive_def Let_def not_less)
  ultimately show thesis using that by (auto simp: not_less)
qed

lemma registry_call_cases:
  assumes "registry_exec c r = Inr u"
  obtains (submits) P t pid mroot amt cid where "c = (P, t, Call_submitClaim pid mroot amt)"
      "submitClaim P t pid mroot amt r = Inr (cid, u)"
  | (decides) P t cid st rid approved c' used where
      "c = (P, t, Call_setClaimStatus cid st) \<or>
       c = (P, t, Call_recordOracleVerification cid rid approved)"
      "c_claimant (claim_at r cid) \<noteq> 0" "c_status c' = st" "c_claimant c' = c_claimant (claim_at r cid)"
      "c_amount c' = c_amount (claim_at r cid)" "c_policyId c' = c_policyId (claim_at r cid)"
      "c_claimId c' = c_claimId (claim_at r cid)" "c_merkleRoot c' = c_merkleRoot (claim_at r cid)"
      "u = emit_registry (EmitClaimStatusChanged cid st)
         (r\<lparr>claim_at := (claim_at r)(cid := c'), usedOracleRequestIds := used\<rparr>)"
  | (pays) P t cid l tot start where
      "c = (P, t, Call_payoutClaim cid) \<and> l = EmitClaimPayout cid (c_claimant (claim_at r cid))
         (ucast (c_amount (claim_at r cid))) (payoutToken r) \<or>
       c = (P, t, Call_releaseStuckPayout cid) \<and> l = EmitStuckPayoutReleased cid
         (c_claimant (claim_at r cid)) (ucast (c_amount (claim_at r cid)))"
      "c_claimant (claim_at r cid) \<noteq> 0" "c_status (claim_at r cid) = St_Approved"
      "u = emit_registry l (r\<lparr>windowStart := start, windowTotalPaid := tot,
         claim_at := (claim_at r)(cid := (claim_at r cid)\<lparr>c_status := St_Paid,
           c_processedAt := ucast (block_timestamp t)\<rparr>),
         registry_calls := registry_calls r @
           [SafeTransfer (payoutToken r) (c_claimant (claim_at r cid)) (ucast (c_amount (claim_at r cid)))]\<rparr>)"
  | (administers) l calls where "\<not> is_claim_log l" "same_claims r u"
      "registry_logs u = registry_logs r @ [l]" "registry_calls u = registry_calls r @ calls"
      "\<forall>x\<in>set calls. \<exists>tok dest amt. x = SafeTransfer tok dest amt \<and> tok \<noteq> payoutToken r"
proof -
  obtain P t call where c: "c = (P, t, call)" by (cases c)
  show thesis
  proof (cases call)
    case (Call_submitClaim pid mroot amt)
    with assms c show thesis by (auto simp: map_sum_Inr intro: submits)
  next
    case (Call_setClaimStatus cid st)
    with assms c show thesis
      by (intro decides [of P t cid st _ _
            "(claim_at r cid)\<lparr>c_status := st, c_processedAt := c_processedAt (claim_at u cid)\<rparr>"
            "usedOracleRequestIds r"])
        (auto simp: setClaimStatus_def sol_defs Let_def set_claim_def emit_registry_def split: if_splits)
  next
    case (Call_recordOracleVerification cid rid approved)
    with assms c show thesis
      by (intro decides [of P t cid "if approved then St_Approved else St_Rejected" rid approved
            "(claim_at r cid)\<lparr>c_status := (if approved then St_Approved else St_Rejected),
               c_processedAt := ucast (block_timestamp t)\<rparr>" "(usedOracleRequestIds r)(rid := True)"])
        (auto simp: recordOracleVerification_def sol_defs Let_def set_claim_def emit_registry_def)
  next
    case (Call_payoutClaim cid)
    with assms c show thesis
      by (intro pays [of P t cid "EmitClaimPayout cid (c_claimant (claim_at r cid))
            (ucast (c_amount (claim_at r cid))) (payoutToken r)" "windowTotalPaid u" "windowStart u"])
        (auto simp: payoutClaim_def enforceRateLimit_def pay_claim_def sol_defs Let_def set_claim_def
          emit_registry_def split: if_splits intro!: claim_registry.equality)
  next
    case (Call_releaseStuckPayout cid)
    with assms c show thesis
      by (intro pays [of P t cid "EmitStuckPayoutReleased cid (c_claimant (claim_at r cid))
            (ucast (c_amount (claim_at r cid)))" "windowTotalPaid u" "windowStart u"])
        (auto simp: releaseStuckPayout_def pay_claim_def sol_defs Let_def set_claim_def emit_registry_def
          intro!: claim_registry.equality)
  next
    case (Call_rescueForeignToken tok dest amt)
    with assms c show thesis
      by (intro administers [of "EmitForeignTokenRescued tok dest amt" "[SafeTransfer tok dest amt]"])
        (auto simp: rescueForeignToken_def sol_defs Let_def emit_registry_def same_claims_def)
  qed (use assms c in \<open>auto simp: registry_pause_def registry_unpause_def updateRateLimits_def
      setPolicyRegistry_def sol_defs emit_registry_def same_claims_def intro!: administers [of _ "[]"]\<close>)
qed

end
