(* ===== verification/Registry_Ledger.thy ===== *)
theory Registry_Ledger
  imports Claim_Registry
begin

text \<open>
  What the claim registry keeps over every history of calls: its identifiers, the lists of claims by
  policy, the account of its payments, and, for underwriters that decide a claim once, the coverage.
\<close>

section \<open>Well-formed registries\<close>

definition live :: "claim_registry \<Rightarrow> uint256 \<Rightarrow> bool" where
  "live r i \<longleftrightarrow> c_claimant (claim_at r i) \<noteq> 0"

definition registry_inv :: "claim_registry \<Rightarrow> bool" where
  "registry_inv r \<longleftrightarrow> 0 < uint (nextClaimId r) \<and>
     (\<forall>i. live r i \<longleftrightarrow> 0 < uint i \<and> uint i < uint (nextClaimId r)) \<and>
     (\<forall>p. distinct (policyClaims r p)) \<and>
     (\<forall>i. live r i \<longrightarrow> c_claimId (claim_at r i) = ucast i \<and>
        (\<exists>!p. i \<in> set (policyClaims r p)) \<and>
        (\<forall>p. i \<in> set (policyClaims r p) \<longrightarrow> c_policyId (claim_at r i) = ucast p)) \<and>
     (\<forall>p i. i \<in> set (policyClaims r p) \<longrightarrow> live r i)"

definition from_somebody :: "policy_code \<times> tx \<times> registry_call \<Rightarrow> claim_registry \<Rightarrow> bool" where
  "from_somebody c r \<longleftrightarrow> msg_sender (fst (snd c)) \<noteq> 0"

lemma live_emit [simp]: "live (emit_registry l r) = live r"
  by (simp add: fun_eq_iff live_def emit_registry_def)

lemma emit_fields [simp]:
  "claim_at (emit_registry l r) = claim_at r" "policyClaims (emit_registry l r) = policyClaims r"
  "nextClaimId (emit_registry l r) = nextClaimId r" "payoutToken (emit_registry l r) = payoutToken r"
  "registry_logs (emit_registry l r) = registry_logs r @ [l]"
  "registry_calls (emit_registry l r) = registry_calls r"
  "usedOracleRequestIds (emit_registry l r) = usedOracleRequestIds r"
  by (simp_all add: emit_registry_def)

lemma registry_inv_cong:
  assumes "registry_inv r" and "nextClaimId u = nextClaimId r" and "policyClaims u = policyClaims r"
    and "\<And>i. c_claimant (claim_at u i) = c_claimant (claim_at r i)"
    and "\<And>i. c_claimId (claim_at u i) = c_claimId (claim_at r i)"
    and "\<And>i. c_policyId (claim_at u i) = c_policyId (claim_at r i)"
  shows "registry_inv u"
  using assms(1) unfolding registry_inv_def live_def assms(2-6) .

lemma submit_keeps_inv:
  assumes inv: "registry_inv r" and who: "c_claimant c \<noteq> 0"
    and c: "c_claimId c = ucast (nextClaimId r)" "c_policyId c = ucast pid"
    and room: "uint (nextClaimId r) + 1 < 2 ^ 256"
    and u: "nextClaimId u = nextClaimId r + 1" "claim_at u = (claim_at r)(nextClaimId r := c)"
      "policyClaims u = (policyClaims r)(pid := policyClaims r pid @ [nextClaimId r])"
  shows "registry_inv u"
proof -
  let ?n = "nextClaimId r"
  have next_id: "uint (?n + 1) = uint ?n + 1" using room by (simp add: uint_plus_if')
  have dead: "\<not> live r ?n" using inv by (simp add: registry_inv_def)
  then have fresh: "?n \<notin> set (policyClaims r p)" for p using inv by (auto simp: registry_inv_def)
  have live_u: "live u i \<longleftrightarrow> i = ?n \<or> live r i" for i using u(2) who by (simp add: live_def)
  have mem_u: "i \<in> set (policyClaims u p) \<longleftrightarrow> i \<in> set (policyClaims r p) \<or> i = ?n \<and> p = pid" for i p
    using u(3) by auto
  have "0 < uint i \<and> uint i < uint (?n + 1) \<longleftrightarrow> i = ?n \<or> live r i" for i
    using inv next_id by (auto simp: registry_inv_def word_uint_eq_iff)
  moreover have "distinct (policyClaims u p)" for p
    using inv u(3) fresh by (auto simp: registry_inv_def)
  moreover have "c_claimId (claim_at u i) = ucast i \<and> (\<exists>!p. i \<in> set (policyClaims u p)) \<and>
      (\<forall>p. i \<in> set (policyClaims u p) \<longrightarrow> c_policyId (claim_at u i) = ucast p)" if "live u i" for i
  proof (cases "i = ?n")
    case True
    then show ?thesis using c u(2) fresh by (auto simp: mem_u)
  next
    case False
    then have "live r i" using that live_u by simp
    with inv False show ?thesis by (auto simp: registry_inv_def mem_u u(2))
  qed
  moreover have "live u i" if "i \<in> set (policyClaims u p)" for i p
    using that inv live_u mem_u by (auto simp: registry_inv_def)
  ultimately show ?thesis using next_id u(1) live_u by (auto simp: registry_inv_def)
qed

lemma registry_call_keeps_inv:
  assumes inv: "registry_inv r" and ok: "from_somebody c r" and run: "registry_exec c r = Inr u"
  shows "registry_inv u"
  using run
proof (cases rule: registry_call_cases)
  case (submits P t pid mroot amt cid)
  from submits(2) show ?thesis
  proof (rule submitClaim_Inr)
    fix s used
    assume room: "uint (nextClaimId r) + 1 < 2 ^ 256" and cid: "cid = nextClaimId r"
    assume u: "u = store_claim t cid pid mroot amt (r\<lparr>nextClaimId := cid + 1\<rparr>)"
    have "msg_sender t \<noteq> 0" using ok submits(1) by (simp add: from_somebody_def)
    with u cid show ?thesis by (intro submit_keeps_inv [OF inv _ _ _ room]) (simp_all add: store_claim_def)
  qed
next
  case (decides P t cid st rid approved c' used)
  show ?thesis by (rule registry_inv_cong [OF inv]) (simp_all add: decides)
next
  case (pays P t cid l tot start)
  show ?thesis by (rule registry_inv_cong [OF inv]) (simp_all add: pays)
next
  case (administers l calls)
  then show ?thesis by (intro registry_inv_cong [OF inv]) (simp_all add: same_claims_def)
qed

interpretation ledger: call_invariant registry_exec registry_inv from_somebody
  by unfold_locales (rule registry_call_keeps_inv)

lemma initialize_inv:
  assumes "registry_initialize t tok registry a b c blank_registry = Inr r"
  shows "registry_inv r"
  using assms by (auto simp: registry_initialize_def sol_defs blank_registry_def registry_inv_def
      live_def no_claim_def word_uint_eq_iff)

section \<open>Payments\<close>

definition payouts :: "claim_registry \<Rightarrow> (uint256 \<times> address \<times> uint256) list" where
  "payouts r = List.map_filter payout_of (registry_logs r)"

fun spends :: "address \<Rightarrow> token_call \<Rightarrow> bool" where
  "spends tok (SafeTransfer a dest amt) \<longleftrightarrow> a = tok"
| "spends tok (SafeTransferFrom a payer dest amt) \<longleftrightarrow> a = tok"

text \<open>The transfers of the payout token are the payouts that were logged, each to the claimant.\<close>

definition accounted :: "claim_registry \<Rightarrow> bool" where
  "accounted r \<longleftrightarrow>
     filter (spends (payoutToken r)) (registry_calls r) =
       map (\<lambda>(cid, dest, amt). SafeTransfer (payoutToken r) dest amt) (payouts r) \<and>
     (\<forall>(cid, dest, amt) \<in> set (payouts r). live r cid \<and> dest = c_claimant (claim_at r cid) \<and>
        amt = ucast (c_amount (claim_at r cid)))"

definition paid_for :: "claim_registry \<Rightarrow> uint256 \<Rightarrow> int" where
  "paid_for r i = sum_list (map (\<lambda>(cid, dest, amt). if cid = i then uint amt else 0) (payouts r))"

definition paid_on :: "claim_registry \<Rightarrow> uint256 \<Rightarrow> int" where
  "paid_on r p = sum_list (map (paid_for r) (policyClaims r p))"

definition reserve :: "claim_struct \<Rightarrow> int" where
  "reserve c = (if c_status c = St_Rejected then 0 else uint (c_amount c))"

definition reserved :: "claim_registry \<Rightarrow> uint256 \<Rightarrow> int" where
  "reserved r p = sum_list (map (\<lambda>i. reserve (claim_at r i)) (policyClaims r p))"

lemma map_filter_append: "List.map_filter f (xs @ ys) = List.map_filter f xs @ List.map_filter f ys"
  by (simp add: List.map_filter_def)

lemma payouts_emit:
  "payouts (emit_registry l r) = payouts r @ (case payout_of l of None \<Rightarrow> [] | Some x \<Rightarrow> [x])"
  by (simp add: payouts_def map_filter_append List.map_filter_simps split: option.split)

lemma payouts_cong: "registry_logs u = registry_logs r \<Longrightarrow> payouts u = payouts r"
  by (simp add: payouts_def)

lemma administration_pays_nothing: "\<not> is_claim_log l \<Longrightarrow> payout_of l = None"
  by (cases l) auto

lemma consumed_loop_sum:
  "consumed_loop cl ids acc = Inr used \<Longrightarrow>
     uint used = uint acc + sum_list (map (\<lambda>i. reserve (cl i)) ids)"
proof (induction ids arbitrary: acc)
  case (Cons i ids)
  then show ?case
    by (auto simp: sol_defs reserve_def uint_ucast_up uint_checked_add split: if_splits)
qed simp

lemma consumedCoverage_reserved: "consumedCoverage p r = Inr used \<Longrightarrow> uint used = reserved r p"
  by (simp add: consumedCoverage_def reserved_def consumed_loop_sum)

text \<open>A single claim that changes, and what it reserves does not grow.\<close>

lemma reserved_mono:
  assumes "policyClaims u = policyClaims r" and "claim_at u = (claim_at r)(cid := c)"
    and "reserve c \<le> reserve (claim_at r cid)"
  shows "reserved u p \<le> reserved r p"
  unfolding reserved_def assms(1) using assms(2,3) by (intro sum_list_mono) auto

lemma reserved_submit:
  assumes "\<And>p. nextClaimId r \<notin> set (policyClaims r p)"
  shows "reserved (store_claim t (nextClaimId r) pid mroot amt (r\<lparr>nextClaimId := n\<rparr>)) p =
     (if p = pid then reserved r p + uint (ucast amt :: uint96) else reserved r p)"
proof -
  let ?u = "store_claim t (nextClaimId r) pid mroot amt (r\<lparr>nextClaimId := n\<rparr>)"
  have "sum_list (map (\<lambda>i. reserve (claim_at ?u i)) (policyClaims r p)) = reserved r p" for p
    unfolding reserved_def using assms [of p]
    by (intro arg_cong [where f = sum_list] map_cong) (auto simp: store_claim_def)
  moreover have "policyClaims ?u = (policyClaims r)(pid := policyClaims r pid @ [nextClaimId r])"
    "reserve (claim_at ?u (nextClaimId r)) = uint (ucast amt :: uint96)"
    by (simp_all add: store_claim_def reserve_def)
  ultimately show ?thesis by (simp add: reserved_def [of ?u])
qed

section \<open>Coverage\<close>

text \<open>
  A history decides every claim once: neither the underwriters nor the oracle move a claim that is paid
  or rejected. The coverage a submission meets is bounded by \<open>cov\<close>, policy by policy.
\<close>

definition undecided :: "claim_registry \<Rightarrow> uint256 \<Rightarrow> bool" where
  "undecided r cid \<longleftrightarrow> c_status (claim_at r cid) \<noteq> St_Paid \<and> c_status (claim_at r cid) \<noteq> St_Rejected"

definition decided_once ::
  "(uint256 \<Rightarrow> int) \<Rightarrow> policy_code \<times> tx \<times> registry_call \<Rightarrow> claim_registry \<Rightarrow> bool" where
  "decided_once cov c r \<longleftrightarrow> from_somebody c r \<and> (case c of (P, t, call) \<Rightarrow> (case call of
       Call_submitClaim pid mroot amt \<Rightarrow> (case P (policyRegistry r) of None \<Rightarrow> True
         | Some s \<Rightarrow> uint (p_coverageAmount (policies s pid)) \<le> cov pid)
     | Call_setClaimStatus cid st \<Rightarrow> undecided r cid
     | Call_recordOracleVerification cid rid approved \<Rightarrow> undecided r cid
     | _ \<Rightarrow> True))"

definition within_coverage :: "(uint256 \<Rightarrow> int) \<Rightarrow> claim_registry \<Rightarrow> bool" where
  "within_coverage cov r \<longleftrightarrow> registry_inv r \<and> accounted r \<and> (\<forall>p. reserved r p \<le> cov p) \<and>
     (\<forall>i. paid_for r i \<le> (if c_status (claim_at r i) = St_Paid then uint (c_amount (claim_at r i)) else 0))"

lemma paid_for_emit: "paid_for (emit_registry l r) i = paid_for r i + (case payout_of l of None \<Rightarrow> 0
     | Some (cid, dest, amt) \<Rightarrow> if cid = i then uint amt else 0)"
  by (simp add: paid_for_def payouts_emit split: option.split)

lemma paid_for_cong: "registry_logs u = registry_logs r \<Longrightarrow> paid_for u = paid_for r"
  by (simp add: fun_eq_iff paid_for_def payouts_def)

lemma paid_within_reserved:
  assumes "within_coverage cov r"
  shows "paid_on r p \<le> reserved r p"
  unfolding paid_on_def reserved_def
proof (rule sum_list_mono)
  fix i
  have "paid_for r i \<le> (if c_status (claim_at r i) = St_Paid then uint (c_amount (claim_at r i)) else 0)"
    using assms by (simp add: within_coverage_def)
  then show "paid_for r i \<le> reserve (claim_at r i)" by (auto simp: reserve_def split: if_splits intro: order_trans)
qed

text \<open>Every call of such a history keeps the account and the coverage.\<close>

lemma accounted_extend:
  assumes "accounted r" and "payoutToken u = payoutToken r"
    and "\<And>i. live r i \<Longrightarrow> live u i \<and> c_claimant (claim_at u i) = c_claimant (claim_at r i) \<and>
      c_amount (claim_at u i) = c_amount (claim_at r i)"
    and "payouts u = payouts r @ ps" and "registry_calls u = registry_calls r @ calls"
    and "filter (spends (payoutToken r)) calls =
      map (\<lambda>(cid, dest, amt). SafeTransfer (payoutToken r) dest amt) ps"
    and "\<And>cid dest amt. (cid, dest, amt) \<in> set ps \<Longrightarrow> live r cid \<and>
      dest = c_claimant (claim_at r cid) \<and> amt = ucast (c_amount (claim_at r cid))"
  shows "accounted u"
proof -
  have "live u cid \<and> dest = c_claimant (claim_at u cid) \<and> amt = ucast (c_amount (claim_at u cid))"
    if "(cid, dest, amt) \<in> set (payouts u)" for cid dest amt
  proof -
    have "live r cid \<and> dest = c_claimant (claim_at r cid) \<and> amt = ucast (c_amount (claim_at r cid))"
      using that assms(1,4,7) by (auto simp: accounted_def)
    with assms(3) [of cid] show ?thesis by simp
  qed
  moreover have "filter (spends (payoutToken u))
      (registry_calls u) = map (\<lambda>(cid, dest, amt). SafeTransfer (payoutToken u) dest amt) (payouts u)"
    using assms(1,2,4-6) by (simp add: accounted_def)
  ultimately show ?thesis by (auto simp: accounted_def)
qed

lemma accounted_dead:
  assumes "accounted r" and "\<not> live r i"
  shows "paid_for r i = 0"
proof -
  have "map (\<lambda>(cid, dest, amt). if cid = i then uint amt else 0) (payouts r) = map (\<lambda>_. 0) (payouts r)"
    using assms by (intro map_cong) (auto simp: accounted_def)
  from this show ?thesis unfolding paid_for_def by (simp only:) simp
qed

lemma store_claim_fields:
  "payouts (store_claim t cid pid mroot amt (r\<lparr>nextClaimId := n\<rparr>)) = payouts r"
  "registry_calls (store_claim t cid pid mroot amt (r\<lparr>nextClaimId := n\<rparr>)) = registry_calls r"
  "payoutToken (store_claim t cid pid mroot amt (r\<lparr>nextClaimId := n\<rparr>)) = payoutToken r"
  "i \<noteq> cid \<Longrightarrow> claim_at (store_claim t cid pid mroot amt (r\<lparr>nextClaimId := n\<rparr>)) i = claim_at r i"
  "c_status (claim_at (store_claim t cid pid mroot amt (r\<lparr>nextClaimId := n\<rparr>)) cid) = St_Submitted"
  by (simp_all add: store_claim_def payouts_emit) (simp add: payouts_def)

lemma paid_for_payouts: "payouts u = payouts r \<Longrightarrow> paid_for u i = paid_for r i"
  by (simp add: paid_for_def)

lemma submit_within_coverage:
  assumes cov: "within_coverage cov r" and inv: "registry_inv u"
    and allowed: "decided_once cov (P, t, Call_submitClaim pid mroot amt) r"
    and run: "submitClaim P t pid mroot amt r = Inr (cid, u)"
  shows "within_coverage cov u"
proof -
  obtain s used where s: "P (policyRegistry r) = Some s" "consumedCoverage pid r = Inr used"
      "uint used + uint amt \<le> uint (p_coverageAmount (policies s pid))" and cid: "cid = nextClaimId r"
    and u: "u = store_claim t cid pid mroot amt (r\<lparr>nextClaimId := cid + 1\<rparr>)"
    using run by (rule submitClaim_Inr)
  have dead: "\<not> live r cid" using cov cid by (simp add: within_coverage_def registry_inv_def)
  then have fresh: "nextClaimId r \<notin> set (policyClaims r p)" for p
    using cov cid by (auto simp: within_coverage_def registry_inv_def)
  have acc: "accounted r" using cov by (simp add: within_coverage_def)
  have other: "i \<noteq> cid" if "live r i" for i using that dead by auto
  have "accounted u"
    by (rule accounted_extend [OF acc, where ps = "[]" and calls = "[]"])
      (simp_all add: u store_claim_fields other live_def)
  moreover have "reserved u p \<le> cov p" for p
  proof -
    have "reserved r pid + uint amt \<le> cov pid"
      using s allowed consumedCoverage_reserved [OF s(2)] by (simp add: decided_once_def)
    moreover have "uint (ucast amt :: uint96) \<le> uint amt" by (rule uint_ucast_le)
    ultimately have "reserved r pid + uint (ucast amt :: uint96) \<le> cov pid" by linarith
    then show ?thesis
      unfolding u cid reserved_submit [OF fresh] using cov by (auto simp: within_coverage_def)
  qed
  moreover have "paid_for u i \<le> (if c_status (claim_at u i) = St_Paid then uint (c_amount (claim_at u i)) else 0)" for i
  proof (cases "i = cid")
    case True
    then show ?thesis
      using accounted_dead [OF acc dead] paid_for_payouts [of u r cid] by (simp add: u store_claim_fields)
  next
    case False
    then have same: "claim_at u i = claim_at r i" by (simp add: u store_claim_fields)
    have "paid_for u i = paid_for r i" by (rule paid_for_payouts) (simp add: u store_claim_fields)
    then show ?thesis unfolding same using cov by (simp add: within_coverage_def)
  qed
  ultimately show ?thesis using inv by (simp add: within_coverage_def)
qed

lemma decide_within_coverage:
  assumes cov: "within_coverage cov r" and inv: "registry_inv u" and pending: "undecided r cid"
    and c': "c_claimant c' = c_claimant (claim_at r cid)" "c_amount c' = c_amount (claim_at r cid)"
    and u: "u = emit_registry (EmitClaimStatusChanged cid st)
         (r\<lparr>claim_at := (claim_at r)(cid := c'), usedOracleRequestIds := used\<rparr>)"
  shows "within_coverage cov u"
proof -
  have paid: "payouts u = payouts r" by (simp add: u payouts_emit) (simp add: payouts_def)
  have acc: "accounted r" using cov by (simp add: within_coverage_def)
  have "accounted u"
    by (rule accounted_extend [OF acc, where ps = "[]" and calls = "[]"])
      (auto simp: u paid [unfolded u] live_def c')
  moreover have "reserved u p \<le> cov p" for p
  proof -
    have "reserve c' \<le> reserve (claim_at r cid)" using pending c' by (simp add: reserve_def undecided_def)
    then have "reserved u p \<le> reserved r p" by (intro reserved_mono [where cid = cid]) (simp_all add: u)
    then show ?thesis using cov by (auto simp: within_coverage_def intro: order_trans)
  qed
  moreover have "paid_for u i \<le> (if c_status (claim_at u i) = St_Paid then uint (c_amount (claim_at u i)) else 0)" for i
  proof -
    have r: "paid_for r i \<le> (if c_status (claim_at r i) = St_Paid then uint (c_amount (claim_at r i)) else 0)"
      using cov by (simp add: within_coverage_def)
    show ?thesis
    proof (cases "i = cid")
      case True
      then have "paid_for r i \<le> 0" using r pending by (simp add: undecided_def)
      then show ?thesis by (auto simp: paid_for_payouts [OF paid] intro: order_trans)
    next
      case False
      then have "claim_at u i = claim_at r i" by (simp add: u)
      then show ?thesis using r by (simp only: paid_for_payouts [OF paid])
    qed
  qed
  ultimately show ?thesis using inv by (simp add: within_coverage_def)
qed

lemma pay_within_coverage:
  assumes cov: "within_coverage cov r" and inv: "registry_inv u"
    and claim: "c_claimant (claim_at r cid) \<noteq> 0" "c_status (claim_at r cid) = St_Approved"
    and l: "payout_of l = Some (cid, c_claimant (claim_at r cid), ucast (c_amount (claim_at r cid)))"
    and u: "u = emit_registry l (r\<lparr>windowStart := start, windowTotalPaid := tot,
         claim_at := (claim_at r)(cid := (claim_at r cid)\<lparr>c_status := St_Paid, c_processedAt := now\<rparr>),
         registry_calls := registry_calls r @
           [SafeTransfer (payoutToken r) (c_claimant (claim_at r cid)) (ucast (c_amount (claim_at r cid)))]\<rparr>)"
  shows "within_coverage cov u"
proof -
  have paid: "payouts u = payouts r @ [(cid, c_claimant (claim_at r cid), ucast (c_amount (claim_at r cid)))]"
    by (simp add: u payouts_emit l) (simp add: payouts_def)
  have acc: "accounted r" using cov by (simp add: within_coverage_def)
  have "accounted u"
    by (rule accounted_extend [OF acc _ _ paid, where calls = "[SafeTransfer (payoutToken r)
          (c_claimant (claim_at r cid)) (ucast (c_amount (claim_at r cid)))]"])
      (use claim in \<open>auto simp: u live_def\<close>)
  moreover have "reserved u p \<le> cov p" for p
  proof -
    have "reserved u p \<le> reserved r p"
      by (rule reserved_mono [where cid = cid and
            c = "(claim_at r cid)\<lparr>c_status := St_Paid, c_processedAt := now\<rparr>"])
        (use claim in \<open>simp_all add: u reserve_def\<close>)
    then show ?thesis using cov by (auto simp: within_coverage_def intro: order_trans)
  qed
  moreover have "paid_for u i \<le> (if c_status (claim_at u i) = St_Paid then uint (c_amount (claim_at u i)) else 0)" for i
  proof -
    have "paid_for u i = paid_for r i + (if cid = i then uint (c_amount (claim_at r cid)) else 0)"
      unfolding paid_for_def paid by (simp add: uint_ucast_up)
    moreover have "paid_for r i \<le> (if c_status (claim_at r i) = St_Paid then uint (c_amount (claim_at r i)) else 0)"
      using cov by (simp add: within_coverage_def)
    ultimately show ?thesis using claim(2) by (auto simp: u split: if_splits)
  qed
  ultimately show ?thesis using inv by (simp add: within_coverage_def)
qed

lemma administer_within_coverage:
  assumes cov: "within_coverage cov r" and inv: "registry_inv u" and "\<not> is_claim_log l" and same: "same_claims r u"
    and logs: "registry_logs u = registry_logs r @ [l]" and calls: "registry_calls u = registry_calls r @ calls"
    and foreign: "\<forall>x\<in>set calls. \<exists>tok dest amt. x = SafeTransfer tok dest amt \<and> tok \<noteq> payoutToken r"
  shows "within_coverage cov u"
proof -
  have paid: "payouts u = payouts r"
    using administration_pays_nothing [OF assms(3)]
    by (simp add: payouts_def logs map_filter_append List.map_filter_simps)
  have claims: "claim_at u = claim_at r" "policyClaims u = policyClaims r"
    using same by (simp_all add: same_claims_def)
  have acc: "accounted r" using cov by (simp add: within_coverage_def)
  have "filter (spends (payoutToken r)) calls = []"
    using foreign by (auto simp: filter_empty_conv)
  then have "accounted u"
    by (intro accounted_extend [OF acc _ _ _ calls, where ps = "[]"])
      (use same claims paid in \<open>auto simp: same_claims_def live_def\<close>)
  moreover have "reserved u = reserved r" by (simp add: fun_eq_iff reserved_def claims)
  moreover have "paid_for u = paid_for r" using paid_for_payouts [OF paid] by (simp add: fun_eq_iff)
  ultimately show ?thesis using cov inv unfolding within_coverage_def claims by simp
qed

lemma registry_call_keeps_coverage:
  assumes cov: "within_coverage cov r" and ok: "decided_once cov c r" and run: "registry_exec c r = Inr u"
  shows "within_coverage cov u"
proof -
  have inv: "registry_inv u"
    using registry_call_keeps_inv [OF _ _ run] cov ok by (simp add: within_coverage_def decided_once_def)
  from run show ?thesis
  proof (cases rule: registry_call_cases)
    case (submits P t pid mroot amt cid)
    then show ?thesis using submit_within_coverage [OF cov inv] ok by blast
  next
    case (decides P t cid st rid approved c' used)
    then have "undecided r cid" using ok by (auto simp: decided_once_def)
    then show ?thesis using decide_within_coverage [OF cov inv _ decides(4,5,9)] by blast
  next
    case (pays P t cid l tot start)
    then show ?thesis by (intro pay_within_coverage [OF cov inv pays(2,3) _ pays(4)]) auto
  next
    case (administers l calls)
    then show ?thesis by (rule administer_within_coverage [OF cov inv])
  qed
qed

interpretation coverage: call_invariant registry_exec "within_coverage cov" "decided_once cov" for cov
  by unfold_locales (rule registry_call_keeps_coverage)

lemma initialize_within_coverage:
  assumes "registry_initialize t tok registry a b c blank_registry = Inr r" and "\<And>p. 0 \<le> cov p"
  shows "within_coverage cov r"
  using initialize_inv [OF assms(1)] assms
  by (auto simp: within_coverage_def registry_initialize_def sol_defs blank_registry_def accounted_def
      payouts_def List.map_filter_simps reserved_def paid_for_def)

end
