(* ===== verification/Oracle_Adapter.thy ===== *)
theory Oracle_Adapter
  imports Registry_Ledger Js_Values
begin

text \<open>
  \<^verbatim>\<open>src/smart-contracts/contracts/OracleAdapter.sol\<close>: the contract that checks an attestation of the
  oracle and forwards it to the claim registry. The typed-data hash is computed as the contract and the
  library it extends do (EIP-712); the hash function and the recovery of a signer are parameters.
\<close>

section \<open>State\<close>

record oracle_response =
  rs_claimId :: uint256
  rs_requestId :: bytes32
  rs_approved :: bool
  rs_timestamp :: uint256

datatype adapter_log =
    EmitVerificationSubmitted uint256 bytes32 bool address
  | EmitClaimRegistryUpdated address
  | EmitResponseValidityWindowUpdated uint256
  | EmitAdapterPaused address
  | EmitAdapterUnpaused address

record oracle_adapter =
  adapter_registry :: address
  responseValidityWindow :: uint256
  usedRequestIds :: "bytes32 \<Rightarrow> bool"
  eip712Name :: string
  eip712Version :: string
  adapter_paused :: bool
  adapter_initialized :: bool
  adapter_logs :: "adapter_log list"

text \<open>
  The environment of a call: the chain, the address of the adapter itself, the curve, and the role table
  of the registry, which is not the adapter's own.
\<close>

record evm =
  chainid :: uint256
  adapter_self :: address
  evm_keccak256 :: "buffer \<Rightarrow> bytes32"
  ecdsa_recover :: "bytes32 \<Rightarrow> buffer \<Rightarrow> address sol"
  registry_roles :: "string \<Rightarrow> address \<Rightarrow> bool"

definition blank_adapter :: oracle_adapter where
  "blank_adapter = \<lparr>adapter_registry = 0, responseValidityWindow = 0, usedRequestIds = (\<lambda>_. False),
     eip712Name = [], eip712Version = [], adapter_paused = False, adapter_initialized = False,
     adapter_logs = []\<rparr>"

definition emit_adapter :: "adapter_log \<Rightarrow> oracle_adapter \<Rightarrow> oracle_adapter" where
  "emit_adapter l a = a\<lparr>adapter_logs := adapter_logs a @ [l]\<rparr>"

definition adapter_initialize :: "address \<Rightarrow> uint256 \<Rightarrow> oracle_adapter \<Rightarrow> oracle_adapter sol" where
  "adapter_initialize registry window a = initializer (adapter_initialized a)
     (Inr (a\<lparr>eip712Name := ''DICS-OracleAdapter'', eip712Version := ''1'', adapter_registry := registry,
        responseValidityWindow := window, adapter_initialized := True\<rparr>))"

section \<open>Typed data\<close>

definition literal_bytes :: "string \<Rightarrow> buffer" where
  "literal_bytes s = map of_char s"

text \<open>One word of \<^verbatim>\<open>abi.encode\<close>: 32 bytes, the most significant first.\<close>

definition abi_word :: "uint256 \<Rightarrow> buffer" where
  "abi_word w = map (\<lambda>i. ucast (drop_bit (8 * (31 - i)) w)) [0..<32]"

definition ORACLE_RESPONSE_TYPEHASH :: "evm \<Rightarrow> bytes32" where
  "ORACLE_RESPONSE_TYPEHASH K = evm_keccak256 K
     (literal_bytes ''OracleResponse(uint256 claimId,bytes32 requestId,bool approved,uint256 timestamp)'')"

definition structHash :: "evm \<Rightarrow> oracle_response \<Rightarrow> bytes32" where
  "structHash K response = evm_keccak256 K (abi_word (ORACLE_RESPONSE_TYPEHASH K) @
     abi_word (rs_claimId response) @ abi_word (rs_requestId response) @
     abi_word (of_bool (rs_approved response)) @ abi_word (rs_timestamp response))"

text \<open>The domain separator and the digest of the library's EIP712 contract, by its documentation.\<close>

definition domainSeparatorV4 :: "evm \<Rightarrow> oracle_adapter \<Rightarrow> bytes32" where
  "domainSeparatorV4 K a = evm_keccak256 K (abi_word (evm_keccak256 K (literal_bytes
       ''EIP712Domain(string name,string version,uint256 chainId,address verifyingContract)'')) @
     abi_word (evm_keccak256 K (literal_bytes (eip712Name a))) @
     abi_word (evm_keccak256 K (literal_bytes (eip712Version a))) @
     abi_word (chainid K) @ abi_word (ucast (adapter_self K)))"

definition hashTypedDataV4 :: "evm \<Rightarrow> oracle_adapter \<Rightarrow> bytes32 \<Rightarrow> bytes32" where
  "hashTypedDataV4 K a h = evm_keccak256 K ([0x19, 0x01] @ abi_word (domainSeparatorV4 K a) @ abi_word h)"

section \<open>Verification and relay\<close>

text \<open>The adapter and the registries of the chain, by address.\<close>

type_synonym relay_state = "oracle_adapter \<times> (address \<Rightarrow> claim_registry option)"

definition submitVerification ::
  "evm \<Rightarrow> tx \<Rightarrow> oracle_response \<Rightarrow> buffer \<Rightarrow> relay_state \<Rightarrow> relay_state sol" where
  "submitVerification K t response signature = (\<lambda>(a, regs). whenNotPaused (adapter_paused a)
     (revert_if (usedRequestIds a (rs_requestId response)) ''RequestAlreadyUsed''
     (revert_if (block_timestamp t < rs_timestamp response) ''ResponseFromFuture''
     (bind_r (checked_add (rs_timestamp response) (responseValidityWindow a)) (\<lambda>limit.
      revert_if (limit < block_timestamp t) ''ResponseExpired''
     (bind_r (ecdsa_recover K (hashTypedDataV4 K a (structHash K response)) signature) (\<lambda>signer.
      revert_if (\<not> hasRole t ''ORACLE_SIGNER_ROLE'' signer) ''UnauthorizedSigner''
     (let a1 = a\<lparr>usedRequestIds := (usedRequestIds a)(rs_requestId response := True)\<rparr> in
      case regs (adapter_registry a1) of
        None \<Rightarrow> Inl (Bubbled ''call to non-contract'')
      | Some r \<Rightarrow>
          bind_r (recordOracleVerification
            (t\<lparr>msg_sender := adapter_self K, hasRole := registry_roles K\<rparr>)
            (rs_claimId response) (rs_requestId response) (rs_approved response) r) (\<lambda>r1.
          Inr (emit_adapter (EmitVerificationSubmitted (rs_claimId response) (rs_requestId response)
                 (rs_approved response) signer) a1,
               regs(adapter_registry a1 \<mapsto> r1)))))))))))"

section \<open>Administration\<close>

definition setClaimRegistry :: "tx \<Rightarrow> address \<Rightarrow> oracle_adapter \<Rightarrow> oracle_adapter sol" where
  "setClaimRegistry t registry a = onlyRole t ''ADMIN_ROLE''
     (Inr (emit_adapter (EmitClaimRegistryUpdated registry) (a\<lparr>adapter_registry := registry\<rparr>)))"

definition setResponseValidityWindow :: "tx \<Rightarrow> uint256 \<Rightarrow> oracle_adapter \<Rightarrow> oracle_adapter sol" where
  "setResponseValidityWindow t secs a = onlyRole t ''ADMIN_ROLE''
     (Inr (emit_adapter (EmitResponseValidityWindowUpdated secs) (a\<lparr>responseValidityWindow := secs\<rparr>)))"

definition adapter_pause :: "tx \<Rightarrow> oracle_adapter \<Rightarrow> oracle_adapter sol" where
  "adapter_pause t a = onlyRole t ''PAUSER_ROLE'' (whenNotPaused (adapter_paused a)
     (Inr (emit_adapter (EmitAdapterPaused (msg_sender t)) (a\<lparr>adapter_paused := True\<rparr>))))"

definition adapter_unpause :: "tx \<Rightarrow> oracle_adapter \<Rightarrow> oracle_adapter sol" where
  "adapter_unpause t a = onlyRole t ''ADMIN_ROLE'' (whenPaused (adapter_paused a)
     (Inr (emit_adapter (EmitAdapterUnpaused (msg_sender t)) (a\<lparr>adapter_paused := False\<rparr>))))"

definition oracleResponseTypehash :: "evm \<Rightarrow> bytes32" where
  "oracleResponseTypehash K = ORACLE_RESPONSE_TYPEHASH K"

datatype adapter_call =
    Call_submitVerification oracle_response buffer
  | Call_setClaimRegistry address
  | Call_setResponseValidityWindow uint256
  | Call_adapter_pause
  | Call_adapter_unpause

definition on_adapter :: "(oracle_adapter \<Rightarrow> oracle_adapter sol) \<Rightarrow> relay_state \<Rightarrow> relay_state sol" where
  "on_adapter f = (\<lambda>(a, regs). bind_r (f a) (\<lambda>a1. Inr (a1, regs)))"

fun adapter_exec :: "evm \<times> tx \<times> adapter_call \<Rightarrow> relay_state \<Rightarrow> relay_state sol" where
  "adapter_exec (K, t, Call_submitVerification response signature) s =
     submitVerification K t response signature s"
| "adapter_exec (K, t, Call_setClaimRegistry registry) s = on_adapter (setClaimRegistry t registry) s"
| "adapter_exec (K, t, Call_setResponseValidityWindow secs) s =
     on_adapter (setResponseValidityWindow t secs) s"
| "adapter_exec (K, t, Call_adapter_pause) s = on_adapter (adapter_pause t) s"
| "adapter_exec (K, t, Call_adapter_unpause) s = on_adapter (adapter_unpause t) s"

section \<open>An attestation is used once\<close>

lemma submitVerification_Inr:
  assumes "submitVerification K t response signature (a, regs) = Inr (a', regs')"
  obtains signer r r' where "\<not> adapter_paused a" and "\<not> usedRequestIds a (rs_requestId response)"
    and "rs_timestamp response \<le> block_timestamp t"
    and "uint (block_timestamp t) \<le> uint (rs_timestamp response) + uint (responseValidityWindow a)"
    and "ecdsa_recover K (hashTypedDataV4 K a (structHash K response)) signature = Inr signer"
    and "hasRole t ''ORACLE_SIGNER_ROLE'' signer" and "regs (adapter_registry a) = Some r"
    and "recordOracleVerification (t\<lparr>msg_sender := adapter_self K, hasRole := registry_roles K\<rparr>)
          (rs_claimId response) (rs_requestId response) (rs_approved response) r = Inr r'"
    and "a' = emit_adapter (EmitVerificationSubmitted (rs_claimId response) (rs_requestId response)
          (rs_approved response) signer)
        (a\<lparr>usedRequestIds := (usedRequestIds a)(rs_requestId response := True)\<rparr>)"
    and "regs' = regs(adapter_registry a \<mapsto> r')"
proof -
  obtain signer r r' where rest: "\<not> adapter_paused a" "\<not> usedRequestIds a (rs_requestId response)"
      "\<not> block_timestamp t < rs_timestamp response"
      "uint (rs_timestamp response) + uint (responseValidityWindow a) < 2 ^ 256"
      "\<not> rs_timestamp response + responseValidityWindow a < block_timestamp t"
      "ecdsa_recover K (hashTypedDataV4 K a (structHash K response)) signature = Inr signer"
      "hasRole t ''ORACLE_SIGNER_ROLE'' signer" "regs (adapter_registry a) = Some r"
      "recordOracleVerification (t\<lparr>msg_sender := adapter_self K, hasRole := registry_roles K\<rparr>)
          (rs_claimId response) (rs_requestId response) (rs_approved response) r = Inr r'"
      "a' = emit_adapter (EmitVerificationSubmitted (rs_claimId response) (rs_requestId response)
          (rs_approved response) signer)
        (a\<lparr>usedRequestIds := (usedRequestIds a)(rs_requestId response := True)\<rparr>)"
      "regs' = regs(adapter_registry a \<mapsto> r')"
    using assms unfolding submitVerification_def Let_def
    by (auto simp: sol_defs split: option.splits)
  moreover have "uint (block_timestamp t) \<le> uint (rs_timestamp response) + uint (responseValidityWindow a)"
    using rest(4,5) by (simp add: word_less_def uint_checked_add)
  ultimately show thesis using that by (simp add: not_less)
qed

definition adapter_used :: "bytes32 \<Rightarrow> relay_state \<Rightarrow> bool" where
  "adapter_used rid s \<longleftrightarrow> usedRequestIds (fst s) rid"

lemma adapter_call_keeps_used:
  assumes "adapter_used rid s" and "adapter_exec c s = Inr u"
  shows "adapter_used rid u"
proof -
  obtain K t call where c: "c = (K, t, call)" by (cases c)
  obtain a regs where s: "s = (a, regs)" by (cases s)
  obtain a' regs' where u: "u = (a', regs')" by (cases u)
  show ?thesis
  proof (cases call)
    case (Call_submitVerification response signature)
    with assms c s u have "submitVerification K t response signature (a, regs) = Inr (a', regs')" by simp
    then show ?thesis
      by (rule submitVerification_Inr) (use assms(1) s u in \<open>simp add: adapter_used_def emit_adapter_def\<close>)
  qed (use assms c s u in \<open>auto simp: on_adapter_def setClaimRegistry_def setResponseValidityWindow_def
      adapter_pause_def adapter_unpause_def sol_defs emit_adapter_def adapter_used_def\<close>)
qed

interpretation spent: call_invariant adapter_exec "adapter_used rid" "\<lambda>c s. True" for rid
  by unfold_locales (rule adapter_call_keeps_used)

lemma used_request_reverts:
  "usedRequestIds (fst s) (rs_requestId response) \<Longrightarrow> \<exists>e. submitVerification K t response signature s = Inl e"
  by (cases s) (simp add: submitVerification_def whenNotPaused_def revert_if_def)

end
