(* ===== verification/Contract_Properties.thy ===== *)
theory Contract_Properties
  imports Oracle_Adapter
begin

text \<open>
  What the contracts promise on their own: the registry stays well formed and, as long as a claim is decided
  once, never pays more than the coverage; a subscription can be claimed on; what a second decision and an
  amount above 96 bits do.
\<close>

section \<open>Deployed contracts\<close>

text \<open>The state of a registry after its initializer and a history of calls.\<close>

definition registry_after ::
  "tx \<Rightarrow> address \<Rightarrow> address \<Rightarrow> uint256 \<Rightarrow> uint256 \<Rightarrow> uint256 \<Rightarrow> (policy_code \<times> tx \<times> registry_call) list \<Rightarrow>
     claim_registry" where
  "registry_after t tok registry perClaim perWindow secs cs =
     (case registry_initialize t tok registry perClaim perWindow secs blank_registry of
        Inl e \<Rightarrow> blank_registry | Inr r \<Rightarrow> run_calls registry_exec cs r)"

lemma registry_after_run:
  obtains r where "registry_initialize t tok registry a b c blank_registry = Inr r"
    and "registry_after t tok registry a b c cs = run_calls registry_exec cs r"
  by (simp add: registry_after_def registry_initialize_def initializer_def blank_registry_def)

lemma registry_after_append:
  "registry_after t tok registry a b c cs = run_calls registry_exec cs (registry_after t tok registry a b c [])"
  by (simp add: registry_after_def registry_initialize_def initializer_def blank_registry_def)

section \<open>Well-formed registries\<close>

text \<open>
  C10 (type). However it is called, as long as every call has a sender, the claim registry stays well formed:
  the claims are exactly those with the identifiers from 1 up to the next one to be given, each of them has
  its own identifier in it and stands, once, in the list of exactly one policy, and its policy identifier is
  that policy's, cut to 128 bits.
\<close>

theorem registry_stays_well_formed:
  assumes "\<And>P t c. (P, t, c) \<in> set cs \<Longrightarrow> msg_sender t \<noteq> 0"
  shows "let r = registry_after t tok registry a b c cs in
     \<forall>i. (c_claimant (claim_at r i) \<noteq> 0 \<longleftrightarrow> 0 < uint i \<and> uint i < uint (nextClaimId r)) \<and>
       (c_claimant (claim_at r i) \<noteq> 0 \<longrightarrow> c_claimId (claim_at r i) = ucast i \<and>
         (\<exists>!p. i \<in> set (getClaimsForPolicy p r)) \<and>
         (\<forall>p. i \<in> set (getClaimsForPolicy p r) \<longrightarrow> c_policyId (claim_at r i) = ucast p \<and>
            distinct (getClaimsForPolicy p r)))"
proof -
  have "all_allowed registry_exec from_somebody cs r" for r
    using assms by (intro all_allowed_if) (auto simp: from_somebody_def)
  moreover obtain r where "registry_initialize t tok registry a b c blank_registry = Inr r"
    and "registry_after t tok registry a b c cs = run_calls registry_exec cs r"
    by (rule registry_after_run)
  ultimately have "registry_inv (registry_after t tok registry a b c cs)"
    using initialize_inv ledger.history_keeps by metis
  then show ?thesis
    by (simp add: registry_inv_def live_def getClaimsForPolicy_def Let_def)
qed

section \<open>Payments and coverage\<close>

text \<open>
  C4 (bounds). The insurer never pays more on a policy than it covers, as long as no call moves a claim
  that is already paid or rejected: after any history from the initializer on, the payouts that went to the
  claims of a policy, through either of the two paying functions, sum up to at most the largest coverage a
  submission found for it, and the transfers of the payout token are exactly the logged payouts, each one
  to the claimant of its claim.
\<close>

theorem payments_within_coverage:
  assumes "\<And>p. 0 \<le> cov p"
    and "all_allowed registry_exec (decided_once cov) cs (registry_after t tok registry a b c [])"
  shows "paid_on (registry_after t tok registry a b c cs) p \<le> cov p \<and>
     accounted (registry_after t tok registry a b c cs)"
proof -
  let ?r = "registry_after t tok registry a b c cs"
  have "within_coverage cov (registry_after t tok registry a b c [])"
    using initialize_within_coverage [where cov = cov] assms(1)
    by (rule_tac registry_after_run [of t tok registry a b c "[]"]) auto
  from coverage.history_keeps [OF this assms(2)] have cov: "within_coverage cov ?r"
    by (simp only: registry_after_append [symmetric])
  then have "reserved ?r p \<le> cov p" "accounted ?r" by (auto simp: within_coverage_def)
  with paid_within_reserved [OF cov, of p] show ?thesis by simp
qed

section \<open>A decision after the decision\<close>

lemma setClaimStatus_approves:
  assumes "\<not> registry_paused r" and "hasRole t ''UNDERWRITER_ROLE'' (msg_sender t)"
    and "c_claimant (claim_at r cid) \<noteq> 0"
  shows "setClaimStatus t cid St_Approved r = Inr (emit_registry (EmitClaimStatusChanged cid St_Approved)
     (r\<lparr>claim_at := (claim_at r)(cid := (claim_at r cid)\<lparr>c_status := St_Approved,
        c_processedAt := ucast (block_timestamp t)\<rparr>)\<rparr>))"
  using assms by (simp add: setClaimStatus_def sol_defs Let_def set_claim_def)

lemma enforceRateLimit_allows:
  assumes "uint (windowStart r) + uint (rateLimitWindowSeconds r) < 2 ^ 256"
    and "uint (windowTotalPaid r) + uint amt \<le> uint (maxPayoutPerWindow r)"
  obtains tot start where
    "enforceRateLimit t amt r = Inr (r\<lparr>windowStart := start, windowTotalPaid := tot\<rparr>)"
proof -
  let ?r1 = "if windowStart r + rateLimitWindowSeconds r \<le> block_timestamp t
     then r\<lparr>windowStart := block_timestamp t, windowTotalPaid := 0\<rparr> else r"
  have le: "uint (windowTotalPaid ?r1) + uint amt \<le> uint (maxPayoutPerWindow r)"
    using assms(2) by (auto intro: order_trans [rotated])
  have lt: "uint (windowTotalPaid ?r1) + uint amt < 2 ^ 256"
    using le_less_trans [OF le uint_lt2p] by simp
  have "\<not> maxPayoutPerWindow r < windowTotalPaid ?r1 + amt"
    using le lt by (simp add: word_less_def uint_checked_add del: split_paired_All)
  then have "enforceRateLimit t amt r = Inr (?r1\<lparr>windowTotalPaid := windowTotalPaid ?r1 + amt\<rparr>)"
    using assms(1) lt by (auto simp: enforceRateLimit_def sol_defs Let_def)
  then show thesis
    by (intro that [of "windowTotalPaid ?r1 + amt" "windowStart ?r1"]) (auto intro!: claim_registry.equality)
qed

text \<open>
  C25 (error). A paid claim can be paid again: the registry puts no condition on the status a claim moves
  from, so an underwriter that approves a paid claim and pays it makes the registry, within its rate limit,
  send the claimant the same amount a second time.
\<close>

theorem paid_claim_is_paid_again:
  assumes claim: "c_claimant (claim_at r cid) \<noteq> 0" "c_status (claim_at r cid) = St_Paid"
    and open_for: "\<not> registry_paused r" "hasRole t ''UNDERWRITER_ROLE'' (msg_sender t)"
    and limit: "uint (windowStart r) + uint (rateLimitWindowSeconds r) < 2 ^ 256"
      "uint (windowTotalPaid r) + uint (c_amount (claim_at r cid)) \<le> uint (maxPayoutPerWindow r)"
    and tok: "token_reverts t (SafeTransfer (payoutToken r) (c_claimant (claim_at r cid))
      (ucast (c_amount (claim_at r cid)))) = None"
  shows "\<exists>r1 r2. setClaimStatus t cid St_Approved r = Inr r1 \<and> payoutClaim t cid r1 = Inr r2 \<and>
     registry_calls r2 = registry_calls r @ [SafeTransfer (payoutToken r) (c_claimant (claim_at r cid))
       (ucast (c_amount (claim_at r cid)))] \<and>
     paid_for r2 cid = paid_for r cid + uint (c_amount (claim_at r cid))"
proof -
  let ?c = "(claim_at r cid)\<lparr>c_status := St_Approved, c_processedAt := ucast (block_timestamp t)\<rparr>"
  let ?r1 = "emit_registry (EmitClaimStatusChanged cid St_Approved) (r\<lparr>claim_at := (claim_at r)(cid := ?c)\<rparr>)"
  have one: "setClaimStatus t cid St_Approved r = Inr ?r1"
    using open_for claim(1) by (rule setClaimStatus_approves)
  obtain tot start where rate: "enforceRateLimit t (ucast (c_amount (claim_at r cid))) ?r1 =
      Inr (?r1\<lparr>windowStart := start, windowTotalPaid := tot\<rparr>)"
    by (rule enforceRateLimit_allows [of ?r1 "ucast (c_amount (claim_at r cid))" t])
      (use limit in \<open>auto simp: emit_registry_def uint_ucast_up\<close>)
  have "\<exists>r2. payoutClaim t cid ?r1 = Inr r2 \<and>
      registry_calls r2 = registry_calls r @ [SafeTransfer (payoutToken r) (c_claimant (claim_at r cid))
        (ucast (c_amount (claim_at r cid)))] \<and>
      payouts r2 = payouts r @ [(cid, c_claimant (claim_at r cid), ucast (c_amount (claim_at r cid)))]"
    using rate claim open_for tok
    by (auto simp: payoutClaim_def sol_defs Let_def pay_claim_def set_claim_def payouts_emit)
      (simp_all add: emit_registry_def payouts_def map_filter_append List.map_filter_simps)
  with one show ?thesis by (auto simp: paid_for_def uint_ucast_up)
qed

section \<open>Amounts\<close>

lemma submitClaim_succeeds:
  assumes "\<not> registry_paused r" and "amt \<le> maxPayoutPerClaim r" and "policyRegistry r \<noteq> 0"
    and "P (policyRegistry r) = Some s" and "isPolicyActive pid (block_timestamp t) s"
    and "p_holder (policies s pid) = msg_sender t" and "isPremiumCurrent t pid s = Inr True"
    and "consumedCoverage pid r = Inr used"
    and "uint used + uint amt \<le> uint (p_coverageAmount (policies s pid))"
    and "uint (nextClaimId r) + 1 < 2 ^ 256"
  shows "submitClaim P t pid mroot amt r = Inr (nextClaimId r,
     store_claim t (nextClaimId r) pid mroot amt (r\<lparr>nextClaimId := nextClaimId r + 1\<rparr>))"
proof -
  have active: "policy_exists s pid" "\<not> p_revoked (policies s pid)"
    "\<not> block_timestamp t < ucast (p_validFrom (policies s pid))"
    "\<not> ucast (p_validUntil (policies s pid)) < block_timestamp t"
    using assms(5) by (auto simp: isPolicyActive_def Let_def not_less split: if_splits)
  have "uint used + uint amt < 2 ^ 256"
    using le_less_trans [OF assms(9) uint_lt2p] by simp
  moreover from this have "\<not> ucast (p_coverageAmount (policies s pid)) < used + amt"
    using assms(9) by (simp add: word_less_def uint_checked_add uint_ucast_up)
  ultimately show ?thesis
    unfolding submitClaim_def Let_def
    using assms active by (auto simp: sol_defs at_registry_def getPolicy_def not_less)
qed

text \<open>
  C30 (error). An amount above 96 bits is not rejected: when the cap and the coverage allow it, the claim is
  stored with the amount cut to 96 bits, less than what was claimed, while the log that announces the claim
  still shows the whole amount; and it is the cut amount that later counts against the coverage.
\<close>

theorem large_amount_is_cut:
  assumes "submitClaim P t pid mroot amt r = Inr (cid, u)" and "2 ^ 96 \<le> uint amt"
  shows "uint (c_amount (claim_at u cid)) = uint amt mod 2 ^ 96 \<and> uint (c_amount (claim_at u cid)) < uint amt \<and>
     registry_logs u = registry_logs r @
       [EmitClaimSubmitted cid pid (msg_sender t) mroot amt (block_timestamp t)] \<and>
     reserve (claim_at u cid) = uint amt mod 2 ^ 96"
proof -
  have u: "u = store_claim t cid pid mroot amt (r\<lparr>nextClaimId := cid + 1\<rparr>)"
    using assms(1) by (rule submitClaim_Inr)
  have cut: "uint (ucast amt :: uint96) = uint amt mod 2 ^ 96"
    by (simp add: unsigned_ucast_eq take_bit_eq_mod)
  have "uint amt mod 2 ^ 96 < 2 ^ 96" by simp
  with assms(2) have "uint amt mod 2 ^ 96 < uint amt" by linarith
  then show ?thesis by (simp add: u store_claim_def reserve_def cut)
qed

section \<open>Subscriptions\<close>

text \<open>
  C11 (liveness). A subscription leads to a policy one can claim on: the call that subscribes moves exactly the
  premium of the plan from the caller to the treasury, gives the caller a policy under an unused identifier,
  and while the term and the paid period run, with a registry that points to the policies, the caller's
  first claim on it, of any amount up to the cap and the coverage of the plan, is accepted.
\<close>

theorem subscriber_can_claim:
  assumes sub: "subscribeToPolicy t tid s = Inr (pid, u)"
    and clock: "uint (block_timestamp t) + uint (t_termSeconds (policyTemplates s tid)) < 2 ^ 40"
      "uint (premiumPaidUntil u pid) + uint (premiumGracePeriodSeconds u) < 2 ^ 256"
    and later: "msg_sender t' = msg_sender t" "uint (block_timestamp t) \<le> uint (block_timestamp t')"
      "uint (block_timestamp t') \<le> uint (block_timestamp t) + uint (t_termSeconds (policyTemplates s tid))"
      "uint (block_timestamp t') \<le> uint (block_timestamp t) + uint (t_periodSeconds (policyTemplates s tid))"
    and registry: "P (policyRegistry r) = Some u" "policyRegistry r \<noteq> 0" "\<not> registry_paused r"
      "policyClaims r pid = []" "uint (nextClaimId r) + 1 < 2 ^ 256"
    and amt: "amt \<le> maxPayoutPerClaim r" "uint amt \<le> uint (t_coverageAmount (policyTemplates s tid))"
  shows "\<not> policy_exists s pid \<and> premium_calls u = premium_calls s @ [SafeTransferFrom (premiumToken s)
       (msg_sender t) (premiumTreasury s) (ucast (t_premiumAmountPerPeriod (policyTemplates s tid)))] \<and>
     (\<exists>r'. submitClaim P t' pid mroot amt r = Inr (nextClaimId r, r') \<and>
        c_claimant (claim_at r' (nextClaimId r)) = msg_sender t \<and>
        c_status (claim_at r' (nextClaimId r)) = St_Submitted)"
proof -
  let ?plan = "policyTemplates s tid"
  obtain s3 and validUntil :: uint256 where new: "\<not> policy_exists s pid" "collectPremium t pid (msg_sender t) s3 = Inr u"
    "uint validUntil = uint (block_timestamp t) + uint (t_termSeconds ?plan)"
    "policies s3 = (policies s)(pid := \<lparr>p_policyId = ucast pid,
        p_coverageAmount = t_coverageAmount ?plan, p_holder = msg_sender t,
        p_validFrom = ucast (block_timestamp t), p_validUntil = ucast validUntil, p_revoked = False,
        p_metadataHash = t_metadataHash ?plan\<rparr>)"
    "policy_exists s3 = (policy_exists s)(pid := True)"
    "premiumTerms s3 = (premiumTerms s)(pid := \<lparr>pt_amountPerPeriod = t_premiumAmountPerPeriod ?plan,
         pt_periodSeconds = t_periodSeconds ?plan\<rparr>)"
    "premium_calls s3 = premium_calls s" "premiumToken s3 = premiumToken s" "premiumTreasury s3 = premiumTreasury s"
    using sub by (rule subscribeToPolicy_Inr)
  obtain paid amt1 where pay: "amt1 = ucast (pt_amountPerPeriod (premiumTerms s3 pid))"
    "uint paid = max (uint (premiumPaidUntil s3 pid)) (uint (block_timestamp t)) +
      uint (pt_periodSeconds (premiumTerms s3 pid))"
    "u = emit_policy (EmitPremiumPaid pid (msg_sender t) amt1 paid)
      (s3\<lparr>premiumPaidUntil := (premiumPaidUntil s3)(pid := paid), premium_calls := premium_calls s3 @
         [SafeTransferFrom (premiumToken s3) (msg_sender t) (premiumTreasury s3) amt1]\<rparr>)"
    using new(2) by (rule collectPremium_Inr)
  have small: "uint (block_timestamp t) < 2 ^ 40" using clock(1) by (smt (verit) uint_ge_0)
  have dates: "uint (ucast (block_timestamp t) :: uint40) = uint (block_timestamp t)"
    "uint (ucast validUntil :: uint40) = uint validUntil"
    using small clock(1) new(3) by (simp_all add: uint_ucast_id)
  have "isPolicyActive pid (block_timestamp t') u"
    using later new(3) dates by (simp add: isPolicyActive_def Let_def pay(3) new(4,5) word_le_def uint_ucast_up)
  moreover have "isPremiumCurrent t' pid u = Inr True"
    using clock(2) later(4) pay(2) new(6)
    by (auto simp: isPremiumCurrent_def sol_defs word_le_def uint_checked_add pay(3) max_def
        split: if_splits) (smt (verit) uint_ge_0)+
  moreover have "consumedCoverage pid r = Inr 0" using registry(4) by (simp add: consumedCoverage_def)
  ultimately have "submitClaim P t' pid mroot amt r = Inr (nextClaimId r,
     store_claim t' (nextClaimId r) pid mroot amt (r\<lparr>nextClaimId := nextClaimId r + 1\<rparr>))"
    using registry amt later(1) by (intro submitClaim_succeeds [where s = u and used = 0]) (simp_all add: pay(3) new(4))
  then show ?thesis using later(1) new(1,6-9) by (simp add: store_claim_def pay(1,3))
qed

section \<open>Concrete runs\<close>

definition sol_actor :: "address \<Rightarrow> uint256 \<Rightarrow> tx" where
  "sol_actor who now = \<lparr>msg_sender = who, block_timestamp = now, hasRole = (\<lambda>_ _. True),
     token_reverts = (\<lambda>_. None)\<rparr>"

text \<open>A catalog with one plan: a premium of 5 for 50 seconds, a term of 500 seconds.\<close>

definition sol_catalog :: "uint256 \<Rightarrow> insurance_policy" where
  "sol_catalog cov = run_calls policy_exec
     [(sol_actor 9 1000, Call_setPremiumConfig 17 18 10),
      (sol_actor 9 1000, Call_addPolicyTemplate 1 cov 5 50 500 77)]
     (blank_policies\<lparr>nextPolicyId := 1, policy_initialized := True\<rparr>)"

definition sol_insured :: "uint256 \<Rightarrow> insurance_policy" where
  "sol_insured cov = snd (projr (subscribeToPolicy (sol_actor 3 1000) 1 (sol_catalog cov)))"

definition sol_code :: "uint256 \<Rightarrow> policy_code" where
  "sol_code cov a = (if a = 32 then Some (sol_insured cov) else None)"

definition sol_history :: "uint256 \<Rightarrow> registry_call list \<Rightarrow> (policy_code \<times> tx \<times> registry_call) list" where
  "sol_history cov cs = map (\<lambda>c. (sol_code cov, sol_actor 3 1010, c)) cs"

definition sol_registry :: "uint256 \<Rightarrow> registry_call list \<Rightarrow> claim_registry" where
  "sol_registry cov cs = registry_after (sol_actor 9 900) 16 32 (2 ^ 100) 5000 3600 (sol_history cov cs)"

theorem registry_stays_well_formed_witness:
  "c_claimant (claim_at (sol_registry 100 [Call_submitClaim 1 5 60]) 1) = 3 \<and>
   c_claimId (claim_at (sol_registry 100 [Call_submitClaim 1 5 60]) 1) = 1 \<and>
   (\<exists>!p. 1 \<in> set (getClaimsForPolicy p (sol_registry 100 [Call_submitClaim 1 5 60])))"
proof -
  have who: "c_claimant (claim_at (sol_registry 100 [Call_submitClaim 1 5 60]) 1) = 3" by code_simp
  have "msg_sender t \<noteq> 0" if "(P, t, c) \<in> set (sol_history 100 [Call_submitClaim 1 5 60])" for P t c
    using that by (auto simp: sol_history_def sol_actor_def)
  from registry_stays_well_formed [of "sol_history 100 [Call_submitClaim 1 5 60]", OF this]
  have "c_claimId (claim_at (sol_registry 100 [Call_submitClaim 1 5 60]) 1) = ucast (1 :: uint256) \<and>
      (\<exists>!p. 1 \<in> set (getClaimsForPolicy p (sol_registry 100 [Call_submitClaim 1 5 60])))"
    unfolding Let_def sol_registry_def using who by (simp add: sol_registry_def)
  with who show ?thesis by simp
qed

definition sol_paid :: claim_registry where
  "sol_paid = sol_registry 100 [Call_submitClaim 1 5 60, Call_setClaimStatus 1 St_Approved, Call_payoutClaim 1]"

theorem payments_within_coverage_witness:
  "paid_on sol_paid 1 = 60 \<and> paid_on sol_paid 1 \<le> 100 \<and> accounted sol_paid"
proof -
  let ?cs = "[Call_submitClaim 1 5 60, Call_setClaimStatus 1 St_Approved, Call_payoutClaim 1]"
  have "all_allowed registry_exec (decided_once (\<lambda>_. 100)) (sol_history 100 ?cs) (sol_registry 100 [])"
    by code_simp
  then have "all_allowed registry_exec (decided_once (\<lambda>_. 100)) (sol_history 100 ?cs)
      (registry_after (sol_actor 9 900) 16 32 (2 ^ 100) 5000 3600 [])"
    by (simp add: sol_registry_def sol_history_def)
  from payments_within_coverage [OF _ this, of 1] have "paid_on sol_paid 1 \<le> 100 \<and> accounted sol_paid"
    by (simp add: sol_paid_def sol_registry_def)
  moreover have "paid_on sol_paid 1 = 60" by code_simp
  ultimately show ?thesis by simp
qed

text \<open>A claim of 60 that was paid, in a window in which nothing else was.\<close>

definition sol_settled :: claim_registry where
  "sol_settled = blank_registry\<lparr>claim_at := (claim_at blank_registry)(1 := no_claim\<lparr>c_claimant := 3,
       c_amount := 60, c_status := St_Paid\<rparr>), payoutToken := 16, maxPayoutPerWindow := 5000,
     rateLimitWindowSeconds := 3600, windowStart := 900, windowTotalPaid := 60,
     registry_logs := [EmitClaimPayout 1 3 60 16]\<rparr>"

theorem paid_claim_is_paid_again_witness:
  "\<exists>r1 r2. setClaimStatus (sol_actor 3 1010) 1 St_Approved sol_settled = Inr r1 \<and>
     payoutClaim (sol_actor 3 1010) 1 r1 = Inr r2 \<and> paid_for r2 1 = 120"
proof -
  have "paid_for sol_settled 1 = 60"
    by (simp add: paid_for_def payouts_def sol_settled_def List.map_filter_simps)
  then show ?thesis
    using paid_claim_is_paid_again [of sol_settled 1 "sol_actor 3 1010"]
    by (auto simp: sol_settled_def sol_actor_def blank_registry_def)
qed

theorem large_amount_is_cut_witness:
  "uint (c_amount (claim_at (snd (projr (submitClaim (sol_code (2 ^ 100)) (sol_actor 3 1010) 1 5 (2 ^ 96 + 1)
     (sol_registry (2 ^ 100) [])))) 1)) = 1"
proof -
  let ?x = "submitClaim (sol_code (2 ^ 100)) (sol_actor 3 1010) 1 5 (2 ^ 96 + 1) (sol_registry (2 ^ 100) [])"
  have "\<not> isl ?x \<and> fst (projr ?x) = 1" by code_simp
  then have "?x = Inr (1, snd (projr ?x))" by (cases ?x) auto
  from large_amount_is_cut [OF this] show ?thesis by simp
qed

theorem subscriber_can_claim_witness:
  "\<exists>r'. submitClaim (sol_code 100) (sol_actor 3 1010) 1 5 60 (sol_registry 100 []) = Inr (1, r') \<and>
     c_claimant (claim_at r' 1) = 3"
proof -
  let ?x = "subscribeToPolicy (sol_actor 3 1000) 1 (sol_catalog 100)"
  have "\<not> isl ?x \<and> fst (projr ?x) = 1" by code_simp
  then have sub: "?x = Inr (1, sol_insured 100)" by (cases ?x) (auto simp: sol_insured_def)
  have plan: "t_termSeconds (policyTemplates (sol_catalog 100) 1) = 500 \<and>
    t_periodSeconds (policyTemplates (sol_catalog 100) 1) = 50 \<and>
    t_coverageAmount (policyTemplates (sol_catalog 100) 1) = 100 \<and>
    premiumPaidUntil (sol_insured 100) 1 = 1050 \<and> premiumGracePeriodSeconds (sol_insured 100) = 10"
    by code_simp
  have reg: "policyRegistry (sol_registry 100 []) = 32 \<and> \<not> registry_paused (sol_registry 100 []) \<and>
    policyClaims (sol_registry 100 []) 1 = [] \<and> nextClaimId (sol_registry 100 []) = 1 \<and>
    maxPayoutPerClaim (sol_registry 100 []) = 2 ^ 100"
    by code_simp
  have act: "msg_sender (sol_actor a b) = a" "block_timestamp (sol_actor a b) = b" for a b
    by (simp_all add: sol_actor_def)
  show ?thesis
    using subscriber_can_claim [OF sub, of "sol_actor 3 1010" "sol_code 100" "sol_registry 100 []" 60 5]
    by (auto simp: plan reg act sol_code_def)
qed

end
