(* ===== verification/Contract_Mirror.thy ===== *)
theory Contract_Mirror
  imports Contract_Properties Indexer_Mirror
begin

text \<open>
  The claim registry and the indexer together. The logs of the registry determine its claims; decoded by
  ethers with the ABI of the indexer and mirrored by it, they give the claims of the chain.
\<close>

section \<open>The logs determine the claims\<close>

record claim_view =
  v_policyId :: uint256
  v_claimant :: address
  v_merkleRoot :: bytes32
  v_amount :: uint256
  v_status :: claim_status

fun replay_log :: "registry_log \<Rightarrow> (uint256 \<rightharpoonup> claim_view) \<Rightarrow> (uint256 \<rightharpoonup> claim_view)" where
  "replay_log (EmitClaimSubmitted cid pid who mroot amt ts) m = (if m cid \<noteq> None then m
     else m(cid \<mapsto> \<lparr>v_policyId = pid, v_claimant = who, v_merkleRoot = mroot, v_amount = amt,
            v_status = St_Submitted\<rparr>))"
| "replay_log (EmitClaimStatusChanged cid st) m = (case m cid of None \<Rightarrow> m
     | Some v \<Rightarrow> m(cid \<mapsto> v\<lparr>v_status := st\<rparr>))"
| "replay_log (EmitClaimPayout cid dest amt tok) m = (case m cid of None \<Rightarrow> m
     | Some v \<Rightarrow> m(cid \<mapsto> v\<lparr>v_status := St_Paid\<rparr>))"
| "replay_log _ m = m"

definition replay :: "registry_log list \<Rightarrow> (uint256 \<rightharpoonup> claim_view)" where
  "replay ls = fold replay_log ls Map.empty"

definition view_of :: "claim_struct \<Rightarrow> claim_view \<Rightarrow> bool" where
  "view_of c v \<longleftrightarrow> c_policyId c = ucast (v_policyId v) \<and> c_claimant c = v_claimant v \<and>
     c_merkleRoot c = v_merkleRoot v \<and> c_amount c = ucast (v_amount v) \<and> c_status c = v_status v"

definition well_logged :: "claim_registry \<Rightarrow> bool" where
  "well_logged r \<longleftrightarrow> registry_inv r \<and> (\<forall>i. case replay (registry_logs r) i of
       None \<Rightarrow> \<not> live r i | Some v \<Rightarrow> live r i \<and> view_of (claim_at r i) v)"

text \<open>No call releases a stuck payout: that function changes a claim and logs nothing a mirror reads.\<close>

definition logged_call :: "policy_code \<times> tx \<times> registry_call \<Rightarrow> claim_registry \<Rightarrow> bool" where
  "logged_call c r \<longleftrightarrow> from_somebody c r \<and> (\<forall>cid. snd (snd c) \<noteq> Call_releaseStuckPayout cid)"

lemma replay_snoc: "replay (ls @ [l]) = replay_log l (replay ls)"
  by (simp add: replay_def)

lemma replay_administration: "\<not> is_claim_log l \<Longrightarrow> replay_log l m = m"
  by (cases l) auto

lemma registry_call_keeps_logged:
  assumes log: "well_logged r" and ok: "logged_call c r" and run: "registry_exec c r = Inr u"
  shows "well_logged u"
proof -
  let ?m = "replay (registry_logs r)"
  have inv: "registry_inv r" "registry_inv u"
    using log registry_call_keeps_inv [OF _ _ run] ok by (simp_all add: well_logged_def logged_call_def)
  have view: "case ?m i of None \<Rightarrow> \<not> live r i | Some v \<Rightarrow> live r i \<and> view_of (claim_at r i) v" for i
    using log by (simp add: well_logged_def)
  from run have "case replay (registry_logs u) i of None \<Rightarrow> \<not> live u i
      | Some v \<Rightarrow> live u i \<and> view_of (claim_at u i) v" for i
  proof (cases rule: registry_call_cases)
    case (submits P t pid mroot amt cid)
    then have u: "u = store_claim t cid pid mroot amt (r\<lparr>nextClaimId := cid + 1\<rparr>)" and cid: "cid = nextClaimId r"
      by (auto elim: submitClaim_Inr)
    have "\<not> live r cid" using inv(1) cid by (simp add: registry_inv_def)
    then have "?m cid = None" using view [of cid] by (auto split: option.splits)
    moreover have "msg_sender t \<noteq> 0" using ok submits(1) by (simp add: logged_call_def from_somebody_def)
    ultimately show ?thesis using view [of i]
      by (auto simp: u store_claim_def replay_snoc live_def view_of_def split: option.splits if_splits)
  next
    case (decides P t cid st rid approved c' used)
    have "live r cid" using decides(2) by (simp add: live_def)
    then obtain v where "?m cid = Some v" "view_of (claim_at r cid) v" using view [of cid] by (auto split: option.splits)
    then show ?thesis using view [of i] decides(2-8)
      by (auto simp: decides(9) replay_snoc live_def view_of_def split: option.splits)
  next
    case (pays P t cid l tot start)
    have l: "replay_log l ?m = replay_log (EmitClaimPayout cid 0 0 0) ?m"
      using pays(1) ok by (auto simp: logged_call_def)
    have "live r cid" using pays(2) by (simp add: live_def)
    then obtain v where "?m cid = Some v" "view_of (claim_at r cid) v" using view [of cid] by (auto split: option.splits)
    then show ?thesis using view [of i]
      by (auto simp: pays(4) replay_snoc l live_def view_of_def split: option.splits)
  next
    case (administers l calls)
    then have "claim_at u = claim_at r" "replay (registry_logs u) = ?m" "live u = live r"
      by (simp_all add: replay_snoc replay_administration same_claims_def live_def [abs_def])
    with view [of i] show ?thesis by (simp only:)
  qed
  with inv(2) show ?thesis by (simp add: well_logged_def)
qed

interpretation logged: call_invariant registry_exec well_logged logged_call
  by unfold_locales (rule registry_call_keeps_logged)

lemma initialize_logged:
  assumes "registry_initialize t tok registry a b c blank_registry = Inr r"
  shows "well_logged r"
  using initialize_inv [OF assms] assms
  by (auto simp: well_logged_def registry_initialize_def sol_defs blank_registry_def replay_def live_def
      no_claim_def)

lemma registry_after_logged:
  assumes "\<And>c s. c \<in> set cs \<Longrightarrow> logged_call c s"
  shows "well_logged (registry_after t tok registry a b c cs)"
proof -
  have "well_logged (registry_after t tok registry a b c [])"
    by (rule registry_after_run [of t tok registry a b c "[]"]) (auto intro: initialize_logged)
  moreover have "all_allowed registry_exec logged_call cs (registry_after t tok registry a b c [])"
    using assms by (rule all_allowed_if)
  ultimately show ?thesis unfolding registry_after_append [of t tok registry a b c cs]
    by (rule logged.history_keeps)
qed

section \<open>The indexer's view of a log\<close>

text \<open>
  How ethers decodes the logs of the registry with the ABI of \<^verbatim>\<open>src/indexer/src/rpcClient.js\<close>: the three
  claim events, and null for every other. How it prints addresses and words and which type it gives a
  \<^verbatim>\<open>uint8\<close> is its own.
\<close>

record abi_decoder =
  checksum :: "address \<Rightarrow> string"
  hexlify :: "bytes32 \<Rightarrow> string"
  uint8_value :: "int \<Rightarrow> status_value"

fun status_code :: "claim_status \<Rightarrow> int" where
  "status_code St_Submitted = 0"
| "status_code St_UnderReview = 1"
| "status_code St_Approved = 2"
| "status_code St_Paid = 3"
| "status_code St_Rejected = 4"

fun decode_registry :: "abi_decoder \<Rightarrow> registry_log \<Rightarrow> parse_result" where
  "decode_registry D (EmitClaimSubmitted cid pid who mroot amt ts) =
     Parsed (ClaimSubmitted (uint cid) (uint pid) (checksum D who) (hexlify D mroot) (uint amt) (uint ts))"
| "decode_registry D (EmitClaimStatusChanged cid st) =
     Parsed (ClaimStatusChanged (uint cid) (uint8_value D (status_code st)))"
| "decode_registry D (EmitClaimPayout cid dest amt tok) =
     Parsed (ClaimPayout (uint cid) (checksum D dest) (uint amt) (checksum D tok))"
| "decode_registry D _ = ParseNull"

text \<open>The row of a claim as the chain has it.\<close>

definition row_shows :: "abi_decoder \<Rightarrow> claim_view \<Rightarrow> claim_row \<Rightarrow> bool" where
  "row_shows D v row \<longleftrightarrow> cl_policy_id row = uint (v_policyId v) \<and>
     cl_claimant_address row = toLowerCase (checksum D (v_claimant v)) \<and>
     cl_merkle_root row = hexlify D (v_merkleRoot v) \<and> cl_amount row = uint (v_amount v) \<and>
     cl_status row = CLAIM_STATUS_NAMES ! nat (status_code (v_status v))"

definition shows_claims :: "abi_decoder \<Rightarrow> (uint256 \<rightharpoonup> claim_view) \<Rightarrow> db \<Rightarrow> bool" where
  "shows_claims D m d \<longleftrightarrow> (\<forall>i. case m i of
       None \<Rightarrow> onchain_claims d (uint i) = None
     | Some v \<Rightarrow> (\<exists>row. onchain_claims d (uint i) = Some row \<and> row_shows D v row))"

lemma shows_claimsI:
  assumes "\<And>i. m i = None \<Longrightarrow> onchain_claims d (uint i) = None"
    and "\<And>i v. m i = Some v \<Longrightarrow> \<exists>row. onchain_claims d (uint i) = Some row \<and> row_shows D v row"
  shows "shows_claims D m d"
  using assms by (auto simp: shows_claims_def split: option.split)

lemma shows_claimsD:
  assumes "shows_claims D m d"
  shows "m i = None \<Longrightarrow> onchain_claims d (uint i) = None"
    and "m i = Some v \<Longrightarrow> \<exists>row. onchain_claims d (uint i) = Some row \<and> row_shows D v row"
  using assms [unfolded shows_claims_def, THEN spec, of i] by simp_all

lemma status_code_name:
  assumes "\<And>n. status_int (uint8_value D n) = n"
  shows "status_name (uint8_value D (status_code st)) = CLAIM_STATUS_NAMES ! nat (status_code st)"
  using assms by (cases st) (simp_all add: status_name_def CLAIM_STATUS_NAMES_def Let_def)

lemma shows_update:
  assumes "shows_claims D m d" and "m cid = Some v" and "\<And>row. row_shows D v row \<Longrightarrow> row_shows D v' (f row)"
  shows "\<exists>row. onchain_claims d (uint cid) = Some row \<and>
     shows_claims D (m(cid \<mapsto> v')) (d\<lparr>onchain_claims := (onchain_claims d)(uint cid \<mapsto> f row)\<rparr>)"
proof -
  obtain row where row: "onchain_claims d (uint cid) = Some row" "row_shows D v row"
    using shows_claimsD(2) [OF assms(1,2)] by blast
  have "shows_claims D (m(cid \<mapsto> v')) (d\<lparr>onchain_claims := (onchain_claims d)(uint cid \<mapsto> f row)\<rparr>)"
    using shows_claimsD [OF assms(1)] assms(3) row(2)
    by (intro shows_claimsI) (auto simp: word_uint_eq_iff split: if_splits)
  with row(1) show ?thesis by blast
qed

lemma mirror_after_shows:
  assumes D: "\<And>n. status_int (uint8_value D n) = n" and sh: "shows_claims D m d"
    and l: "decode_registry D l = Parsed ev"
  shows "shows_claims D (replay_log l m) (mirror_after S lg ev d)"
proof (cases l)
  case (EmitClaimSubmitted cid pid who mroot amt ts)
  note d = shows_claimsD [OF sh]
  show ?thesis
  proof (cases "m cid")
    case None
    let ?v = "\<lparr>v_policyId = pid, v_claimant = who, v_merkleRoot = mroot, v_amount = amt,
      v_status = St_Submitted\<rparr>"
    let ?row = "\<lparr>cl_policy_id = uint pid, cl_claimant_address = toLowerCase (checksum D who),
      cl_merkle_root = hexlify D mroot, cl_amount = uint amt, cl_status = ''submitted'',
      cl_submitted_tx_hash = transactionHash lg, cl_submitted_block = blockNumber lg,
      cl_last_status_tx_hash = None, cl_payout_tx_hash = None, cl_updated_at = 0\<rparr>"
    have "row_shows D ?v ?row" by (simp add: row_shows_def CLAIM_STATUS_NAMES_def)
    then have "shows_claims D (m(cid \<mapsto> ?v)) (d\<lparr>onchain_claims := (onchain_claims d)(uint cid \<mapsto> ?row)\<rparr>)"
      using d by (intro shows_claimsI) (auto simp: word_uint_eq_iff split: if_splits)
    with d(1) [of cid] l EmitClaimSubmitted None show ?thesis by auto
  next
    case (Some v)
    with d(2) [of cid v] l EmitClaimSubmitted sh show ?thesis by auto
  qed
next
  case (EmitClaimStatusChanged cid st)
  let ?f = "\<lambda>row. row\<lparr>cl_status := status_name (uint8_value D (status_code st)),
      cl_last_status_tx_hash := Some (transactionHash lg)\<rparr>"
  show ?thesis
  proof (cases "m cid")
    case None
    with shows_claimsD(1) [OF sh, of cid] l EmitClaimStatusChanged sh show ?thesis by auto
  next
    case (Some v)
    have "row_shows D (v\<lparr>v_status := st\<rparr>) (?f row)" if "row_shows D v row" for row
      using that status_code_name [of D st, OF D] by (simp add: row_shows_def)
    from shows_update [where f = ?f, OF sh Some this] l EmitClaimStatusChanged Some show ?thesis by auto
  qed
next
  case (EmitClaimPayout cid dest amt tok)
  let ?f = "\<lambda>row. row\<lparr>cl_status := ''paid'', cl_payout_tx_hash := Some (transactionHash lg)\<rparr>"
  show ?thesis
  proof (cases "m cid")
    case None
    with shows_claimsD(1) [OF sh, of cid] l EmitClaimPayout sh show ?thesis by auto
  next
    case (Some v)
    have "row_shows D (v\<lparr>v_status := St_Paid\<rparr>) (?f row)" if "row_shows D v row" for row
      using that by (simp add: row_shows_def CLAIM_STATUS_NAMES_def)
    from shows_update [where f = ?f, OF sh Some this] l EmitClaimPayout Some show ?thesis by auto
  qed
qed (use l in simp_all)

lemma shows_events [simp]: "shows_claims D m (d\<lparr>onchain_events := es\<rparr>) = shows_claims D m d"
  by (simp add: shows_claims_def cong: option.case_cong)

lemma mirror_log_shows:
  assumes "\<And>n. status_int (uint8_value D n) = n" and "shows_claims D m d"
    and "parseLog C lg = decode_registry D l" and "\<not> seen d (log_key lg)"
  shows "shows_claims D (replay_log l m) (mirror_log S C lg d)"
proof (cases "decode_registry D l")
  case (Parsed ev)
  then have "needs_record ev" by (cases l) auto
  then show ?thesis
    using assms Parsed by (auto simp: mirror_log_def mirror_event_def intro!: mirror_after_shows)
next
  case ParseThrows
  then show ?thesis by (cases l) auto
next
  case ParseNull
  then have "replay_log l m = m" by (cases l) auto
  then show ?thesis using ParseNull assms by (simp add: mirror_log_def)
qed

lemma mirror_after_events: "onchain_events (mirror_after S lg ev d) = onchain_events d"
  by (cases ev) (auto split: option.split)

lemma mirror_log_seen: "seen (mirror_log S C lg d) k \<Longrightarrow> seen d k \<or> k = log_key lg"
  by (auto simp: mirror_log_def mirror_event_def seen_def mirror_after_events event_key_def log_key_def
      split: parse_result.splits if_splits)

lemma mirror_logs_show:
  assumes "list_all2 (\<lambda>lg l. parseLog C lg = decode_registry D l) lgs ls"
    and "\<And>n. status_int (uint8_value D n) = n" and "shows_claims D m d"
    and "distinct (map log_key lgs)" and "\<And>lg. lg \<in> set lgs \<Longrightarrow> \<not> seen d (log_key lg)"
  shows "shows_claims D (fold replay_log ls m) (mirror_logs S C lgs d)"
  using assms(1,3-5)
proof (induction lgs ls arbitrary: m d rule: list_all2_induct)
  case (Cons lg lgs l ls)
  have "shows_claims D (replay_log l m) (mirror_log S C lg d)"
    by (rule mirror_log_shows) (use Cons assms(2) in auto)
  moreover have "\<not> seen (mirror_log S C lg d) (log_key x)" if "x \<in> set lgs" for x
  proof -
    have "log_key x \<noteq> log_key lg" using that Cons.prems(2) by (auto simp: rev_image_eqI)
    then show ?thesis using that Cons.prems(3) mirror_log_seen [of S C lg d "log_key x"] by auto
  qed
  ultimately show ?case using Cons.IH Cons.prems by (simp add: mirror_logs_def)
qed (simp add: mirror_logs_def)

section \<open>The claims table is the registry\<close>

text \<open>What the claims table says of one claim of the registry.\<close>

definition claim_mirrored :: "abi_decoder \<Rightarrow> claim_registry \<Rightarrow> db \<Rightarrow> uint256 \<Rightarrow> bool" where
  "claim_mirrored D r d i \<longleftrightarrow> (let c = claim_at r i in
     if c_claimant c = 0 then onchain_claims d (uint i) = None
     else (case onchain_claims d (uint i) of None \<Rightarrow> False
       | Some row \<Rightarrow> cl_claimant_address row = toLowerCase (checksum D (c_claimant c)) \<and>
           cl_merkle_root row = hexlify D (c_merkleRoot c) \<and>
           cl_status row = CLAIM_STATUS_NAMES ! nat (status_code (c_status c)) \<and>
           word_of_int (cl_policy_id row) = c_policyId c \<and> word_of_int (cl_amount row) = c_amount c))"

lemma word_of_uint_cast: "word_of_int (uint (a :: 'a :: len word)) = (ucast a :: 'b :: len word)"
  by (simp add: word_uint_eq_iff uint_word_of_int unsigned_ucast_eq take_bit_eq_mod)

lemma shown_claim_mirrored:
  assumes "well_logged r" and "shows_claims D (replay (registry_logs r)) d"
  shows "claim_mirrored D r d i"
proof (cases "replay (registry_logs r) i")
  case None
  then have "\<not> live r i" using assms(1) by (auto simp: well_logged_def dest: spec [of _ i])
  with shows_claimsD(1) [OF assms(2) None] show ?thesis by (simp add: claim_mirrored_def live_def)
next
  case (Some v)
  then have "live r i \<and> view_of (claim_at r i) v" using assms(1) by (auto simp: well_logged_def dest: spec [of _ i])
  with shows_claimsD(2) [OF assms(2) Some] show ?thesis
    by (auto simp: claim_mirrored_def live_def view_of_def row_shows_def word_of_uint_cast Let_def)
qed

lemma claim_mirrored_tables: "claim_mirrored D r (tables d) i = claim_mirrored D r d i"
  by (auto simp: claim_mirrored_def Let_def tables_select strip_claim_def split: option.split)

end
