(* ===== verification/Chain_Properties.thy ===== *)
theory Chain_Properties
  imports Contract_Mirror System_Properties
begin

text \<open>
  The services and the contracts together: the claims table against the registry, what a subscription does
  to the indexer, what an attestation of the oracle service does to a claim, and what the webhook of the
  backend makes of a notification.
\<close>

section \<open>The claims table is the registry\<close>

text \<open>
  C3 (refinement). The claims table is the registry: when the logs of a registry that was called in any way
  except for the release of a stuck payout are on the chain, in order, and a scan that starts on empty tables
  and covers them succeeds, then every claim of the registry has a row with its claimant in lower case, its
  root, the name of its status, and, cut to the width of the storage, its policy and its amount; and there is
  no row for an identifier that is no claim.
\<close>

theorem claims_table_is_the_registry:
  assumes calls: "\<And>c s. c \<in> set cs \<Longrightarrow> logged_call c s"
    and r: "r = registry_after t tok registry a b c cs"
    and D: "\<And>n. status_int (uint8_value D n) = n"
    and chain: "list_all2 (\<lambda>lg l. parseLog C lg = decode_registry D l)
      (filter (in_range (resume_block C deploy (database w)) (safeHead res)) (L (contract_address C)))
      (registry_logs r)" "distinct (map log_key (L (contract_address C)))"
      "sorted (map blockNumber (L (contract_address C)))"
    and fresh: "onchain_claims (database w) = Map.empty" "onchain_events (database w) = []"
    and scan: "0 < blockRangeChunkSize (config S)" "rpc_faithful S L"
      "scanContract S C deploy w = Some (Inr res, w')"
  shows "claim_mirrored D r (database w') i"
proof -
  let ?lgs = "filter (in_range (resume_block C deploy (database w)) (safeHead res)) (L (contract_address C))"
  have eff: "tables (database w') = mirror_logs S C ?lgs (tables (database w))"
    using scanContract_effect [OF scan(1,2) chain(3) scan(3)] by simp
  have none: "\<not> seen (tables (database w)) k" for k using fresh(2) by (simp add: seen_def [of "database w"])
  have "shows_claims D (fold replay_log (registry_logs r) Map.empty) (mirror_logs S C ?lgs (tables (database w)))"
    by (rule mirror_logs_show [OF chain(1) D])
      (use chain(2) fresh none in \<open>auto simp: shows_claims_def tables_select distinct_map_filter\<close>)
  moreover have "well_logged r" unfolding r using calls by (rule registry_after_logged)
  ultimately have "claim_mirrored D r (tables (database w')) i"
    unfolding eff by (intro shown_claim_mirrored) (simp_all add: replay_def)
  then show ?thesis by (simp add: claim_mirrored_tables)
qed

section \<open>A subscription and the indexer\<close>

text \<open>The logs of the policies, decoded with the ABI of the indexer: two events, null for the others.\<close>

fun decode_policy :: "abi_decoder \<Rightarrow> policy_log \<Rightarrow> parse_result" where
  "decode_policy D (EmitPolicyRegistered pid who vfrom vuntil cov meta) =
     Parsed (PolicyRegistered (uint pid) (checksum D who) (uint vfrom) (uint vuntil) (uint cov) (hexlify D meta))"
| "decode_policy D (EmitPolicyRevoked pid) = Parsed (PolicyRevoked (uint pid))"
| "decode_policy D _ = ParseNull"

lemma tiled_address: "tiled a sz head f rs \<Longrightarrow> x \<in> set rs \<Longrightarrow> fst x = a"
  by (induction a sz head f rs rule: tiled.induct) auto

lemma scanContract_requests:
  assumes "0 < blockRangeChunkSize (config S)" and "scanContract S C deploy w = Some (r, w')"
  shows "x \<in> set (log_requests w') \<Longrightarrow> x \<in> set (log_requests w) \<or> fst x = contract_address C"
  using assms(2)
proof (cases rule: scanContract_cases)
  case (looped h w2 q)
  assume "x \<in> set (log_requests w')"
  moreover obtain rs where "log_requests w' = log_requests w2 @ rs"
    "tiled (contract_address C) (blockRangeChunkSize (config S)) (safe_head S h)
       (resume_block C deploy (database w)) rs"
    using scan_loop_requests [OF assms(1) looped(5)] by blast
  ultimately show ?thesis using looped(3) tiled_address by fastforce
qed auto

lemma null_log_fails_scan:
  assumes size: "0 < blockRangeChunkSize (config S)" and rpc: "rpc_faithful S L"
    and sound: "checkpoint_sound C deploy (L (contract_address C)) (database w)"
    and lg: "lg \<in> set (L (contract_address C))" "parseLog C lg = ParseNull" "deploy \<le> blockNumber lg"
    and head: "\<And>n h. getBlockNumber S n = Inr h \<Longrightarrow> blockNumber lg \<le> safe_head S h"
    and run: "scanContract S C deploy w = Some (r, w')"
  shows "\<exists>e. r = Inl e"
proof -
  have never: "c < blockNumber lg" if "checkpoint_sound C deploy (L (contract_address C)) d"
      "checkpoint_of d (contract_address C) = Some c" for d c
    using that lg by (force simp: checkpoint_sound_def recorded_below_def recorded_in_def)
  from run show ?thesis
  proof (cases rule: scanContract_cases)
    case (idle h)
    with head [of "rpcs w" h] lg(3) never [OF sound] show ?thesis
      by (auto simp: resume_block_def split: option.splits)
  next
    case (looped h w2 q)
    show ?thesis
    proof (cases q)
      case (Inr n)
      with looped(4,5) scan_loop_reaches [OF size] have
        "checkpoint_of (database w') (contract_address C) = Some (safe_head S h)" by blast
      with never [OF scanContract_sound [OF size rpc sound run]] head [OF looped(1)] show ?thesis by auto
    qed (use looped(6) in simp)
  qed simp
qed

lemma main_turns_world:
  assumes "\<And>w r w'. J w \<Longrightarrow> runOnePass S A w = Some (r, w') \<Longrightarrow> J w'"
    and "\<And>w c. J w \<Longrightarrow> J (w\<lparr>console := c\<rparr>)" and "J w" and "main_turns S A n w = Some w'"
  shows "J w'"
  using assms(3,4)
proof (induction n arbitrary: w)
  case (Suc n)
  then obtain v where v: "main_iteration S A w = Some v" "main_turns S A n v = Some w'"
    by (auto split: option.splits)
  obtain r u where "runOnePass S A w = Some (r, u)"
    using v(1) by (auto simp: main_iteration_def split: option.splits)
  with v(1) assms(1) [OF Suc.prems(1)] assms(2) have "J v"
    by (auto simp: main_iteration_def split: sum.splits if_splits)
  from this v(2) show ?case by (rule Suc.IH)
qed simp

text \<open>
  C26 (error). One self-service subscription ends the indexing of claims: the call that subscribes logs, beside
  the registration, two events the ABI of the indexer does not have, for which ethers answers null; once they
  are below the safe head, every pass of the main loop fails on the policies, which are scanned first, and
  in no state of the loop has the indexer asked the node for a single log of the claim registry.
\<close>

theorem subscription_stops_claim_indexing:
  assumes cfg: "indexer_loadConfig z env = Inr (config S)" and rpc: "rpc_faithful S L"
    and apart: "toLowerCase (claimRegistryAddress (config S)) \<noteq> toLowerCase (insurancePolicyAddress (config S))"
    and start: "database w = empty_db" "log_requests w = []"
    and sub: "subscribeToPolicy t tid s = Inr (pid, u)"
    and mined: "\<And>l. l \<in> set (drop (length (policy_logs s)) (policy_logs u)) \<Longrightarrow>
      \<exists>lg \<in> set (L (insurancePolicyAddress (config S))). insurancePolicyAbi A lg = decode_policy D l \<and>
        blockNumber lg = b"
    and head: "insurancePolicyDeployBlock (config S) \<le> b"
      "\<And>n h. getBlockNumber S n = Inr h \<Longrightarrow> b \<le> safe_head S h"
  shows "\<exists>r w'. mainLoop S A n w = Some (r, w') \<and>
     (\<forall>x \<in> set (log_requests w'). fst x \<noteq> claimRegistryAddress (config S))"
proof -
  let ?P = "getInsurancePolicyContract S A" and ?d = "insurancePolicyDeployBlock (config S)"
  define J where "J v \<longleftrightarrow> both_sound S A L (database v) \<and>
     (\<forall>x \<in> set (log_requests v). fst x \<noteq> claimRegistryAddress (config S))" for v :: world
  have size: "0 < blockRangeChunkSize (config S)" by (rule loaded_chunk_size [OF cfg])
  have addr: "contract_address ?P = insurancePolicyAddress (config S)" "parseLog ?P = insurancePolicyAbi A"
    by (simp_all add: getInsurancePolicyContract_def)
  have "\<exists>v. EmitPolicySubscribed pid tid (msg_sender t) v \<in> set (drop (length (policy_logs s)) (policy_logs u))"
    using sub by (rule subscribeToPolicy_Inr) (auto elim!: collectPremium_Inr)
  with mined obtain lg where lg: "lg \<in> set (L (insurancePolicyAddress (config S)))"
    "insurancePolicyAbi A lg = ParseNull" "blockNumber lg = b" by fastforce
  have pass: "J v'" if J: "J v" and run: "runOnePass S A v = Some (r, v')" for v r v'
  proof -
    obtain q v1 where q: "scanContract S ?P ?d v = Some (q, v1)"
      using scanContract_returns [OF size] by blast
    have "checkpoint_sound ?P ?d (L (contract_address ?P)) (database v)"
      using J by (simp add: J_def both_sound_def addr)
    then have "\<exists>e. q = Inl e"
      by (rule null_log_fails_scan [OF size rpc _ _ _ _ _ q, where lg = lg])
        (use lg head in \<open>simp_all add: addr\<close>)
    with run q have "v' = v1" by (auto simp: runOnePass_def bind_run_def)
    with scanContract_requests [OF size q] J runOnePass_sound [OF size rpc apart _ run] apart
    show ?thesis by (fastforce simp: J_def addr)
  qed
  obtain r w' where run: "mainLoop S A n w = Some (r, w')" using mainLoop_returns [OF size] by blast
  obtain q v where e: "ensureSchema S w = (q, v)" by fastforce
  have v: "database v = empty_db" "log_requests v = []"
    using ensureSchema_database [OF e] start e
    by (auto simp: ensureSchema_def getPool_then dest!: pool_query_fields(5))
  have "J w'"
  proof (cases q)
    case (Inl x)
    with run e v show ?thesis by (auto simp: mainLoop_def J_def both_sound_empty)
  next
    case (Inr x)
    with run e have "main_turns S A n (v\<lparr>console := console v @ [start_line S]\<rparr>) = Some w'"
      by (auto simp: mainLoop_def split: option.splits)
    then show ?thesis
      by (rule main_turns_world [where J = J, OF pass, rotated -1]) (auto simp: J_def v both_sound_empty)
  qed
  with run show ?thesis by (auto simp: J_def)
qed

section \<open>Concrete chains\<close>

definition sol_decoder :: abi_decoder where
  "sol_decoder = \<lparr>checksum = (\<lambda>a. ''0x'' @ dec (uint a)), hexlify = (\<lambda>b. ''0x'' @ dec (uint b)),
     uint8_value = StatusNumber\<rparr>"

definition sol_calls :: "registry_call list" where
  "sol_calls = [Call_submitClaim 1 5 60, Call_setClaimStatus 1 St_Approved]"

definition sol_mined :: contract where
  "sol_mined = \<lparr>contract_address = ex_registry, parseLog = (\<lambda>lg. decode_registry sol_decoder
     (if log_data lg = ''submitted'' then EmitClaimSubmitted 1 1 3 5 60 1010
      else EmitClaimStatusChanged 1 St_Approved))\<rparr>"

lemma sol_decided:
  "registry_logs (sol_registry 100 sol_calls) =
     [EmitClaimSubmitted 1 1 3 5 60 1010, EmitClaimStatusChanged 1 St_Approved] \<and>
   c_claimant (claim_at (sol_registry 100 sol_calls) 1) = 3 \<and>
   c_status (claim_at (sol_registry 100 sol_calls) 1) = St_Approved \<and>
   c_amount (claim_at (sol_registry 100 sol_calls) 1) = 60"
  by code_simp

theorem claims_table_is_the_registry_witness:
  "\<exists>res w' row. scanContract ex_services sol_mined 0 ex_world = Some (Inr res, w') \<and>
     onchain_claims (database w') 1 = Some row \<and> cl_status row = ''approved'' \<and>
     cl_claimant_address row = ''0x3''"
proof -
  let ?r = "sol_registry 100 sol_calls"
  have storable: "log_storable ex_services sol_mined l" if "l \<in> set (ex_chain a)" for l a
    using that by (auto simp: ex_chain_def sol_mined_def log_storable_def ex_submitted_def ex_approved_def
        ex_log_def sol_decoder_def int4_def int8_def split: if_splits)
  have resume: "resume_block sol_mined 0 (database ex_world) = 0"
    by (simp add: resume_block_def ex_world_def empty_db_facts)
  obtain res w' where run: "scanContract ex_services sol_mined 0 ex_world = Some (Inr res, w')"
    using scanContract_succeeds [OF _ ex_calm ex_answering, of sol_mined 0 ex_world] storable resume
    by (auto simp: ex_services_config ex_config_def)
  then have head: "safeHead res = 8"
    by (cases rule: scanContract_cases)
      (auto simp: ex_services_def ex_config_def safe_head_def split: sum.splits)
  have "claim_mirrored sol_decoder ?r (database w') 1"
  proof (rule claims_table_is_the_registry [OF _ _ _ _ _ _ _ _ _ answering_faithful [OF ex_answering] run])
    show "?r = registry_after (sol_actor 9 900) 16 32 (2 ^ 100) 5000 3600 (sol_history 100 sol_calls)"
      by (simp add: sol_registry_def)
    show "logged_call c s" if "c \<in> set (sol_history 100 sol_calls)" for c s
      using that by (auto simp: sol_history_def sol_calls_def logged_call_def from_somebody_def sol_actor_def)
    show "list_all2 (\<lambda>lg l. parseLog sol_mined lg = decode_registry sol_decoder l)
        (filter (in_range (resume_block sol_mined 0 (database ex_world)) (safeHead res))
          (ex_chain (contract_address sol_mined))) (registry_logs ?r)"
      using sol_decided unfolding resume head
      by (simp add: ex_chain_def sol_mined_def ex_submitted_def ex_approved_def ex_log_def in_range_def)
  qed (auto simp: sol_decoder_def ex_chain_def sol_mined_def ex_submitted_def ex_approved_def ex_log_def
      log_key_def ex_world_def empty_db_def ex_services_config ex_config_def)
  moreover have "toLowerCase (''0x'' @ dec 3) = ''0x3''" by code_simp
  ultimately show ?thesis using sol_decided run
    by (auto simp: claim_mirrored_def Let_def sol_decoder_def CLAIM_STATUS_NAMES_def split: option.splits)
qed

definition sol_policy_chain :: "string \<Rightarrow> rpc_log list" where
  "sol_policy_chain a = (if a = ex_policy
     then [ex_log 3 0 ''registered'', ex_log 3 1 ''subscribed'', ex_log 3 2 ''paid''] else [])"

definition sol_policy_services :: services where
  "sol_policy_services = ex_services\<lparr>getLogs := (\<lambda>n a f t. Inr (filter (in_range f t) (sol_policy_chain a)))\<rparr>"

definition sol_abis :: abis where
  "sol_abis = \<lparr>claimRegistryAbi = ex_abi, insurancePolicyAbi = (\<lambda>lg. decode_policy sol_decoder
     (if log_data lg = ''registered'' then EmitPolicyRegistered 1 3 1000 1500 100 77
      else if log_data lg = ''subscribed'' then EmitPolicySubscribed 1 1 3 1500
      else EmitPremiumPaid 1 3 5 1050))\<rparr>"

theorem subscription_stops_claim_indexing_witness:
  "\<exists>r w'. mainLoop sol_policy_services sol_abis 5 ex_world = Some (r, w') \<and>
     (ex_registry, 0, 3) \<notin> set (log_requests w')"
proof -
  let ?x = "subscribeToPolicy (sol_actor 3 1000) 1 (sol_catalog 100)"
  have x: "\<not> isl ?x \<and> fst (projr ?x) = 1 \<and>
      drop (length (policy_logs (sol_catalog 100))) (policy_logs (sol_insured 100)) =
        [EmitPolicyRegistered 1 3 1000 1500 100 77, EmitPolicySubscribed 1 1 3 1500, EmitPremiumPaid 1 3 5 1050]"
    by code_simp
  then have sub: "?x = Inr (1, sol_insured 100)" by (cases ?x) (auto simp: sol_insured_def)
  have cfg: "config sol_policy_services = ex_config"
    by (simp add: sol_policy_services_def ex_services_def)
  have "\<exists>r w'. mainLoop sol_policy_services sol_abis 5 ex_world = Some (r, w') \<and>
     (\<forall>x \<in> set (log_requests w'). fst x \<noteq> claimRegistryAddress (config sol_policy_services))"
  proof (rule subscription_stops_claim_indexing [OF _ _ _ _ _ sub])
    show "rpc_faithful sol_policy_services sol_policy_chain"
      by (auto simp: rpc_faithful_def sol_policy_services_def in_range_def [abs_def])
    show "\<exists>lg \<in> set (sol_policy_chain (insurancePolicyAddress (config sol_policy_services))).
        insurancePolicyAbi sol_abis lg = decode_policy sol_decoder l \<and> blockNumber lg = 3"
      if "l \<in> set (drop (length (policy_logs (sol_catalog 100))) (policy_logs (sol_insured 100)))" for l
      using that x unfolding cfg
      by (auto simp: sol_policy_chain_def ex_config_def sol_abis_def ex_log_def)
    show "indexer_loadConfig ex_zod ex_env = Inr (config sol_policy_services)"
      by (simp add: cfg ex_config_loads)
    show "toLowerCase (claimRegistryAddress (config sol_policy_services)) \<noteq>
        toLowerCase (insurancePolicyAddress (config sol_policy_services))"
      using ex_apart by (simp add: cfg ex_services_config)
  qed (simp_all add: ex_world_def cfg ex_config_def sol_policy_services_def ex_services_def safe_head_def)
  then show ?thesis by (fastforce simp: cfg ex_config_def)
qed

end
