(* ===== verification/Typed_Data.thy ===== *)
theory Typed_Data
  imports Contract_Properties Oracle_Async
begin

text \<open>
  The two sides of an attestation. The oracle service signs typed data with ethers, which follows EIP-712:
  the type is spelled from the list of fs, the struct and the domain are hashed, and the digest is over
  both. The adapter has the type as a literal and hashes the fs itself. They agree.
\<close>

section \<open>The digest of EIP-712\<close>

fun comma_sep :: "string list \<Rightarrow> string" where
  "comma_sep [] = []"
| "comma_sep [x] = x"
| "comma_sep (x # xs) = x @ '','' @ comma_sep xs"

definition encode_type :: "string \<Rightarrow> (string \<times> string) list \<Rightarrow> string" where
  "encode_type name fs = name @ ''('' @ comma_sep (map (\<lambda>(n, ty). ty @ '' '' @ n) fs) @ '')''"

text \<open>The value of a hex string and of a Number, as words.\<close>

definition hex_word :: "string \<Rightarrow> uint256" where
  "hex_word s = fold (\<lambda>b acc. 256 * acc + ucast b) (from_hex (drop 2 s)) 0"

definition hex_address :: "string \<Rightarrow> address" where
  "hex_address s = ucast (hex_word s)"

fun num_word :: "js_num \<Rightarrow> uint256" where
  "num_word (Fin q) = word_of_int \<lfloor>q\<rfloor>"
| "num_word _ = 0"

definition payload_field :: "oracle_payload \<Rightarrow> string \<Rightarrow> uint256" where
  "payload_field p n = (if n = ''claimId'' then num_word (pl_claimId p)
     else if n = ''requestId'' then hex_word (pl_requestId p)
     else if n = ''approved'' then of_bool (pl_approved p)
     else if n = ''timestamp'' then word_of_int (pl_timestamp p) else 0)"

definition hash_struct :: "evm \<Rightarrow> string \<Rightarrow> (string \<times> string) list \<Rightarrow> (string \<Rightarrow> uint256) \<Rightarrow> bytes32" where
  "hash_struct K name fs v = evm_keccak256 K
     (abi_word (evm_keccak256 K (literal_bytes (encode_type name fs))) @
      concat (map (\<lambda>(n, ty). abi_word (v n)) fs))"

definition domain_fields :: "(string \<times> string) list" where
  "domain_fields = [(''name'', ''string''), (''version'', ''string''), (''chainId'', ''uint256''),
     (''verifyingContract'', ''address'')]"

definition domain_field :: "evm \<Rightarrow> eip712_domain \<Rightarrow> string \<Rightarrow> uint256" where
  "domain_field K d n = (if n = ''name'' then evm_keccak256 K (literal_bytes (domain_name d))
     else if n = ''version'' then evm_keccak256 K (literal_bytes (domain_version d))
     else if n = ''chainId'' then word_of_int (domain_chainId d)
     else if n = ''verifyingContract'' then ucast (hex_address (verifyingContract d)) else 0)"

definition eip712_digest ::
  "evm \<Rightarrow> eip712_domain \<Rightarrow> string \<Rightarrow> (string \<times> string) list \<Rightarrow> oracle_payload \<Rightarrow> bytes32" where
  "eip712_digest K d name fs p = evm_keccak256 K ([0x19, 0x01] @
     abi_word (hash_struct K ''EIP712Domain'' domain_fields (domain_field K d)) @
     abi_word (hash_struct K name fs (payload_field p)))"

section \<open>The adapter computes the same digest\<close>

text \<open>The response of a transaction, from the payload the service passes to ethers.\<close>

definition response_of :: "oracle_payload \<Rightarrow> oracle_response" where
  "response_of p = \<lparr>rs_claimId = num_word (pl_claimId p), rs_requestId = hex_word (pl_requestId p),
     rs_approved = pl_approved p, rs_timestamp = word_of_int (pl_timestamp p)\<rparr>"

lemma type_literals:
  "encode_type ''OracleResponse'' ORACLE_RESPONSE_TYPES =
     ''OracleResponse(uint256 claimId,bytes32 requestId,bool approved,uint256 timestamp)''"
  "encode_type ''EIP712Domain'' domain_fields =
     ''EIP712Domain(string name,string version,uint256 chainId,address verifyingContract)''"
  by (simp_all add: encode_type_def ORACLE_RESPONSE_TYPES_def domain_fields_def)

definition same_domain :: "oracle_config \<Rightarrow> evm \<Rightarrow> oracle_adapter \<Rightarrow> bool" where
  "same_domain c K a \<longleftrightarrow> eip712_name c = eip712Name a \<and> eip712_version c = eip712Version a \<and>
     word_of_int (oc_chainId c) = chainid K \<and> hex_address (oracleAdapterAddress c) = adapter_self K"

lemma digests_agree:
  assumes "same_domain c K a"
  shows "eip712_digest K (buildDomain c) ''OracleResponse'' ORACLE_RESPONSE_TYPES p =
     hashTypedDataV4 K a (structHash K (response_of p))"
proof -
  have "hash_struct K ''OracleResponse'' ORACLE_RESPONSE_TYPES (payload_field p) = structHash K (response_of p)"
    unfolding hash_struct_def type_literals
    by (simp add: structHash_def ORACLE_RESPONSE_TYPEHASH_def response_of_def ORACLE_RESPONSE_TYPES_def
        payload_field_def)
  moreover have "hash_struct K ''EIP712Domain'' domain_fields (domain_field K (buildDomain c)) = domainSeparatorV4 K a"
    unfolding hash_struct_def type_literals using assms
    by (simp add: domainSeparatorV4_def domain_fields_def domain_field_def buildDomain_def same_domain_def)
  ultimately show ?thesis by (simp add: eip712_digest_def hashTypedDataV4_def)
qed

section \<open>Attestations\<close>

lemma recordOracleVerification_succeeds:
  assumes "\<not> registry_paused r" and "hasRole t ''ORACLE_ROLE'' (msg_sender t)"
    and "\<not> usedOracleRequestIds r rid" and "c_claimant (claim_at r cid) \<noteq> 0"
  shows "recordOracleVerification t cid rid ok r =
     Inr (emit_registry (EmitClaimStatusChanged cid (if ok then St_Approved else St_Rejected))
       (r\<lparr>usedOracleRequestIds := (usedOracleRequestIds r)(rid := True),
          claim_at := (claim_at r)(cid := (claim_at r cid)\<lparr>c_status := (if ok then St_Approved else St_Rejected),
            c_processedAt := ucast (block_timestamp t)\<rparr>)\<rparr>))"
  using assms by (auto simp: recordOracleVerification_def sol_defs Let_def set_claim_def)

lemma submitVerification_succeeds:
  assumes "\<not> adapter_paused a" and "\<not> usedRequestIds a (rs_requestId response)"
    and "uint (rs_timestamp response) \<le> uint (block_timestamp t)"
    and "uint (block_timestamp t) \<le> uint (rs_timestamp response) + uint (responseValidityWindow a)"
    and "uint (rs_timestamp response) + uint (responseValidityWindow a) < 2 ^ 256"
    and "ecdsa_recover K (hashTypedDataV4 K a (structHash K response)) signature = Inr signer"
    and "hasRole t ''ORACLE_SIGNER_ROLE'' signer" and "regs (adapter_registry a) = Some r"
    and "recordOracleVerification (t\<lparr>msg_sender := adapter_self K, hasRole := registry_roles K\<rparr>)
        (rs_claimId response) (rs_requestId response) (rs_approved response) r = Inr r'"
  shows "submitVerification K t response signature (a, regs) =
     Inr (emit_adapter (EmitVerificationSubmitted (rs_claimId response) (rs_requestId response)
            (rs_approved response) signer)
          (a\<lparr>usedRequestIds := (usedRequestIds a)(rs_requestId response := True)\<rparr>),
        regs(adapter_registry a \<mapsto> r'))"
proof -
  have "\<not> block_timestamp t < rs_timestamp response"
    "\<not> rs_timestamp response + responseValidityWindow a < block_timestamp t"
    using assms(3-5) by (simp_all add: word_less_def uint_checked_add)
  with assms show ?thesis
    by (simp add: submitVerification_def whenNotPaused_def revert_if_def checked_add_def Let_def)
qed

lemma attestation_accepted:
  assumes wallet: "getSigningWallet (lib S) (cfg S) = Inr signer"
    and law: "\<forall>d ty p sig. wallet_signTypedData (lib S) signer d ty p = Inr sig \<longrightarrow>
      ecdsa_recover K (eip712_digest K d ''OracleResponse'' ty p) (from_hex (drop 2 sig)) =
        Inr (hex_address (wallet_address signer))"
    and sent: "genuine S x"
    and domain: "same_domain (cfg S) K a"
    and roles: "hasRole t ''ORACLE_SIGNER_ROLE'' (hex_address (wallet_address signer))"
      "registry_roles K ''ORACLE_ROLE'' (adapter_self K)"
    and running: "\<not> adapter_paused a" "regs (adapter_registry a) = Some r" "\<not> registry_paused r"
    and response: "response = response_of (sub_response x)"
    and fresh: "\<not> usedRequestIds a (rs_requestId response)" "\<not> usedOracleRequestIds r (rs_requestId response)"
    and in_time: "uint (rs_timestamp response) \<le> uint (block_timestamp t)"
      "uint (block_timestamp t) \<le> uint (rs_timestamp response) + uint (responseValidityWindow a)"
      "uint (rs_timestamp response) + uint (responseValidityWindow a) < 2 ^ 256"
    and claim: "c_claimant (claim_at r (rs_claimId response)) \<noteq> 0"
  shows "\<exists>a' r'. submitVerification K t response (from_hex (drop 2 (sub_signature x))) (a, regs) =
        Inr (a', regs(adapter_registry a \<mapsto> r')) \<and>
     c_status (claim_at r' (rs_claimId response)) =
       (if pl_approved (sub_response x) then St_Approved else St_Rejected) \<and>
     (\<forall>i. i \<noteq> rs_claimId response \<longrightarrow> claim_at r' i = claim_at r i) \<and>
     (\<forall>cs K' t' again sig. rs_requestId again = rs_requestId response \<longrightarrow>
        (\<exists>e. submitVerification K' t' again sig
           (run_calls adapter_exec cs (a', regs(adapter_registry a \<mapsto> r'))) = Inl e))"
proof -
  from sent have "wallet_signTypedData (lib S) signer (buildDomain (cfg S)) ORACLE_RESPONSE_TYPES (sub_response x) =
      Inr (sub_signature x)"
    using wallet by (auto simp: genuine_def signOracleResponse_def)
  then have rec: "ecdsa_recover K (hashTypedDataV4 K a (structHash K response)) (from_hex (drop 2 (sub_signature x))) =
      Inr (hex_address (wallet_address signer))"
    using law digests_agree [OF domain] response by metis
  let ?a = "emit_adapter (EmitVerificationSubmitted (rs_claimId response) (rs_requestId response)
      (rs_approved response) (hex_address (wallet_address signer)))
    (a\<lparr>usedRequestIds := (usedRequestIds a)(rs_requestId response := True)\<rparr>)"
  obtain r' where reg: "recordOracleVerification (t\<lparr>msg_sender := adapter_self K, hasRole := registry_roles K\<rparr>)
      (rs_claimId response) (rs_requestId response) (rs_approved response) r = Inr r'"
    and r': "claim_at r' = (claim_at r)(rs_claimId response := (claim_at r (rs_claimId response))
      \<lparr>c_status := (if rs_approved response then St_Approved else St_Rejected),
       c_processedAt := ucast (block_timestamp t)\<rparr>)"
    using recordOracleVerification_succeeds [OF running(3) _ fresh(2) claim,
        of "t\<lparr>msg_sender := adapter_self K, hasRole := registry_roles K\<rparr>" "rs_approved response"] roles(2)
    by auto
  have run: "submitVerification K t response (from_hex (drop 2 (sub_signature x))) (a, regs) =
      Inr (?a, regs(adapter_registry a \<mapsto> r'))"
    by (rule submitVerification_succeeds [where regs = regs, OF running(1) fresh(1) in_time rec roles(1) running(2) reg])
  have "adapter_used (rs_requestId response) (run_calls adapter_exec cs (?a, regs(adapter_registry a \<mapsto> r')))" for cs
    by (rule spent.history_keeps) (simp_all add: adapter_used_def emit_adapter_def)
  then have "\<exists>e. submitVerification K' t' again sig (run_calls adapter_exec cs (?a, regs(adapter_registry a \<mapsto> r'))) = Inl e"
    if "rs_requestId again = rs_requestId response" for cs K' t' again sig
    using that by (intro used_request_reverts) (simp add: adapter_used_def)
  with run r' response show ?thesis by (auto simp: response_of_def intro!: exI [of _ ?a] exI [of _ r'])
qed

text \<open>
  C6 (functional). An attestation of the oracle service decides its claim, once. Let the service be configured
  for a deployed adapter, its signing wallet hold the signer role and the adapter the oracle role of the
  registry, and let ethers sign the EIP-712 digest so that the chain recovers the wallet. Then a transaction
  the service has sent that arrives within the window, for an unused request and an existing claim, succeeds,
  gives exactly that claim the status of the decision and records the request; and after any further calls
  of the adapter, a submission with that request reverts.
\<close>

theorem attestation_decides_the_claim:
  assumes wallet: "getSigningWallet (lib S) (cfg S) = Inr signer"
    and law: "\<forall>d ty p sig. wallet_signTypedData (lib S) signer d ty p = Inr sig \<longrightarrow>
      ecdsa_recover K (eip712_digest K d ''OracleResponse'' ty p) (from_hex (drop 2 sig)) =
        Inr (hex_address (wallet_address signer))"
    and served: "submissions w0 = []" "serving S num issues w0 w ts" "x \<in> set (submissions w)"
    and domain: "same_domain (cfg S) K a"
    and roles: "hasRole t ''ORACLE_SIGNER_ROLE'' (hex_address (wallet_address signer))"
      "registry_roles K ''ORACLE_ROLE'' (adapter_self K)"
    and running: "\<not> adapter_paused a" "regs (adapter_registry a) = Some r" "\<not> registry_paused r"
    and response: "response = response_of (sub_response x)"
    and fresh: "\<not> usedRequestIds a (rs_requestId response)" "\<not> usedOracleRequestIds r (rs_requestId response)"
    and in_time: "uint (rs_timestamp response) \<le> uint (block_timestamp t)"
      "uint (block_timestamp t) \<le> uint (rs_timestamp response) + uint (responseValidityWindow a)"
      "uint (rs_timestamp response) + uint (responseValidityWindow a) < 2 ^ 256"
    and claim: "c_claimant (claim_at r (rs_claimId response)) \<noteq> 0"
  shows "\<exists>a' r'. submitVerification K t response (from_hex (drop 2 (sub_signature x))) (a, regs) =
        Inr (a', regs(adapter_registry a \<mapsto> r')) \<and>
     c_status (claim_at r' (rs_claimId response)) =
       (if pl_approved (sub_response x) then St_Approved else St_Rejected) \<and>
     (\<forall>i. i \<noteq> rs_claimId response \<longrightarrow> claim_at r' i = claim_at r i) \<and>
     (\<forall>cs K' t' again sig. rs_requestId again = rs_requestId response \<longrightarrow>
        (\<exists>e. submitVerification K' t' again sig
           (run_calls adapter_exec cs (a', regs(adapter_registry a \<mapsto> r'))) = Inl e))"
proof -
  have "genuine S x" using serving_inv [OF served(1,2)] served(3) by (auto simp: oracle_inv_def list_all_iff)
  with wallet law domain roles running response fresh in_time claim show ?thesis
    by (intro attestation_accepted [of S signer K x a t regs r response])
qed

section \<open>A concrete attestation\<close>

definition sol_evm :: evm where
  "sol_evm = \<lparr>chainid = 7, adapter_self = hex_address (oracleAdapterAddress (cfg ex_oracle)),
     evm_keccak256 = (\<lambda>_. 0), ecdsa_recover = (\<lambda>_ _. Inr (hex_address ''0x11'')), registry_roles = (\<lambda>_ _. True)\<rparr>"

definition sol_adapter :: oracle_adapter where
  "sol_adapter = projr (adapter_initialize 33 600 blank_adapter)"

definition sol_sent :: submission where
  "sol_sent = hd (submissions ex_after_one)"

definition sol_attested :: claim_registry where
  "sol_attested = (sol_registry 100 [])\<lparr>claim_at := (\<lambda>_. no_claim\<lparr>c_claimant := 3\<rparr>)\<rparr>"

lemma sol_same_domain: "same_domain (cfg ex_oracle) sol_evm sol_adapter"
  by (simp add: same_domain_def sol_evm_def sol_adapter_def adapter_initialize_def initializer_def
      blank_adapter_def ex_oracle_def ex_oracle_config_def)

lemma sol_adapter_facts:
  "\<not> adapter_paused sol_adapter" "adapter_registry sol_adapter = 33" "\<not> usedRequestIds sol_adapter i"
  "responseValidityWindow sol_adapter = 600"
  by (simp_all add: sol_adapter_def adapter_initialize_def initializer_def blank_adapter_def)

lemma sol_attested_facts:
  "\<not> registry_paused sol_attested" "\<not> usedOracleRequestIds sol_attested i"
  "claim_at sol_attested j = no_claim\<lparr>c_claimant := 3\<rparr>" "c_claimant (claim_at sol_attested j) = 3"
  "c_status (claim_at sol_attested j) = St_Submitted"
  by (simp_all add: sol_attested_def sol_registry_def sol_history_def registry_after_def registry_initialize_def
      initializer_def blank_registry_def no_claim_def)

lemma sol_sent_facts:
  "pl_approved (sub_response sol_sent) \<and> rs_claimId (response_of (sub_response sol_sent)) = 5 \<and>
   uint (rs_timestamp (response_of (sub_response sol_sent))) = 1700000000"
  by code_simp

theorem attestation_decides_the_claim_witness:
  "\<exists>a' r'. submitVerification sol_evm (sol_actor 8 1700000100) (response_of (sub_response sol_sent))
       (from_hex (drop 2 (sub_signature sol_sent))) (sol_adapter, [33 \<mapsto> sol_attested]) =
       Inr (a', [33 \<mapsto> r']) \<and> c_status (claim_at r' 5) = St_Approved"
proof -
  have wallet: "getSigningWallet (lib ex_oracle) (cfg ex_oracle) =
      Inr \<lparr>wallet_key = signerPrivateKey ex_oracle_config, wallet_address = ''0x11''\<rparr>"
    by (simp add: getSigningWallet_def ex_oracle_def ex_ethers_def ex_oracle_config_def numeral_2_eq_2)
  have sent: "sol_sent \<in> set (submissions ex_after_one)"
    unfolding sol_sent_def using ex_one_submission by (intro hd_in_set) auto
  show ?thesis
    using attestation_decides_the_claim [OF wallet _ ex_nothing_sent ex_serving sent sol_same_domain, of "sol_actor 8 1700000100"
        "[33 \<mapsto> sol_attested]" sol_attested "response_of (sub_response sol_sent)"] sol_sent_facts
    by (auto simp: sol_adapter_facts sol_attested_facts sol_evm_def sol_actor_def)
qed

end
