(* ===== verification/Backend_Properties.thy ===== *)
theory Backend_Properties
  imports Backend Chain_Properties Typed_Data
begin

text \<open>
  The backend on its own and between its neighbours: the login nonce, the idempotency key of a verification,
  the notifications it gets from the indexer, and the claim it asks the oracle service about.
\<close>

section \<open>Login\<close>

datatype login_step = NewNonce string int string | TryLogin int string string

text \<open>A sequence of requests for nonces and login attempts; how many attempts for an address succeed.\<close>

fun logins :: "(string \<Rightarrow> string \<Rightarrow> string option) \<Rightarrow> string \<Rightarrow> string \<Rightarrow> login_step list \<Rightarrow> backend_db \<Rightarrow> nat" where
  "logins recover prefix a [] db = 0"
| "logins recover prefix a (NewNonce tk now address # steps) db =
     logins recover prefix a steps (snd (generate_nonce tk now address db))"
| "logins recover prefix a (TryLogin now address signature # steps) db =
     (case verify_signature_and_consume_nonce recover prefix now address signature db of
        (ok, db') \<Rightarrow> (if ok \<and> toLowerCase address = a then 1 else 0) + logins recover prefix a steps db')"

fun renews :: "string \<Rightarrow> login_step \<Rightarrow> bool" where
  "renews a (NewNonce tk now address) \<longleftrightarrow> toLowerCase address = a"
| "renews a (TryLogin now address signature) \<longleftrightarrow> False"

definition spent_nonce :: "string \<Rightarrow> backend_db \<Rightarrow> bool" where
  "spent_nonce a db \<longleftrightarrow> (case bk_nonces db a of None \<Rightarrow> True | Some r \<Rightarrow> wn_used r)"

lemma verify_spent:
  assumes "verify_signature_and_consume_nonce recover prefix now address signature db = (ok, db')"
  shows "spent_nonce a db \<Longrightarrow> spent_nonce a db' \<and> \<not> (ok \<and> toLowerCase address = a)"
    and "ok \<Longrightarrow> spent_nonce (toLowerCase address) db'"
  using assms
  by (auto simp: verify_signature_and_consume_nonce_def spent_nonce_def Let_def split: option.splits if_splits)

lemma logins_spent:
  assumes "spent_nonce a db" and "list_all (\<lambda>st. \<not> renews a st) steps"
  shows "logins recover prefix a steps db = 0"
  using assms
proof (induction steps arbitrary: db)
  case (Cons st steps)
  show ?case
  proof (cases st)
    case (NewNonce tk now address)
    then have "spent_nonce a (snd (generate_nonce tk now address db))"
      using Cons.prems by (auto simp: spent_nonce_def generate_nonce_def Let_def)
    with Cons NewNonce show ?thesis by simp
  next
    case (TryLogin now address signature)
    obtain ok db' where v: "verify_signature_and_consume_nonce recover prefix now address signature db = (ok, db')"
      by fastforce
    from verify_spent(1) [OF v Cons.prems(1)] Cons TryLogin v show ?thesis by auto
  qed
qed simp

text \<open>
  C15 (safety). A nonce opens at most one session: as long as no new nonce is issued for an address, at most
  one of any sequence of login attempts for it succeeds, whatever the signatures, and after an attempt on a
  valid nonce, even one with a signature that is malformed or of another wallet, none does.
\<close>

theorem nonce_opens_one_session:
  assumes "list_all (\<lambda>st. \<not> renews a st) steps"
  shows "logins recover prefix a steps db \<le> 1 \<and>
     (\<forall>now address signature r. toLowerCase address = a \<and> bk_nonces db a = Some r \<and> now \<le> wn_expires_at r \<longrightarrow>
        logins recover prefix a steps
          (snd (verify_signature_and_consume_nonce recover prefix now address signature db)) = 0)"
proof (intro conjI allI impI)
  show "logins recover prefix a steps db \<le> 1"
    using assms
  proof (induction steps arbitrary: db)
    case (Cons st steps)
    show ?case
    proof (cases st)
      case (TryLogin now address signature)
      obtain ok db' where v: "verify_signature_and_consume_nonce recover prefix now address signature db = (ok, db')"
        by fastforce
      have rest: "logins recover prefix a steps db' = 0" if "ok" "toLowerCase address = a"
        by (rule logins_spent) (use verify_spent(2) [OF v] that Cons.prems in auto)
      have "logins recover prefix a steps db' \<le> 1" by (rule Cons.IH) (use Cons.prems in auto)
      with rest TryLogin v show ?thesis by auto
    qed (use Cons in simp)
  qed simp
next
  fix now address signature r
  assume "toLowerCase address = a \<and> bk_nonces db a = Some r \<and> now \<le> wn_expires_at r"
  then have "spent_nonce a (snd (verify_signature_and_consume_nonce recover prefix now address signature db))"
    by (auto simp: verify_signature_and_consume_nonce_def spent_nonce_def Let_def split: option.split)
  then show "logins recover prefix a steps
      (snd (verify_signature_and_consume_nonce recover prefix now address signature db)) = 0"
    using assms by (rule logins_spent)
qed

section \<open>Idempotency\<close>


section \<open>Notifications\<close>

lemma report_not_a_notification: "OnchainEventNotification V (claim_report name cid mroot tx st) = None"
  by (simp add: OnchainEventNotification_def claim_report_def split: option.split)

text \<open>Every post so far carries the configured key and a report in the shape of the event handlers.\<close>

definition only_reports :: "services \<Rightarrow> world \<Rightarrow> bool" where
  "only_reports S w \<longleftrightarrow> (\<forall>p \<in> set (posts w). post_key p = backendWebhookApiKey (config S) \<and>
     (\<exists>name cid mroot tx st. post_body p = claim_report name cid mroot tx st))"

lemma reports_report:
  "stays (\<lambda>w w'. only_reports S w \<longrightarrow> only_reports S w') (reportClaimEvent S (claim_report name cid mroot tx st))"
  by (rule staysI)
    (fastforce simp: reportClaimEvent_def only_reports_def Let_def split: option.split fetch_result.split)

lemma reports_same: "(\<And>w. posts (snd (m w)) = posts w) \<Longrightarrow> stays (\<lambda>w w'. only_reports S w \<longrightarrow> only_reports S w') m"
  by (rule staysI) (simp add: only_reports_def)

lemma reports_query: "stays (\<lambda>w w'. only_reports S w \<longrightarrow> only_reports S w') (pool_query S' objs stmt)"
  by (rule reports_same) (metis pool_query_fields(1) prod.collapse)

lemma reports_getPool: "stays (\<lambda>w w'. only_reports S w \<longrightarrow> only_reports S w') getPool"
  by (rule reports_same) (simp add: getPool_app)

lemma reports_put_line: "stays (\<lambda>w w'. only_reports S w \<longrightarrow> only_reports S w') (put_line l)"
  by (rule reports_same) (simp add: put_line_def modify_m_app)

lemma reports_getLogs: "stays (\<lambda>w w'. only_reports S w \<longrightarrow> only_reports S w') (rpc_getLogs S' a f t)"
  by (rule reports_same) (simp add: rpc_getLogs_def)

lemmas reports_rules = reports_report reports_query reports_getPool reports_put_line reports_getLogs
  kept.stays_rules

lemma reports_aftermath: "stays (\<lambda>w w'. only_reports S w \<longrightarrow> only_reports S w') (aftermath S lg ev)"
  by (cases ev) (auto intro!: reports_rules split: list.split)

lemma reports_processLogs: "stays (\<lambda>w w'. only_reports S w \<longrightarrow> only_reports S w') (processLogs S C ls)"
proof -
  have "stays (\<lambda>w w'. only_reports S w \<longrightarrow> only_reports S w') (processLog S C lg)" for lg
  proof (cases rule: processLog_cases [of S C lg])
    case (handled ev)
    show ?thesis unfolding handled(3) once_def persistRawEventOnce_def
      by (intro reports_rules reports_aftermath)
  qed (auto intro: reports_rules)
  then show ?thesis unfolding processLogs_def by (rule kept.stays_sum)
qed

lemma reports_chunk: "stays (\<lambda>w w'. only_reports S w \<longrightarrow> only_reports S w') (scan_chunk S C head cursor)"
  unfolding scan_chunk_def Let_def setLastProcessedBlock_def by (intro reports_rules reports_processLogs)

lemma reports_resume: "stays (\<lambda>w w'. only_reports S w \<longrightarrow> only_reports S w') (getLastProcessedBlock S' a)"
  unfolding getLastProcessedBlock_def by (intro reports_rules)

lemma reports_scan:
  assumes size: "0 < blockRangeChunkSize (config S)" and run: "scanContract S C deploy w = Some (r, w')"
    and w: "only_reports S w"
  shows "only_reports S w'"
proof -
  obtain q w2 where g: "getLastProcessedBlock S (contract_address C) (w\<lparr>rpcs := Suc (rpcs w)\<rparr>) = (q, w2)" by fastforce
  have w1: "only_reports S (w\<lparr>rpcs := Suc (rpcs w)\<rparr>)" using w by (simp add: only_reports_def)
  with staysE [OF reports_resume g] have w2: "only_reports S w2" by blast
  have loop: "only_reports S v'" if "scan_loop S C head start acc v = Some (x, v')" "only_reports S v" for head start acc v x v'
    using scan_loop_stays [where R = "\<lambda>w w'. only_reports S w \<longrightarrow> only_reports S w'", OF size _ _ reports_chunk that(1)] that(2) by blast
  show ?thesis using run g w1 w2 loop
    by (auto simp: scanContract_def rpc_getBlockNumber_def bind_run_def Let_def
        split: sum.splits if_splits option.splits)
qed

lemma reports_pass:
  assumes size: "0 < blockRangeChunkSize (config S)" and "only_reports S w" and "runOnePass S A w = Some (r, w')"
  shows "only_reports S w'"
  using assms(2,3) reports_scan [OF size] by (auto simp: runOnePass_def bind_run_Some)

lemma mainLoop_reports:
  assumes "0 < blockRangeChunkSize (config S)" and "posts w = []" and "mainLoop S A n w = Some (r, w')"
  shows "only_reports S w'"
proof -
  obtain q v where e: "ensureSchema S w = (q, v)" by fastforce
  have v: "only_reports S v" using assms(2) e
    by (auto simp: ensureSchema_def getPool_then only_reports_def dest!: pool_query_fields(1))
  show ?thesis
  proof (cases q)
    case (Inl x)
    with assms(3) e v show ?thesis by (simp add: mainLoop_def)
  next
    case (Inr x)
    with assms(3) e have "main_turns S A n (v\<lparr>console := console v @ [start_line S]\<rparr>) = Some w'"
      by (auto simp: mainLoop_def split: option.splits)
    then show ?thesis
      by (rule main_turns_world [where J = "only_reports S", OF reports_pass [OF assms(1)], rotated -1])
        (use v in \<open>auto simp: only_reports_def\<close>)
  qed
qed

text \<open>
  C27 (error). The backend rejects every notification of the indexer: the webhook requires
  \<^verbatim>\<open>onchain_claim_id\<close>, \<^verbatim>\<open>merkle_root\<close> and \<^verbatim>\<open>tx_hash\<close> and the indexer sends \<^verbatim>\<open>onchainClaimId\<close>,
  \<^verbatim>\<open>merkleRoot\<close> and \<^verbatim>\<open>txHash\<close>, so in every state of the main loop, each post made so far is, with the
  shared key, answered with 422 and changes no claim of the backend.
\<close>

theorem every_notification_is_rejected:
  assumes "indexer_loadConfig z env = Inr (config S)" and "backendWebhookApiKey (config S) = Some key"
    and "ascii_text key" and "posts w = []"
  shows "\<exists>r w'. mainLoop S A n w = Some (r, w') \<and>
     list_all (\<lambda>p. receive_onchain_event V key (post_key p) (post_body p) db = (unprocessable, db)) (posts w')"
proof -
  have size: "0 < blockRangeChunkSize (config S)" by (rule loaded_chunk_size [OF assms(1)])
  obtain r w' where run: "mainLoop S A n w = Some (r, w')" using mainLoop_returns [OF size] by blast
  have "list_all (\<lambda>p. receive_onchain_event V key (post_key p) (post_body p) db = (unprocessable, db)) (posts w')"
    using mainLoop_reports [OF size assms(4) run] assms(2,3)
    by (auto simp: only_reports_def list_all_iff receive_onchain_event_def
        require_indexer_webhook_key_def report_not_a_notification)
  with run show ?thesis by blast
qed

section \<open>Which claim is verified\<close>

lemma claim_by_id_id: "claim_by_id db i = Some c \<Longrightarrow> bc_id c = i"
  by (auto simp: claim_by_id_def find_Some_iff)

lemma trigger_asks:
  assumes "claim_by_id db i = Some c"
  shows "fst (snd (trigger_verification V oracle i who None db)) = [verification_body i (bc_declared_amount c)]"
  using assms claim_by_id_id [OF assms]
  by (auto simp: trigger_verification_def Let_def split: option.split sum.split oracle_failure.split)

lemma schema_claim: "verifyRequestSchema (verification_body i amt) = Some req \<Longrightarrow> vr_claimId req = js_int i"
  by (auto simp: verifyRequestSchema_def verification_body_def number_field_def bind_eq_Some_conv
      split: if_splits)

text \<open>
  C29 (error). A verification decides the wrong claim: the backend asks the oracle service about the number of
  its own row, although the row has the identifier of the claim on the chain. When the service relays its
  decision and the adapter accepts it, the claim on the chain whose identifier happens to be the number of
  the row is approved or rejected, and every other claim is left as it was, the one the row belongs to
  included when its identifier is another.
\<close>

theorem verification_decides_the_row_number:
  assumes row: "claim_by_id db i = Some c" "bc_onchain_claim_id c = Some m" "word_of_int m \<noteq> (word_of_int i :: uint256)"
    and asked: "trigger_verification V oracle i who None db = (reply, [body], db')"
    and service: "oracle_loadConfig z env = Some (cfg S, warned)" "verifyRequestSchema body = Some req"
      "post_verify S num issues (Some (apiKey (cfg S))) body w = Some (Inr answer, w')"
      "submissions w' = submissions w @ [x]"
    and wallet: "getSigningWallet (lib S) (cfg S) = Inr signer"
    and law: "\<forall>d ty p sig. wallet_signTypedData (lib S) signer d ty p = Inr sig \<longrightarrow>
      ecdsa_recover K (eip712_digest K d ''OracleResponse'' ty p) (from_hex (drop 2 sig)) =
        Inr (hex_address (wallet_address signer))"
    and domain: "same_domain (cfg S) K a"
    and roles: "hasRole t ''ORACLE_SIGNER_ROLE'' (hex_address (wallet_address signer))"
      "registry_roles K ''ORACLE_ROLE'' (adapter_self K)"
    and running: "\<not> adapter_paused a" "regs (adapter_registry a) = Some r" "\<not> registry_paused r"
    and response: "response = response_of (sub_response x)"
    and fresh: "\<not> usedRequestIds a (rs_requestId response)" "\<not> usedOracleRequestIds r (rs_requestId response)"
    and in_time: "uint (rs_timestamp response) \<le> uint (block_timestamp t)"
      "uint (block_timestamp t) \<le> uint (rs_timestamp response) + uint (responseValidityWindow a)"
      "uint (rs_timestamp response) + uint (responseValidityWindow a) < 2 ^ 256"
    and claim: "c_claimant (claim_at r (word_of_int i)) \<noteq> 0"
  shows "\<exists>a' r'. submitVerification K t response (from_hex (drop 2 (sub_signature x))) (a, regs) =
        Inr (a', regs(adapter_registry a \<mapsto> r')) \<and>
     c_status (claim_at r' (word_of_int i)) =
       (if pl_approved (sub_response x) then St_Approved else St_Rejected) \<and>
     claim_at r' (word_of_int m) = claim_at r (word_of_int m)"
proof -
  have body: "body = verification_body i (bc_declared_amount c)"
    using trigger_asks [OF row(1), of V "oracle" who] asked by simp
  have key: "apiKey (cfg S) \<noteq> []"
    using oracle_config_sound(1) [OF service(1)] by (auto simp: oracle_config_ok_def)
  from service(3) key service(2) obtain j and y :: response where
    "http_status y = 502 \<and> submissions w' = submissions w \<or>
     (\<exists>s ts. submissions w' = submissions w @ [s] \<and> sub_response s = response_for S req j ts \<and>
        genuine S s \<and> http_status y \<in> {200, 502})"
    by (rule post_verify_accepted) blast
  with service(4) obtain ts where x: "sub_response x = response_for S req j ts" "genuine S x" by auto
  have "rs_claimId response = word_of_int i"
    using schema_claim [OF service(2) [unfolded body]] x(1) response
    by (simp add: response_of_def response_for_def js_int_def)
  note own = this
  have "c_claimant (claim_at r (rs_claimId response)) \<noteq> 0" using claim own by simp
  from attestation_accepted [where regs = regs, OF wallet law x(2) domain roles running response fresh in_time this]
  show ?thesis unfolding own using row(3) by blast
qed

section \<open>Concrete runs\<close>

text \<open>The claim of row 5 is claim 8 of the chain.\<close>

definition py_claim :: backend_claim where
  "py_claim = \<lparr>bc_id = 5, bc_policy_id = 1, bc_claimant_address = ''0xab'', bc_declared_amount = js_int 250,
     bc_merkle_root = Some ''0x5eed'', bc_merkle_salt = None, bc_status = ''submitted'',
     bc_onchain_claim_id = Some 8, bc_tx_hash = None, bc_oracle_request_id = None, bc_created_at = 0,
     bc_documents = []\<rparr>"

definition py_db :: backend_db where
  "py_db = \<lparr>bk_claims = [py_claim], bk_next_id = 6, bk_keys = Map.empty,
     bk_nonces = [''0xab'' \<mapsto> \<lparr>wn_nonce = ''n'', wn_expires_at = 100, wn_used = False\<rparr>]\<rparr>"

definition py_oracle :: "js_value \<Rightarrow> http_answer" where
  "py_oracle body = HttpAnswer 200 (Some (JObject [(''approved'', JBool True), (''reason'', JString ''ok''),
     (''requestId'', JString ''0x01''), (''txHash'', JString ''0xbeef'')])) []"

theorem nonce_opens_one_session_witness:
  "logins (\<lambda>m s. Some ''0xAB'') ''login'' ''0xab'' [TryLogin 50 ''0xAB'' ''s'', TryLogin 50 ''0xAB'' ''s''] py_db = 1 \<and>
   logins (\<lambda>m s. Some ''0xAB'') ''login'' ''0xab'' [TryLogin 50 ''0xAB'' ''s'', TryLogin 50 ''0xAB'' ''s''] py_db \<le> 1"
proof -
  have "logins (\<lambda>m s. Some ''0xAB'') ''login'' ''0xab'' [TryLogin 50 ''0xAB'' ''s'', TryLogin 50 ''0xAB'' ''s''] py_db = 1"
    by code_simp
  then show ?thesis using nonce_opens_one_session [of "''0xab''" "[TryLogin 50 ''0xAB'' ''s'', TryLogin 50 ''0xAB'' ''s'']"
        "\<lambda>m s. Some ''0xAB''" "''login''" py_db] by simp
qed


theorem every_notification_is_rejected_witness:
  "\<exists>r w'. mainLoop ex_services ex_abis 1 ex_world = Some (r, w') \<and>
     list_all (\<lambda>p. receive_onchain_event py_pydantic ''0123456789abcdef'' (post_key p) (post_body p) py_db =
       (unprocessable, py_db)) (posts w')"
  by (rule every_notification_is_rejected [OF ex_loaded])
    (simp_all add: ex_services_config ex_config_def ex_world_def ascii_text_def)

definition py_posted :: "((js_error + response) \<times> oracle_world) option" where
  "py_posted = post_verify ex_oracle (\<lambda>_. []) id (Some (apiKey (cfg ex_oracle)))
     (verification_body 5 (js_int 250)) ex_oracle_world"

definition py_sent :: submission where
  "py_sent = hd (submissions (snd (the py_posted)))"

lemma py_posted_facts:
  "py_posted \<noteq> None \<and> \<not> isl (fst (the py_posted)) \<and> length (submissions (snd (the py_posted))) = 1 \<and>
   pl_approved (sub_response py_sent) \<and>
   uint (rs_timestamp (response_of (sub_response py_sent))) = 1700000000"
  by code_simp

theorem verification_decides_the_row_number_witness:
  "\<exists>a' r'. submitVerification sol_evm (sol_actor 8 1700000100) (response_of (sub_response py_sent))
       (from_hex (drop 2 (sub_signature py_sent))) (sol_adapter, [33 \<mapsto> sol_attested]) = Inr (a', [33 \<mapsto> r']) \<and>
     c_status (claim_at r' 5) = St_Approved \<and> c_status (claim_at r' 8) = St_Submitted"
proof -
  let ?body = "verification_body 5 (js_int 250)"
  obtain answer w' where post: "post_verify ex_oracle (\<lambda>_. []) id (Some (apiKey (cfg ex_oracle))) ?body
      ex_oracle_world = Some (Inr answer, w')" and one: "length (submissions w') = 1"
    and first: "hd (submissions w') = py_sent"
    using py_posted_facts by (cases "fst (the py_posted)"; cases py_posted) (auto simp: py_sent_def py_posted_def)
  then have sent: "submissions w' = submissions ex_oracle_world @ [py_sent]"
    by (cases "submissions w'") (auto simp: ex_nothing_sent)
  have row: "claim_by_id py_db 5 = Some py_claim" "bc_onchain_claim_id py_claim = Some 8"
    by (simp_all add: claim_by_id_def py_db_def py_claim_def)
  obtain reply calls db' where asked: "trigger_verification py_pydantic py_oracle 5 ''0xab'' None py_db = (reply, calls, db')"
    by (cases "trigger_verification py_pydantic py_oracle 5 ''0xab'' None py_db") auto
  have "calls = [?body]"
    using trigger_asks [OF row(1), of py_pydantic py_oracle "''0xab''"] asked by (simp add: py_claim_def)
  with asked have asked: "trigger_verification py_pydantic py_oracle 5 ''0xab'' None py_db = (reply, [?body], db')" by simp
  have schema: "verifyRequestSchema ?body = Some \<lparr>vr_claimId = js_int 5, vr_declaredAmount = js_int 250,
      vr_evidenceSummary = None\<rparr>" by code_simp
  have wallet: "getSigningWallet (lib ex_oracle) (cfg ex_oracle) =
      Inr \<lparr>wallet_key = signerPrivateKey ex_oracle_config, wallet_address = ''0x11''\<rparr>"
    by (simp add: getSigningWallet_def ex_oracle_def ex_ethers_def ex_oracle_config_def numeral_2_eq_2)
  have config: "oracle_loadConfig ex_oracle_zod ex_oracle_env = Some (cfg ex_oracle, True)"
    by (simp add: ex_oracle_cfg ex_oracle_loads)
  show ?thesis
    using verification_decides_the_row_number [OF row _ asked config schema post sent wallet _ sol_same_domain,
        of "sol_actor 8 1700000100" "[33 \<mapsto> sol_attested]" sol_attested] py_posted_facts
    by (auto simp: sol_adapter_facts sol_attested_facts sol_evm_def sol_actor_def)
      (rule exI, rule conjI [OF refl], simp add: no_claim_def)
qed

end
