(* ===== verification/Portal_History.thy ===== *)
theory Portal_History
  imports Portal_Properties Backend_Properties
begin

text \<open>
  The backend over time, between the frontend and the indexer: what the pages can show after any history of
  requests of the two.
\<close>

section \<open>Histories\<close>

text \<open>The request of \<^verbatim>\<open>reportClaimEvent\<close>; \<^verbatim>\<open>fetch\<close> sends a header that is undefined as this word.\<close>

definition webhook_request :: "webhook_post \<Rightarrow> http_request" where
  "webhook_request p = \<lparr>rq_method = ''POST'', rq_path = ''/internal/onchain-events'', rq_params = [],
     rq_headers = [(''Content-Type'', ''application/json''), (''X-Indexer-Webhook-Key'',
       case post_key p of None \<Rightarrow> ''undefined'' | Some k \<Rightarrow> k)], rq_body = Some (post_body p)\<rparr>"

text \<open>The tables after a sequence of requests; what the framework answers by itself leaves them alone.\<close>

fun serve_all :: "backend_conf \<Rightarrow> (moment \<times> http_request) list \<Rightarrow> backend_db \<Rightarrow> backend_db" where
  "serve_all C [] db = db"
| "serve_all C ((M, q) # qs) db = serve_all C qs
     (case serve C M q db of None \<Rightarrow> db | Some (r, calls, db') \<Rightarrow> db')"

fun is_trigger :: "api_call \<Rightarrow> bool" where
  "is_trigger (TriggerVerification tok i key) = True"
| "is_trigger _ = False"

definition all_draft :: "backend_db \<Rightarrow> bool" where
  "all_draft db \<longleftrightarrow> list_all (\<lambda>c. bc_status c = ''draft'') (bk_claims db)"

fun settles :: "endpoint \<Rightarrow> bool" where
  "settles (TriggerRoute seg) = True"
| "settles WebhookRoute = True"
| "settles _ = False"

lemma verify_keeps_claims:
  "bk_claims (snd (verify_signature_and_consume_nonce recover prefix now address signature db)) = bk_claims db"
  by (auto simp: verify_signature_and_consume_nonce_def Let_def split: option.split)

text \<open>Only the verification and the webhook can change the status of a claim.\<close>

lemma handle_keeps_draft:
  assumes "handle C M q e db = (r, calls, db')" and "\<not> settles e" and "all_draft db"
  shows "all_draft db'"
proof (cases e)
  case GetNonceRoute
  with assms show ?thesis
    by (auto simp: get_nonce_def generate_nonce_def all_draft_def Let_def split: prod.splits option.splits if_splits)
next
  case LoginRoute
  have "bk_claims (snd (login_wallet C M (body_of q) db)) = bk_claims db"
    by (auto simp: login_wallet_def split: option.split prod.split) (metis verify_keeps_claims snd_conv)+
  with assms LoginRoute show ?thesis by (auto simp: all_draft_def split: prod.splits)
next
  case CreateClaimRoute
  with assms show ?thesis
    by (auto simp: as_caller_def create_claim_def all_draft_def Let_def split: sum.splits option.splits prod.splits if_splits)
qed (use assms in \<open>auto simp: as_caller_def with_id_def split: sum.splits option.splits\<close>)

lemma client_route:
  assumes "route_of (request_of c) = Some e" and "\<not> is_trigger c"
  shows "\<not> settles e"
  using assms by (cases c) (auto simp: route_of_def api_get_def api_post_def Let_def split: if_splits)

lemma report_keeps:
  assumes "serve C M (webhook_request p) db = Some (r, calls, db')" and "post_body p = claim_report name cid mroot tx st"
  shows "db' = db"
  using assms
  by (auto simp: serve_def route_of_def webhook_request_def body_of_def receive_onchain_event_def
      report_not_a_notification split: option.splits prod.splits)

lemma history_keeps_draft:
  assumes "\<And>M q. (M, q) \<in> set qs \<Longrightarrow> (\<exists>c. q = request_of c \<and> \<not> is_trigger c) \<or>
      (\<exists>p name cid mroot tx st. q = webhook_request p \<and> post_body p = claim_report name cid mroot tx st)"
    and "all_draft db"
  shows "all_draft (serve_all C qs db)"
  using assms
proof (induction qs arbitrary: db)
  case (Cons x qs)
  obtain M q where x: "x = (M, q)" by fastforce
  have "all_draft (case serve C M q db of None \<Rightarrow> db | Some (r, calls, db') \<Rightarrow> db')"
  proof (cases "serve C M q db")
    case (Some y)
    obtain r calls db' where y: "y = (r, calls, db')" by (cases y) auto
    from Cons.prems(1) [of M q] x consider c where "q = request_of c" "\<not> is_trigger c"
      | p name cid mroot tx st where "q = webhook_request p" "post_body p = claim_report name cid mroot tx st" by auto
    then have "all_draft db'"
    proof cases
      case 1
      with Some y obtain e where "route_of q = Some e" "handle C M q e db = (r, calls, db')"
        by (auto simp: serve_def simp del: request_of.simps)
      with 1 client_route handle_keeps_draft Cons.prems(2) show ?thesis by blast
    next
      case 2
      with Some y report_keeps Cons.prems(2) show ?thesis by blast
    qed
    with Some y show ?thesis by simp
  qed (use Cons.prems in simp)
  then have "all_draft (serve_all C qs (case serve C M q db of None \<Rightarrow> db | Some (r, calls, db') \<Rightarrow> db'))"
    by (intro Cons.IH) (use Cons.prems(1) in auto)
  with x show ?case by simp
qed simp

section \<open>The button that starts a verification\<close>

lemma claim_by_id_in: "claim_by_id db i = Some c \<Longrightarrow> c \<in> set (bk_claims db)"
  by (auto simp: claim_by_id_def find_Some_iff)

lemma looked_up_claim:
  assumes "serve C M (request_of (GetClaim tok i)) db = Some (rep, calls, db')" and "reply_code rep < 300"
  shows "\<exists>c \<in> set (bk_claims db). reply_content rep = ClaimOut C c"
proof -
  from assms(1) obtain e where e: "route_of (request_of (GetClaim tok i)) = Some e"
    and h: "handle C M (request_of (GetClaim tok i)) e db = (rep, calls, db')"
    by (auto simp: serve_def simp del: request_of.simps)
  from e have "\<exists>seg. e = GetClaimRoute seg"
    by (auto simp: route_of_def api_get_def Let_def split: if_splits)
  with h assms(2) show ?thesis
    by (auto simp: as_caller_def with_id_def claim_reply_def get_claim_def get_current_address_def
        http_exception_def unprocessable_def server_error_def
        simp del: request_of.simps split: option.splits sum.splits if_splits js_value.splits)
      (use claim_by_id_in in blast)
qed

lemma read_claim_status: "read_claim (ClaimOut C c) = Some d \<Longrightarrow> cd_status d = bc_status c"
  by (auto simp: read_claim_def ClaimOut_def)

text \<open>
  C28 (error). No verification is ever offered: a claim starts as a draft, the page has the button only for a
  submitted one, and the only thing that could make it submitted, the notification of the indexer, is
  rejected. After any history of requests that the pages make without that button and of notifications that
  a run of the indexer has posted, from an empty table of claims on, a search on the status page ends
  without the button, whichever claim is looked up.
\<close>

theorem verification_is_never_offered:
  assumes indexer: "indexer_loadConfig z env = Inr (config S)" "posts w = []" "mainLoop S A n w = Some (x, w')"
    and history: "\<And>M q. (M, q) \<in> set qs \<Longrightarrow> (\<exists>c. q = request_of c \<and> \<not> is_trigger c) \<or>
      (\<exists>p \<in> set (posts w'). q = webhook_request p)"
    and start: "bk_claims db = []"
    and search: "serve C M (request_of (GetClaim (case auth_state.token (auth s) of None \<Rightarrow> ''null'' | Some t \<Rightarrow> t)
        (in_claimId (lookup s)))) (serve_all C qs db) = Some (rep, calls, db')"
      "axios_says read_claim rep (be_claim E (length (api_log s)))" "handleSearch E B s = (r, s')"
  shows "verify_button (lookup s') = None"
proof -
  have "only_reports S w'" by (rule mainLoop_reports [OF loaded_chunk_size [OF indexer(1)] indexer(2,3)])
  then have draft: "all_draft (serve_all C qs db)"
    using history start by (intro history_keeps_draft) (fastforce simp: only_reports_def all_draft_def)+
  show ?thesis
  proof (cases "be_claim E (length (api_log s))")
    case (Inl e)
    with search(3) show ?thesis by (auto simp: handleSearch_def verify_button_def effect_simps)
  next
    case (Inr d)
    with search(2) have "reply_code rep < 300" "read_claim (reply_content rep) = Some d"
      by (auto simp: axios_says_def split: if_splits)
    with looked_up_claim [OF search(1)] draft have "cd_status d = ''draft''"
      using read_claim_status by (fastforce simp: all_draft_def list_all_iff)
    with search(3) Inr show ?thesis by (auto simp: handleSearch_def verify_button_def effect_simps)
  qed
qed

section \<open>A concrete history\<close>

lemma reports_keep:
  assumes "\<And>p. p \<in> set ps \<Longrightarrow> \<exists>name cid mroot tx st. post_body p = claim_report name cid mroot tx st"
  shows "serve_all C (map (\<lambda>p. (M, webhook_request p)) ps) db = db"
  using assms
proof (induction ps)
  case (Cons p ps)
  then have "(case serve C M (webhook_request p) db of None \<Rightarrow> db | Some (r, calls, db') \<Rightarrow> db') = db"
    using report_keeps by (fastforce split: option.split)
  with Cons show ?case by simp
qed simp

definition py_filed :: http_request where
  "py_filed = request_of (CreateClaim (create_access_token py_conf 100 py_account)
     \<lparr>policy_id = js_int 3, declared_amount = js_int 250, merkle_root = ''0x'' @ replicate 64 (CHR ''1''),
      merkle_salt = ''0x'' @ replicate 64 (CHR ''2'')\<rparr>)"

definition py_search :: app where
  "py_search = py_session\<lparr>lookup := (lookup py_session)\<lparr>in_claimId := ''1''\<rparr>\<rparr>"

definition py_answers :: backend_lib where
  "py_answers = py_E\<lparr>be_claim := (\<lambda>_. Inr \<lparr>cd_id = 1, cd_policy_id = 3, cd_status = ''draft'', cd_onchain_claim_id = None\<rparr>)\<rparr>"

definition py_looked_up :: "(reply \<times> js_value list \<times> backend_db) option" where
  "py_looked_up = serve py_conf py_moment (request_of (GetClaim (create_access_token py_conf 100 py_account) ''1''))
     (serve_all py_conf [(py_moment, py_filed)] py_empty)"

lemma py_looked_up_facts:
  "py_looked_up \<noteq> None \<and> reply_code (fst (the py_looked_up)) = 200 \<and>
   read_claim (reply_content (fst (the py_looked_up))) =
     Some \<lparr>cd_id = 1, cd_policy_id = 3, cd_status = ''draft'', cd_onchain_claim_id = None\<rparr>"
proof -
  let ?tok = "create_access_token py_conf 100 py_account"
  have one: "parse_dec ''1'' = Some 1" by code_simp
  obtain row where row: "serve_all py_conf [(py_moment, py_filed)] py_empty = py_empty\<lparr>bk_claims := [row], bk_next_id := 2\<rparr>"
    "bc_id row = 1" "bc_policy_id row = 3" "bc_status row = ''draft''" "bc_onchain_claim_id row = None"
    using py_session_valid
    by (simp add: py_filed_def serve_create CreateClaimRequest_def claim_json_def optional_text_def hex_pattern_def
        hex_string_def list_all_iff digit_val_def guard_def create_claim_def js_int_def py_conf_def py_pydantic_def
        py_empty_def Let_def del: request_of.simps)
  have "serve py_conf py_moment (request_of (GetClaim ?tok ''1'')) db =
      Some (as_caller py_conf py_moment (request_of (GetClaim ?tok ''1'')) db (\<lambda>a. with_id py_conf ''1'' db (\<lambda>i.
        (claim_reply py_conf 200 (get_claim i a db), [], db))))" for db
    by (simp add: serve_def route_of_def api_get_def)
  moreover have "header_of (request_of (GetClaim ?tok ''1'')) ''Authorization'' = Some (''Bearer '' @ ?tok)"
    by (simp add: header_of_def api_get_def authHeaders_def toLowerCase_def)
  ultimately show ?thesis
    using row one py_session_valid
    by (simp add: py_looked_up_def as_caller_def with_id_def get_claim_def claim_by_id_def claim_reply_def ClaimOut_def
        read_claim_def or_null_def py_conf_def py_pydantic_def del: request_of.simps serve_all.simps)
qed

theorem verification_is_never_offered_witness:
  "verify_button (lookup (snd (handleSearch py_answers ex_B py_search))) = None \<and>
   claim (lookup (snd (handleSearch py_answers ex_B py_search))) \<noteq> None"
proof -
  have size: "0 < blockRangeChunkSize (config ex_services)" by (rule loaded_chunk_size [OF ex_loaded])
  obtain x w' where run: "mainLoop ex_services ex_abis 1 ex_world = Some (x, w')" using mainLoop_returns [OF size] by blast
  have posts: "posts ex_world = []" by (simp add: ex_world_def)
  let ?qs = "(py_moment, py_filed) # map (\<lambda>p. (py_moment, webhook_request p)) (posts w')"
  have "serve_all py_conf ?qs py_empty = serve_all py_conf [(py_moment, py_filed)] py_empty"
    using mainLoop_reports [OF size posts run] by (auto simp: only_reports_def intro!: reports_keep)
  moreover obtain rep calls db' where "py_looked_up = Some (rep, calls, db')"
    using py_looked_up_facts by (cases py_looked_up) auto
  moreover have s: "auth_state.token (auth py_search) = Some (create_access_token py_conf 100 py_account)"
    "in_claimId (lookup py_search) = ''1''" by (simp_all add: py_search_def py_session_def)
  ultimately have served: "serve py_conf py_moment (request_of (GetClaim (case auth_state.token (auth py_search) of None \<Rightarrow> ''null'' | Some t \<Rightarrow> t)
      (in_claimId (lookup py_search)))) (serve_all py_conf ?qs py_empty) = Some (rep, calls, db')"
    and ax: "axios_says read_claim rep (be_claim py_answers (length (api_log py_search)))"
    using py_looked_up_facts by (simp_all add: py_looked_up_def axios_says_def py_answers_def del: request_of.simps serve_all.simps)
  have history: "(\<exists>c. q = request_of c \<and> \<not> is_trigger c) \<or> (\<exists>p \<in> set (posts w'). q = webhook_request p)"
    if "(M, q) \<in> set ?qs" for M q
    using that by (auto simp: py_filed_def simp del: request_of.simps intro: exI [of _ "CreateClaim _ _"])
  have "bk_claims py_empty = []" by (simp add: py_empty_def)
  from verification_is_never_offered [OF ex_loaded posts run history this served ax surjective_pairing]
  show ?thesis by (auto simp: handleSearch_def effect_simps py_answers_def)
qed

end
