(* ===== verification/Spec2Isabelle.thy ===== *)
theory Spec2Isabelle
  imports System_Properties Oracle_Async Safe_Eip1193 Frontend_Async Portal_History
begin

text \<open>
  \<^bold>\<open>DICS v2, a decentralised insurance claim system: its JavaScript services, contracts and backend.\<close>

  The system is a set of smart contracts and services around them. This development models the
  JavaScript parts, under \<^verbatim>\<open>src/indexer\<close>, \<^verbatim>\<open>src/oracle-service\<close>, \<^verbatim>\<open>src/safe-ops\<close> and \<^verbatim>\<open>src/frontend\<close>, and
  what they talk to:

  \<^item> the \<^emph>\<open>indexer\<close> follows the logs of two contracts, mirrors them in PostgreSQL and tells the
    backend about claims;
  \<^item> the \<^emph>\<open>oracle service\<close> takes verification requests from the backend, decides them, signs the
    decision (EIP-712) and relays it to the OracleAdapter contract;
  \<^item> \<^emph>\<open>safe-ops\<close> holds the underwriters' multi-signature Safe: a signer whose key stays in AWS KMS,
    the collection of owners' signatures, and the operator scripts;
  \<^item> the \<^emph>\<open>frontend\<close> logs a wallet in, buys policies, pays premiums and files claims;
  \<^item> the \<^emph>\<open>contracts\<close> ClaimRegistry, InsurancePolicy and OracleAdapter
    (\<^verbatim>\<open>src/smart-contracts/contracts\<close>) hold policies and claims and pay;
  \<^item> the \<^emph>\<open>backend\<close> (\<^verbatim>\<open>src/backend/app\<close>) opens sessions, keeps the claims of the frontend and asks the
    oracle service.

  They meet in the claim: the frontend stores a claim at the backend and submits the same evidence
  root on chain, the indexer reports the submission by that root, the oracle decides, an underwriter
  acts through the Safe, and the indexer mirrors the new status.

  \<^bold>\<open>Effects.\<close> A stateful operation is a function from a state to an outcome and a state,
  \<^typ>\<open>('s, 'a) jsm\<close>; \<^const>\<open>throw_m\<close>, \<^const>\<open>try_m\<close> and \<^const>\<open>finally_m\<close> are the language's. An error
  is a value of \<^typ>\<open>js_error\<close>, and a failing operation keeps the state it has reached. The outside
  world is a record of functions (\<^typ>\<open>services\<close>, \<^typ>\<open>oracle_services\<close>, \<^typ>\<open>kms_lib\<close>,
  \<^typ>\<open>safe_sdk\<close>, \<^typ>\<open>browser_lib\<close>, \<^typ>\<open>backend_lib\<close>) whose answers depend on the number of the
  call, so the n-th call may fail and the next succeed. A call of a contract is a function from a
  state to a revert or a state, with words of the widths of the source and checked additions
  (\<^typ>\<open>'a sol\<close>); a request to the backend is a function from the tables to an answer and the tables. The theorems hold for all such records;
  what they rely on of a library is a named hypothesis (for instance that a node answers with the
  logs of the range it is asked for).

  \<^bold>\<open>Theories.\<close>

  \<^item> \<^verbatim>\<open>Prelude\<close>: effects, errors, the locale \<^verbatim>\<open>effect_order\<close> of preorders that all effects respect, and
    the locale \<^verbatim>\<open>codec\<close>. \<^verbatim>\<open>Js_Values\<close>: numbers with NaN and infinities, JSON values, printing and
    reading of numbers, bytes and hex.
  \<^item> \<^verbatim>\<open>Zod_Env\<close>, \<^verbatim>\<open>Indexer_Config\<close>: the environment schema and \<^verbatim>\<open>loadConfig\<close> (\<^verbatim>\<open>config.js\<close>).
  \<^item> \<^verbatim>\<open>Indexer_Db\<close>: tables, queries and checkpoints (\<^verbatim>\<open>schema.sql\<close>, \<^verbatim>\<open>db.js\<close>, \<^verbatim>\<open>checkpoint.js\<close>). A
    query runs, fails without effect, or runs and loses its answer. The locale \<^verbatim>\<open>checkpoint_table\<close> states
    what the scan uses of a checkpoint.
  \<^item> \<^verbatim>\<open>Event_Sink\<close>: the contract of a consumer of logs as a locale. \<^verbatim>\<open>Indexer_Events\<close>: the handlers
    (\<^verbatim>\<open>eventHandlers.js\<close>, \<^verbatim>\<open>backendClient.js\<close>).
  \<^item> \<^verbatim>\<open>Indexer_Listener\<close>: one log, a chunk, the scan loop, a pass, the main loop (\<^verbatim>\<open>listener.js\<close>,
    \<^verbatim>\<open>rpcClient.js\<close>). \<^verbatim>\<open>Indexer_Scan\<close> interprets the sink on \<^const>\<open>processLog\<close> and has the invariants of
    the scan; \<^verbatim>\<open>Indexer_Mirror\<close> the abstract mirror, a fold over logs, that the scan implements;
    \<^verbatim>\<open>Indexer_Properties\<close> the properties.
  \<^item> \<^verbatim>\<open>Oracle_Config\<close>, \<^verbatim>\<open>Oracle_Auth\<close>, \<^verbatim>\<open>Oracle_Server\<close>, \<^verbatim>\<open>Oracle_Properties\<close>: configuration, the key
    gate, identifiers, decision, signing, relay and routes. \<^verbatim>\<open>Oracle_Async\<close>: the handler cut at its waits, and
    \<^const>\<open>serving\<close>, the step relation of the running service with overlapping requests.
  \<^item> \<^verbatim>\<open>Safe_Der\<close>: the byte-level DER reader (\<^verbatim>\<open>derUtils.js\<close>), with an encoder as its specification.
    \<^verbatim>\<open>Safe_Kms\<close>: the KMS signer. \<^verbatim>\<open>Safe_Eip1193\<close>: the wallet adapter. \<^verbatim>\<open>Safe_Ops\<close>: configuration and
    \<^const>\<open>signAndExecute\<close>. \<^verbatim>\<open>Safe_Scripts\<close>: the six scripts. \<^verbatim>\<open>Safe_Properties\<close>: their properties.
  \<^item> \<^verbatim>\<open>Frontend_Contract\<close>: the wallet transactions (\<^verbatim>\<open>api/contract.js\<close>). \<^verbatim>\<open>Frontend_Pages\<close>: session, pages
    and their controls. \<^verbatim>\<open>Frontend_Properties\<close>: their properties. \<^verbatim>\<open>Frontend_Async\<close>: the status page with its
    requests in flight, as the step relation \<^const>\<open>page_step\<close> over clicks and answers in any order.
  \<^item> \<^verbatim>\<open>System_Properties\<close>: properties across the JavaScript services.
  \<^item> \<^verbatim>\<open>Solidity\<close>: words, reverts, guards, histories of calls and the locale \<^verbatim>\<open>call_invariant\<close> of what they
    keep. \<^verbatim>\<open>Insurance_Policy\<close>, \<^verbatim>\<open>Claim_Registry\<close>, \<^verbatim>\<open>Oracle_Adapter\<close>: one contract each, every external
    function and its events. \<^verbatim>\<open>Registry_Ledger\<close>: the registry's invariant and its account of payments,
    as interpretations of the locale. \<^verbatim>\<open>Contract_Properties\<close>: what the contracts promise.
  \<^item> \<^verbatim>\<open>Contract_Mirror\<close>, \<^verbatim>\<open>Chain_Properties\<close>: the contracts' logs decoded and read by the indexer.
    \<^verbatim>\<open>Typed_Data\<close>: EIP-712 as the standard defines it, and the oracle's signature on its way to the adapter.
  \<^item> \<^verbatim>\<open>Http\<close>: requests and responses. \<^verbatim>\<open>Backend\<close>: tables, nonces, claims, idempotency, webhook;
    \<^verbatim>\<open>Backend_Routes\<close>: sessions, policies and \<^const>\<open>serve\<close>, the answer to a request by its method and path.
    \<^verbatim>\<open>Backend_Properties\<close>: the backend on its own and between indexer, oracle and adapter.
  \<^item> \<^verbatim>\<open>Frontend_Http\<close>: \<^verbatim>\<open>api/client.js\<close> as the requests it makes, and the form of a claim.
    \<^verbatim>\<open>Portal_Properties\<close>, \<^verbatim>\<open>Portal_History\<close>: the frontend against the backend.

  \<^bold>\<open>What is shown.\<close>

  \<^item> \<^emph>\<open>Indexer.\<close> Under arbitrary faults of node, database and webhook no checkpoint passes a log
    that is not recorded, every row rests on recorded events, and redelivery is harmless. A successful
    scan is the abstract mirror of exactly the logs in its range; chunk sizes and interruptions are
    invisible; requests tile the range and never reach into the reorganisation margin; with services
    that answer the scan returns and reaches the safe head. The failures that block or lose data are
    theorems too: an undecodable log, a BigInt status, a crash between two statements, a rejected
    webhook.
  \<^item> \<^emph>\<open>Oracle.\<close> The gate is exact, rejected requests do nothing, an accepted one sends at most one
    transaction with its own decision, identifiers are never reused over the life of the service
    however requests overlap, and every signature recovers to the signing wallet.
  \<^item> \<^emph>\<open>safe-ops.\<close> The DER reader inverts the encoding for all 256-bit values and all points; signatures
    that leave the KMS signer or the adapter recover to its account and are in low-s form; nothing is
    executed without the signatures the Safe's threshold asks for; the scripts' guards hold, with the
    one a NaN threshold passes.
  \<^item> \<^emph>\<open>Frontend.\<close> Payments follow a mined approval of the exact premium, a failed payment can be
    retried, a claim is recorded before it is submitted and with the same root, equal roots mean equal
    evidence, a session exists only for a signed nonce, and, however clicks and answers interleave, one
    idempotency key serves a lookup; that a late refresh can pair it with another claim is shown too.

  \<^item> \<^emph>\<open>Across services.\<close> What the frontend files is what the indexer stores and reports, by the same
    evidence root; a decision encoded by the operator's script ends as the status the frontend labels
    with it.
  \<^item> \<^emph>\<open>Contracts.\<close> The registry stays well formed under all calls; as long as a claim is decided once,
    payouts on a policy stay within its coverage and every transfer of the payout token is a payout to
    a claimant; a subscription leads to a policy one can claim on. That a paid claim can be approved and
    paid again, and that an amount above 96 bits is cut, are theorems too.
  \<^item> \<^emph>\<open>Contracts and services.\<close> The indexer's claims table is the registry, for every history without a
    released payout; an attestation of the oracle service decides its claim, once; one self-service
    subscription ends the indexing of claims, since its logs are not in the indexer's ABI.
  \<^item> \<^emph>\<open>Backend and its neighbours.\<close> A nonce opens one session, and a wallet that signs gets one; a claim is
    stored as it was filed; the catalog sells the contract's plans at its price; a retried verification is
    not repeated. Three mismatches are theorems: every notification of the indexer is rejected, so no
    verification is ever offered, and a verification decides the claim with the number of the row.

  \<^bold>\<open>Loops.\<close> The scan loop and the drawing of identifiers are \<^verbatim>\<open>partial_function (option)\<close>: not returning is
    \<^const>\<open>None\<close>. That they return is proved: the scan for every positive chunk size, which the
    configuration guarantees, and the drawing when the random source delivers a new value. The endless
    main loop is modelled by its number of turns, and its properties hold for every number.

  A loop of the contracts is bounded by its list or, for the search of a free policy number, by its own
  limit of 1000; the histories of calls and requests are lists of any length.

  \<^bold>\<open>Not modelled.\<close> The remaining contracts (vault, stable coin, price oracle, paymaster, governance and
  mocks), which no modelled service calls, the upgrade of contracts, and gas. Reentrancy: a token call
  succeeds or reverts, and the functions that make one are guarded against it. The settings, the database
  engine and the connection to the node of the backend, and concurrent requests to it: a request runs alone.
  The document, notification and underwriter services, in C#, Go and Java, which no modelled component
  calls. Of the JavaScript services: express, axios, React's rendering and scheduling (a handler runs to
  its end before the next event, but on the status page, whose handlers can overlap), the polling delay,
  console output where nothing depends on it, the exit code of the operator scripts, styles and text of pages,
  \<^verbatim>\<open>main.jsx\<close> and the build configuration. Libraries (ethers, zod's and pydantic's coercions, the Safe SDK,
  the AWS client, JWT, keccak256 and ECDSA) are parameters.
\<close>

section \<open>One vocabulary of statuses\<close>

text \<open>
  The services agree on the codes of a claim's status: the names the indexer stores have labels in
  the frontend, and the codes the operator script sends are those of the names it means.
\<close>

lemma status_vocabulary:
  "list_all (\<lambda>n. n \<in> fst ` set STATUS_LABELS) CLAIM_STATUS_NAMES"
  "CLAIM_STATUS_NAMES ! 2 = ''approved''" "CLAIM_STATUS_NAMES ! 4 = ''rejected''"
  by (simp_all add: STATUS_LABELS_def CLAIM_STATUS_NAMES_def)

end
